theory Spec2Isabelle
  imports Complex_Main "HOL-Library.Word" "HOL-Library.Monad_Syntax"
begin

section \<open>UV islands: border extraction, border extension and the island mask\<close>

text \<open>
  A shallow embedding of \<^verbatim>\<open>uv_islands.cc\<close> (namespace \<^verbatim>\<open>blender::bke::uv_islands\<close>).
  Conventions of the embedding:
  \<^item> a \<^verbatim>\<open>float\<close> is the real number it stands for and a \<^verbatim>\<open>float2\<close> a pair of them; the
    arithmetic on floats, which rounds, is a parameter of the model (the record
    \<open>float_ops\<close> below), and comparisons are those of the real numbers;
  \<^item> a pointer into one of the stable-address stores is the index of the element in the
    store, a nullable pointer is an \<open>option\<close>;
  \<^item> a computation that dereferences an invalid pointer, indexes a vector out of range or
    fails a \<^verbatim>\<open>BLI_assert\<close> returns \<open>None\<close> (a fault);
  \<^item> a loop that may run forever is a \<open>partial_function\<close> in the option monad: its result
    is \<open>None\<close> when the loop does not return, \<open>Some None\<close> when it faults and
    \<open>Some (Some r)\<close> when it returns \<open>r\<close>.
\<close>

type_synonym float2 = "real \<times> real"

subsection \<open>Checked access\<close>

text \<open>Reading a vector at an index, or a store at a pointer: a fault when it is out of range.\<close>

definition nth_opt :: "'a list \<Rightarrow> nat \<Rightarrow> 'a option" where
  "nth_opt xs i = (if i < length xs then Some (xs ! i) else None)"

definition nth_int :: "'a list \<Rightarrow> int \<Rightarrow> 'a option" where
  "nth_int xs i = (if 0 \<le> i \<and> i < int (length xs) then Some (xs ! nat i) else None)"

subsection \<open>The mesh (read only)\<close>

text \<open>
  Modelled from the spec: \<^verbatim>\<open>BKE_uv_islands.hh\<close>, which declares the structs of this section
  and of the next and defines their inline members, is not in the source tree. The fields
  are those the source file reads and writes; the inline members follow the data model of
  the spec and the way the source file uses them.
\<close>

record MeshVertex =
  mv_v :: int
  mv_edges :: "nat list"

record MeshUVVert =
  muv_vertex :: nat
  muv_uv :: float2

record MeshEdge =
  me_vert1 :: nat
  me_vert2 :: nat
  me_primitives :: "nat list"

record MeshPrimitive =
  mp_index :: int
  mp_edges :: "nat list"
  mp_vertices :: "MeshUVVert list"
  mp_uv_island_id :: int

record MeshData =
  md_vertices :: "MeshVertex list"
  md_edges :: "MeshEdge list"
  md_primitives :: "MeshPrimitive list"
  md_uv_island_len :: int

text \<open>\<^verbatim>\<open>get_uv_vert\<close>: the corner of the triangle at the given mesh vertex; the source asserts
  that there is one.\<close>

definition get_uv_vert :: "MeshPrimitive \<Rightarrow> nat \<Rightarrow> MeshUVVert option" where
  "get_uv_vert mesh_primitive vert = find (\<lambda>uv_vert. muv_vertex uv_vert = vert) (mp_vertices mesh_primitive)"

text \<open>\<^verbatim>\<open>has_vertex\<close> reads the three corners \<^verbatim>\<open>vertices[0..2]\<close>.\<close>

definition has_vertex :: "MeshPrimitive \<Rightarrow> nat \<Rightarrow> bool option" where
  "has_vertex mesh_primitive mesh_vertex =
     (if length (mp_vertices mesh_primitive) < 3 then None
      else Some (\<exists>i \<in> {0, 1, 2}. muv_vertex (mp_vertices mesh_primitive ! i) = mesh_vertex))"

text \<open>Modelled from the spec: \<^verbatim>\<open>MeshPrimitive::get_other_uv_vertex\<close> (missing header), the
  corner of the triangle that is at neither of the two given mesh vertices; a null pointer
  when there is none.\<close>

definition mesh_get_other_uv_vertex :: "MeshPrimitive \<Rightarrow> nat \<Rightarrow> nat \<Rightarrow> MeshUVVert option" where
  "mesh_get_other_uv_vertex mesh_primitive v1 v2 =
     find (\<lambda>uv_vert. muv_vertex uv_vert \<noteq> v1 \<and> muv_vertex uv_vert \<noteq> v2) (mp_vertices mesh_primitive)"

subsection \<open>The UV topology store of an island\<close>

text \<open>A back reference from a \<^verbatim>\<open>UVEdge\<close> to a \<^verbatim>\<open>UVPrimitive\<close>: the address of a primitive of
  the island's store, or the address of the function-local primitive that
  \<^verbatim>\<open>add_uv_primitive_fill\<close> and \<^verbatim>\<open>add_uv_primitive_shared_uv_edge\<close> register before they
  copy it into the store.\<close>

datatype prim_ref = In_store nat | On_stack

record UVVertex =
  uvv_vertex :: nat
  uvv_uv :: float2
  uvv_uv_edges :: "nat list"
  is_border :: bool
  is_extended :: bool

record UVEdge =
  uve_vertices :: "nat \<times> nat"
  uve_uv_primitives :: "prim_ref list"

record UVPrimitive =
  uvp_primitive :: nat
  uvp_edges :: "nat list"

record UVBorderEdge =
  be_edge :: nat
  be_tag :: bool
  be_uv_primitive :: nat
  be_reverse_order :: bool
  be_index :: int
  be_prev_index :: int
  be_next_index :: int
  be_border_index :: int

record UVBorder =
  border_edges :: "UVBorderEdge list"

record UVIsland =
  uv_vertices :: "UVVertex list"
  uv_edges :: "UVEdge list"
  uv_primitives :: "UVPrimitive list"
  borders :: "UVBorder list"

text \<open>Modelled from the spec: the constructors of the missing header. A new \<^verbatim>\<open>UVVertex\<close> has
  both flags cleared; a new \<^verbatim>\<open>UVBorderEdge\<close> is untagged, in edge order, with no indexes.\<close>

definition UVVertex_init :: "MeshUVVert \<Rightarrow> UVVertex" where
  "UVVertex_init vert =
     \<lparr>uvv_vertex = muv_vertex vert, uvv_uv = muv_uv vert, uvv_uv_edges = [],
      is_border = False, is_extended = False\<rparr>"

definition UVVertex_template :: "nat \<Rightarrow> float2 \<Rightarrow> UVVertex" where
  "UVVertex_template vertex uv =
     \<lparr>uvv_vertex = vertex, uvv_uv = uv, uvv_uv_edges = [], is_border = False, is_extended = False\<rparr>"

definition UVBorderEdge_init :: "nat \<Rightarrow> nat \<Rightarrow> UVBorderEdge" where
  "UVBorderEdge_init edge uv_primitive =
     \<lparr>be_edge = edge, be_tag = False, be_uv_primitive = uv_primitive, be_reverse_order = False,
      be_index = - 1, be_prev_index = - 1, be_next_index = - 1, be_border_index = - 1\<rparr>"

definition append_non_duplicates :: "'a list \<Rightarrow> 'a \<Rightarrow> 'a list" where
  "append_non_duplicates xs x = (if x \<in> set xs then xs else xs @ [x])"

definition the_vertex :: "UVIsland \<Rightarrow> nat \<Rightarrow> UVVertex option" where
  "the_vertex island p = nth_opt (uv_vertices island) p"

definition the_edge :: "UVIsland \<Rightarrow> nat \<Rightarrow> UVEdge option" where
  "the_edge island p = nth_opt (uv_edges island) p"

definition the_primitive :: "UVIsland \<Rightarrow> nat \<Rightarrow> UVPrimitive option" where
  "the_primitive island p = nth_opt (uv_primitives island) p"

definition vertex_uv :: "UVIsland \<Rightarrow> nat \<Rightarrow> float2 option" where
  "vertex_uv island p = map_option uvv_uv (the_vertex island p)"

definition vertex_mesh :: "UVIsland \<Rightarrow> nat \<Rightarrow> nat option" where
  "vertex_mesh island p = map_option uvv_vertex (the_vertex island p)"

text \<open>Modelled from the spec: \<^verbatim>\<open>UVIsland::lookup_or_create\<close> (missing header). Two UV
  vertices are equal when they have the same mesh vertex and the same UV coordinate; a new
  one is appended with an empty edge list. The result is the pointer and the island.\<close>

definition lookup_vertex :: "UVIsland \<Rightarrow> UVVertex \<Rightarrow> nat option" where
  "lookup_vertex island vertex =
     (case filter (\<lambda>i. uvv_vertex (uv_vertices island ! i) = uvv_vertex vertex \<and>
                        uvv_uv (uv_vertices island ! i) = uvv_uv vertex)
                  [0..<length (uv_vertices island)] of
        [] \<Rightarrow> None
      | i # _ \<Rightarrow> Some i)"

definition lookup_or_create_vertex :: "UVIsland \<Rightarrow> UVVertex \<Rightarrow> nat \<times> UVIsland" where
  "lookup_or_create_vertex island vertex =
     (case lookup_vertex island vertex of
        Some i \<Rightarrow> (i, island)
      | None \<Rightarrow> (length (uv_vertices island),
                 island\<lparr>uv_vertices := uv_vertices island @ [vertex\<lparr>uvv_uv_edges := []\<rparr>]\<rparr>))"

text \<open>Modelled from the spec: two UV edges are equal when they have the same unordered pair
  of end points; a new one is appended with an empty primitive list.\<close>

definition same_end_points :: "nat \<times> nat \<Rightarrow> nat \<times> nat \<Rightarrow> bool" where
  "same_end_points a b \<longleftrightarrow> a = b \<or> a = (snd b, fst b)"

definition lookup_edge :: "UVIsland \<Rightarrow> nat \<times> nat \<Rightarrow> nat option" where
  "lookup_edge island vertices =
     (case filter (\<lambda>i. same_end_points (uve_vertices (uv_edges island ! i)) vertices)
                  [0..<length (uv_edges island)] of
        [] \<Rightarrow> None
      | i # _ \<Rightarrow> Some i)"

definition lookup_or_create_edge :: "UVIsland \<Rightarrow> nat \<times> nat \<Rightarrow> nat \<times> UVIsland" where
  "lookup_or_create_edge island vertices =
     (case lookup_edge island vertices of
        Some i \<Rightarrow> (i, island)
      | None \<Rightarrow> (length (uv_edges island),
                 island\<lparr>uv_edges := uv_edges island @
                          [\<lparr>uve_vertices = vertices, uve_uv_primitives = []\<rparr>]\<rparr>))"

text \<open>Modelled from the spec: \<^verbatim>\<open>UVEdge::append_to_uv_vertices\<close> registers the edge with its
  two end points, \<^verbatim>\<open>UVEdge::is_border_edge\<close> holds for an edge of exactly one primitive,
  \<^verbatim>\<open>UVEdge::get_other_uv_vertex\<close> is the end point away from a mesh vertex.\<close>

definition register_edge_at :: "nat \<Rightarrow> nat \<Rightarrow> UVIsland \<Rightarrow> UVIsland option" where
  "register_edge_at edge p island =
     do { v \<leftarrow> the_vertex island p;
          Some (island\<lparr>uv_vertices := (uv_vertices island)
                  [p := v\<lparr>uvv_uv_edges := append_non_duplicates (uvv_uv_edges v) edge\<rparr>]\<rparr>) }"

definition edge_append_to_uv_vertices :: "nat \<Rightarrow> UVIsland \<Rightarrow> UVIsland option" where
  "edge_append_to_uv_vertices edge island =
     do { e \<leftarrow> the_edge island edge;
          island1 \<leftarrow> register_edge_at edge (fst (uve_vertices e)) island;
          register_edge_at edge (snd (uve_vertices e)) island1 }"

definition edge_append_primitive :: "nat \<Rightarrow> prim_ref \<Rightarrow> bool \<Rightarrow> UVIsland \<Rightarrow> UVIsland option" where
  "edge_append_primitive edge ref non_duplicates island =
     do { e \<leftarrow> the_edge island edge;
          Some (island\<lparr>uv_edges := (uv_edges island)
                  [edge := e\<lparr>uve_uv_primitives :=
                     (if non_duplicates then append_non_duplicates (uve_uv_primitives e) ref
                      else uve_uv_primitives e @ [ref])\<rparr>]\<rparr>) }"

definition is_border_edge :: "UVEdge \<Rightarrow> bool" where
  "is_border_edge e \<longleftrightarrow> length (uve_uv_primitives e) = 1"

definition edge_get_other_uv_vertex :: "UVIsland \<Rightarrow> nat \<Rightarrow> nat \<Rightarrow> nat option" where
  "edge_get_other_uv_vertex island edge mesh_vertex =
     do { e \<leftarrow> the_edge island edge;
          v0 \<leftarrow> the_vertex island (fst (uve_vertices e));
          Some (if uvv_vertex v0 = mesh_vertex then snd (uve_vertices e) else fst (uve_vertices e)) }"

text \<open>Modelled from the spec: \<^verbatim>\<open>UVBorderEdge::get_uv_vertex\<close> is the end point \<open>index\<close> of the
  edge, read in reverse when \<^verbatim>\<open>reverse_order\<close> is set.\<close>

definition get_uv_vertex :: "UVIsland \<Rightarrow> UVBorderEdge \<Rightarrow> nat \<Rightarrow> nat option" where
  "get_uv_vertex island border_edge index =
     do { e \<leftarrow> the_edge island (be_edge border_edge);
          let actual_index = (if be_reverse_order border_edge then 1 - index else index);
          Some (if actual_index = 0 then fst (uve_vertices e) else snd (uve_vertices e)) }"

definition border_edge_uv :: "UVIsland \<Rightarrow> UVBorderEdge \<Rightarrow> nat \<Rightarrow> float2 option" where
  "border_edge_uv island border_edge index =
     do { p \<leftarrow> get_uv_vertex island border_edge index; vertex_uv island p }"

text \<open>Modelled from the spec: \<^verbatim>\<open>UVPrimitive::get_other_uv_vertex\<close> is the first end point of
  the primitive's edges that is neither of the two given UV vertices (asserted to exist),
  and \<^verbatim>\<open>UVBorderEdge::get_other_uv_vertex\<close> applies it to the two end points of the border
  edge within its own primitive.\<close>

definition prim_end_points :: "UVIsland \<Rightarrow> UVPrimitive \<Rightarrow> nat list option" where
  "prim_end_points island prim =
     fold (\<lambda>edge acc. do { ps \<leftarrow> acc; e \<leftarrow> the_edge island edge;
                            Some (ps @ [fst (uve_vertices e), snd (uve_vertices e)]) })
          (uvp_edges prim) (Some [])"

definition prim_get_other_uv_vertex :: "UVIsland \<Rightarrow> UVPrimitive \<Rightarrow> nat \<Rightarrow> nat \<Rightarrow> nat option" where
  "prim_get_other_uv_vertex island prim v1 v2 =
     do { ps \<leftarrow> prim_end_points island prim; find (\<lambda>p. p \<noteq> v1 \<and> p \<noteq> v2) ps }"

definition get_other_uv_vertex :: "UVIsland \<Rightarrow> UVBorderEdge \<Rightarrow> nat option" where
  "get_other_uv_vertex island border_edge =
     do { e \<leftarrow> the_edge island (be_edge border_edge);
          prim \<leftarrow> the_primitive island (be_uv_primitive border_edge);
          prim_get_other_uv_vertex island prim (fst (uve_vertices e)) (snd (uve_vertices e)) }"

subsection \<open>Border extraction\<close>

text \<open>\<^verbatim>\<open>UVBorder::update_indexes\<close>.\<close>

definition update_indexes :: "int \<Rightarrow> UVBorder \<Rightarrow> UVBorder" where
  "update_indexes border_index border =
     (let n = int (length (border_edges border)) in
      border\<lparr>border_edges :=
        map (\<lambda>i. (border_edges border ! i)
                   \<lparr>be_index := int i, be_prev_index := (int i - 1 + n) mod n,
                    be_next_index := (int i + 1) mod n, be_border_index := border_index\<rparr>)
            [0..<length (border_edges border)]\<rparr>)"

text \<open>The first loop of \<^verbatim>\<open>UVBorder::extract_from_edges\<close>: the first untagged candidate.\<close>

fun first_untagged :: "UVBorderEdge list \<Rightarrow> nat \<Rightarrow> nat option" where
  "first_untagged [] k = None"
| "first_untagged (edge # rest) k = (if be_tag edge = False then Some k else first_untagged rest (Suc k))"

text \<open>
  The \<^verbatim>\<open>for\<close> loop inside the walk: the first untagged candidate with an end point at
  \<open>current_uv\<close>, tried in the order \<^verbatim>\<open>vertices[0]\<close>, \<^verbatim>\<open>vertices[1]\<close>. It yields the position of
  the candidate, the candidate as it is written back (oriented and tagged) and the new
  \<open>current_uv\<close>; \<open>Some None\<close> when no candidate matches.
\<close>

fun next_border_edge ::
  "UVIsland \<Rightarrow> float2 \<Rightarrow> UVBorderEdge list \<Rightarrow> nat \<Rightarrow> (nat \<times> UVBorderEdge \<times> float2) option option" where
  "next_border_edge island current_uv [] k = Some None"
| "next_border_edge island current_uv (border_edge # rest) k =
     (if be_tag border_edge = True then next_border_edge island current_uv rest (Suc k)
      else
        do { e \<leftarrow> the_edge island (be_edge border_edge);
             uv0 \<leftarrow> vertex_uv island (fst (uve_vertices e));
             if uv0 = current_uv then
               do { let taken = border_edge\<lparr>be_reverse_order := False, be_tag := True\<rparr>;
                    uv \<leftarrow> border_edge_uv island taken 1;
                    Some (Some (k, taken, uv)) }
             else
               do { uv1 \<leftarrow> vertex_uv island (snd (uve_vertices e));
                    if uv1 = current_uv then
                      do { let taken = border_edge\<lparr>be_reverse_order := True, be_tag := True\<rparr>;
                           uv \<leftarrow> border_edge_uv island taken 1;
                           Some (Some (k, taken, uv)) }
                    else next_border_edge island current_uv rest (Suc k) } })"

text \<open>
  The loop \<^verbatim>\<open>while (current_uv != first_uv)\<close>. When no candidate matches, the body changes
  nothing and the source loops forever: the recursive call has the same arguments.
\<close>

partial_function (option) extract_walk ::
  "UVIsland \<Rightarrow> float2 \<Rightarrow> float2 \<Rightarrow> UVBorderEdge list \<Rightarrow> UVBorderEdge list \<Rightarrow>
   (UVBorder \<times> UVBorderEdge list) option option" where
  "extract_walk island first_uv current_uv edges border =
     (if current_uv \<noteq> first_uv then
        (case next_border_edge island current_uv edges 0 of
           None \<Rightarrow> Some None
         | Some None \<Rightarrow> extract_walk island first_uv current_uv edges border
         | Some (Some (k, taken, uv)) \<Rightarrow>
             extract_walk island first_uv uv (edges[k := taken]) (border @ [taken]))
      else Some (Some (\<lparr>border_edges = border\<rparr>, edges)))"

text \<open>\<^verbatim>\<open>UVBorder::extract_from_edges\<close>: the border, if any, and the candidates with their tags.
  The copy of the starting edge is appended to the border before the candidate is tagged.\<close>

definition extract_from_edges ::
  "UVIsland \<Rightarrow> UVBorderEdge list \<Rightarrow> (UVBorder option \<times> UVBorderEdge list) option option" where
  "extract_from_edges island edges =
     (case first_untagged edges 0 of
        None \<Rightarrow> Some (Some (None, edges))
      | Some s \<Rightarrow>
          (let starting_border_edge = edges ! s;
               edges1 = edges[s := starting_border_edge\<lparr>be_tag := True\<rparr>] in
           case (border_edge_uv island starting_border_edge 0,
                 border_edge_uv island starting_border_edge 1) of
             (Some first_uv, Some current_uv) \<Rightarrow>
               (case extract_walk island first_uv current_uv edges1 [starting_border_edge] of
                  None \<Rightarrow> None
                | Some None \<Rightarrow> Some None
                | Some (Some (border, edges2)) \<Rightarrow> Some (Some (Some border, edges2)))
           | _ \<Rightarrow> Some None))"

subsection \<open>Orientation\<close>

text \<open>Modelled from the spec: \<^verbatim>\<open>cross_poly_v2\<close> of the math library (not in the source tree),
  the trapezium rule \<open>\<Sum> (x\<^sub>i - x\<^sub>i\<^sub>-\<^sub>1) (y\<^sub>i + y\<^sub>i\<^sub>-\<^sub>1)\<close> over the closed polygon: minus twice the
  signed area, so that a negative value is a counter-clockwise polygon.\<close>

fun cross_poly_acc :: "float2 \<Rightarrow> float2 list \<Rightarrow> real \<Rightarrow> real" where
  "cross_poly_acc co_prev [] cross = cross"
| "cross_poly_acc co_prev (co_curr # rest) cross =
     cross_poly_acc co_curr rest (cross + (fst co_curr - fst co_prev) * (snd co_curr + snd co_prev))"

definition cross_poly_v2 :: "float2 list \<Rightarrow> real" where
  "cross_poly_v2 verts = (if verts = [] then 0 else cross_poly_acc (last verts) verts 0)"

text \<open>\<^verbatim>\<open>UVBorder::is_ccw\<close>: the triangle of the first border edge and the opposite vertex of its
  primitive.\<close>

definition is_ccw :: "UVIsland \<Rightarrow> UVBorder \<Rightarrow> bool option" where
  "is_ccw island border =
     do { edge \<leftarrow> nth_opt (border_edges border) 0;
          uv1 \<leftarrow> border_edge_uv island edge 0;
          uv2 \<leftarrow> border_edge_uv island edge 1;
          p3 \<leftarrow> get_other_uv_vertex island edge;
          uv3 \<leftarrow> vertex_uv island p3;
          Some (cross_poly_v2 [uv1, uv2, uv3] < 0) }"

text \<open>\<^verbatim>\<open>UVBorder::flip\<close>.\<close>

definition flip :: "UVBorder \<Rightarrow> UVBorder option" where
  "flip border =
     do { first \<leftarrow> nth_opt (border_edges border) 0;
          let border_index = be_border_index first;
          let flipped = map (\<lambda>edge. edge\<lparr>be_reverse_order := \<not> be_reverse_order edge\<rparr>)
                            (border_edges border);
          Some (update_indexes border_index (border\<lparr>border_edges := rev flipped\<rparr>)) }"

text \<open>The first loops of \<^verbatim>\<open>UVIsland::extract_borders\<close>: a candidate for every border edge of
  every primitive, in store order.\<close>

definition border_candidates_of :: "UVIsland \<Rightarrow> nat \<Rightarrow> UVBorderEdge list option" where
  "border_candidates_of island prim =
     do { p \<leftarrow> the_primitive island prim;
          fold (\<lambda>edge acc. do { es \<leftarrow> acc; e \<leftarrow> the_edge island edge;
                                 Some (if is_border_edge e then es @ [UVBorderEdge_init edge prim] else es) })
               (uvp_edges p) (Some []) }"

definition border_candidates :: "UVIsland \<Rightarrow> UVBorderEdge list option" where
  "border_candidates island =
     fold (\<lambda>prim acc. do { es \<leftarrow> acc; ps \<leftarrow> border_candidates_of island prim; Some (es @ ps) })
          [0..<length (uv_primitives island)] (Some [])"

text \<open>The loop \<^verbatim>\<open>while (true)\<close> of \<^verbatim>\<open>UVIsland::extract_borders\<close>; \<open>acc\<close> is the list
  \<^verbatim>\<open>borders\<close> of the island.\<close>

partial_function (option) extract_borders_loop ::
  "UVIsland \<Rightarrow> UVBorderEdge list \<Rightarrow> UVBorder list \<Rightarrow> UVBorder list option option" where
  "extract_borders_loop island edges acc =
     (case extract_from_edges island edges of
        None \<Rightarrow> None
      | Some None \<Rightarrow> Some None
      | Some (Some (None, edges1)) \<Rightarrow> Some (Some acc)
      | Some (Some (Some border, edges1)) \<Rightarrow>
          (case is_ccw island border of
             None \<Rightarrow> Some None
           | Some ccw \<Rightarrow>
               (case (if \<not> ccw then flip border else Some border) of
                  None \<Rightarrow> Some None
                | Some oriented \<Rightarrow> extract_borders_loop island edges1 (acc @ [oriented]))))"

definition extract_borders :: "UVIsland \<Rightarrow> UVIsland option option" where
  "extract_borders island =
     (case border_candidates island of
        None \<Rightarrow> Some None
      | Some edges \<Rightarrow>
          (case extract_borders_loop island edges (borders island) of
             None \<Rightarrow> None
           | Some None \<Rightarrow> Some None
           | Some (Some bs) \<Rightarrow> Some (Some (island\<lparr>borders := bs\<rparr>))))"

subsection \<open>Building an island from the mesh\<close>

text \<open>\<^verbatim>\<open>add_primitive\<close>: the loop body for one mesh edge of the triangle, then the function.\<close>

definition add_primitive_edge :: "MeshData \<Rightarrow> MeshPrimitive \<Rightarrow> nat \<Rightarrow> nat \<Rightarrow> UVIsland \<Rightarrow> UVIsland option" where
  "add_primitive_edge mesh primitive uv_primitive_ptr edge island =
     do { e \<leftarrow> nth_opt (md_edges mesh) edge;
          v1 \<leftarrow> get_uv_vert primitive (me_vert1 e);
          v2 \<leftarrow> get_uv_vert primitive (me_vert2 e);
          let (p1, island1) = lookup_or_create_vertex island (UVVertex_init v1);
          let (p2, island2) = lookup_or_create_vertex island1 (UVVertex_init v2);
          let (uv_edge, island3) = lookup_or_create_edge island2 (p1, p2);
          prim \<leftarrow> the_primitive island3 uv_primitive_ptr;
          let island4 = island3\<lparr>uv_primitives := (uv_primitives island3)
                          [uv_primitive_ptr := prim\<lparr>uvp_edges := uvp_edges prim @ [uv_edge]\<rparr>]\<rparr>;
          island5 \<leftarrow> edge_append_to_uv_vertices uv_edge island4;
          edge_append_primitive uv_edge (In_store uv_primitive_ptr) False island5 }"

definition add_primitive :: "MeshData \<Rightarrow> UVIsland \<Rightarrow> nat \<Rightarrow> (nat \<times> UVIsland) option" where
  "add_primitive mesh uv_island primitive =
     do { p \<leftarrow> nth_opt (md_primitives mesh) primitive;
          let uv_primitive_ptr = length (uv_primitives uv_island);
          let island1 = uv_island\<lparr>uv_primitives := uv_primitives uv_island @
                          [\<lparr>uvp_primitive = primitive, uvp_edges = []\<rparr>]\<rparr>;
          island2 \<leftarrow> fold (\<lambda>edge acc. do { i \<leftarrow> acc; add_primitive_edge mesh p uv_primitive_ptr edge i })
                          (mp_edges p) (Some island1);
          Some (uv_primitive_ptr, island2) }"

definition UVIsland_empty :: UVIsland where
  "UVIsland_empty = \<lparr>uv_vertices = [], uv_edges = [], uv_primitives = [], borders = []\<rparr>"

text \<open>The constructor \<^verbatim>\<open>UVIslands::UVIslands\<close>: one island for every island id, filled with the
  mesh triangles of that id in mesh order.\<close>

definition UVIslands_island :: "MeshData \<Rightarrow> int \<Rightarrow> UVIsland option" where
  "UVIslands_island mesh uv_island_id =
     fold (\<lambda>primitive acc.
             do { island \<leftarrow> acc;
                  if mp_uv_island_id (md_primitives mesh ! primitive) = uv_island_id
                  then map_option snd (add_primitive mesh island primitive)
                  else Some island })
          [0..<length (md_primitives mesh)] (Some UVIsland_empty)"

definition UVIslands_init :: "MeshData \<Rightarrow> UVIsland list option" where
  "UVIslands_init mesh =
     fold (\<lambda>uv_island_id acc.
             do { islands \<leftarrow> acc; island \<leftarrow> UVIslands_island mesh (int uv_island_id);
                  Some (islands @ [island]) })
          [0..<nat (md_uv_island_len mesh)] (Some [])"

subsection \<open>Corner selection\<close>

text \<open>
  The arithmetic of the source is on \<^verbatim>\<open>float\<close>: it rounds, and it has infinities and a negative
  zero. A \<^verbatim>\<open>float\<close> is modelled by the real number it stands for, and the operations on
  floats that compute a new number are a parameter of the model, the record below: the
  vector helpers of the math library, which are not in the source tree, and the built-in
  arithmetic. Nothing is assumed about what they return (an operation may return a number
  above \<open>FLT_MAX\<close> where the source has an infinity). Comparisons of floats and \<^verbatim>\<open>min_ff\<close>,
  \<^verbatim>\<open>max_ff\<close> are exact and are those of the real numbers. A NaN is outside of the model.
  \<^item> \<open>f_sub_v2\<close>: \<^verbatim>\<open>float2 operator-\<close>;
  \<^item> \<open>f_mul\<close>, \<open>f_div\<close>: the product and the quotient of two floats;
  \<^item> \<open>f_angle_signed\<close>: \<^verbatim>\<open>angle_signed_v2v2\<close>;
  \<^item> \<open>f_pi_minus\<close>: \<^verbatim>\<open>M_PI - x\<close>, converted to \<^verbatim>\<open>float\<close>;
  \<^item> \<open>f_length\<close>: the distance of two UV coordinates (\<^verbatim>\<open>UVBorderEdge::length\<close>);
  \<^item> \<open>f_mix a b t\<close>: \<^verbatim>\<open>a * t + b * (1.0 - t)\<close>, converted to \<^verbatim>\<open>float\<close>;
  \<^item> \<open>f_normalize\<close>: \<^verbatim>\<open>normalize_v2\<close>;
  \<^item> \<open>f_rotate a v\<close>: \<^verbatim>\<open>float3x3::from_rotation(a) * v\<close>;
  \<^item> \<open>f_madd_v2 v s w\<close>: \<^verbatim>\<open>v * s + w\<close>.
\<close>

record float_ops =
  f_sub_v2 :: "float2 \<Rightarrow> float2 \<Rightarrow> float2"
  f_mul :: "real \<Rightarrow> real \<Rightarrow> real"
  f_div :: "real \<Rightarrow> real \<Rightarrow> real"
  f_angle_signed :: "float2 \<Rightarrow> float2 \<Rightarrow> real"
  f_pi_minus :: "real \<Rightarrow> real"
  f_length :: "float2 \<Rightarrow> float2 \<Rightarrow> real"
  f_mix :: "real \<Rightarrow> real \<Rightarrow> real \<Rightarrow> real"
  f_normalize :: "float2 \<Rightarrow> float2"
  f_rotate :: "real \<Rightarrow> float2 \<Rightarrow> float2"
  f_madd_v2 :: "float2 \<Rightarrow> real \<Rightarrow> float2 \<Rightarrow> float2"


text \<open>
  A pointer to a \<^verbatim>\<open>UVBorderEdge\<close> inside the edge vector of a border: the position of the
  border in \<^verbatim>\<open>island.borders\<close> and the slot in \<^verbatim>\<open>border.edges\<close>.
\<close>

type_synonym border_edge_ptr = "nat \<times> nat"

definition the_border_edge :: "UVIsland \<Rightarrow> border_edge_ptr \<Rightarrow> UVBorderEdge option" where
  "the_border_edge island p =
     do { border \<leftarrow> nth_opt (borders island) (fst p); nth_opt (border_edges border) (snd p) }"

record UVBorderCorner =
  corner_first :: border_edge_ptr
  corner_second :: border_edge_ptr
  corner_angle :: real

text \<open>\<^verbatim>\<open>UVBorder::outside_angle\<close>.\<close>

definition outside_angle :: "float_ops \<Rightarrow> UVIsland \<Rightarrow> UVBorder \<Rightarrow> UVBorderEdge \<Rightarrow> real option" where
  "outside_angle F island border edge =
     do { prev \<leftarrow> nth_int (border_edges border) (be_prev_index edge);
          p1 \<leftarrow> border_edge_uv island prev 1;
          p0 \<leftarrow> border_edge_uv island prev 0;
          e1 \<leftarrow> border_edge_uv island edge 1;
          e0 \<leftarrow> border_edge_uv island edge 0;
          Some (f_pi_minus F (f_angle_signed F (f_sub_v2 F p1 p0) (f_sub_v2 F e1 e0))) }"





text \<open>\<^verbatim>\<open>UVBorderCorner::uv\<close>.\<close>

definition border_edge_length :: "float_ops \<Rightarrow> UVIsland \<Rightarrow> UVBorderEdge \<Rightarrow> real option" where
  "border_edge_length F island edge =
     do { e \<leftarrow> the_edge island (be_edge edge);
          a \<leftarrow> vertex_uv island (fst (uve_vertices e));
          b \<leftarrow> vertex_uv island (snd (uve_vertices e));
          Some (f_length F a b) }"

definition corner_uv :: "float_ops \<Rightarrow> UVIsland \<Rightarrow> UVBorderCorner \<Rightarrow> real \<Rightarrow> real \<Rightarrow> float2 option" where
  "corner_uv F island corner factor min_uv_distance =
     do { first \<leftarrow> the_border_edge island (corner_first corner);
          second \<leftarrow> the_border_edge island (corner_second corner);
          origin \<leftarrow> border_edge_uv island first 1;
          let angle_between = f_mul F (corner_angle corner) factor;
          second_length \<leftarrow> border_edge_length F island second;
          first_length \<leftarrow> border_edge_length F island first;
          let desired_len = max (f_mix F second_length first_length factor) min_uv_distance;
          first_uv \<leftarrow> border_edge_uv island first 0;
          let v = f_normalize F (f_sub_v2 F first_uv origin);
          let rotated = f_rotate F angle_between v;
          Some (f_madd_v2 F rotated desired_len origin) }"
subsection \<open>The fan of mesh triangles around a vertex\<close>

record InnerEdge =
  ie_primitive :: nat
  ie_uvs :: "float2 option list"
  ie_vert_order :: "nat list"
  ie_found :: bool

record Fan =
  inner_edges :: "InnerEdge list"
  full :: bool

text \<open>The constructor \<^verbatim>\<open>InnerEdge::InnerEdge\<close>: the corners reordered to start at the vertex.
  The three UV coordinates \<^verbatim>\<open>uvs\<close> are not set by the constructor.\<close>

definition InnerEdge_init :: "MeshData \<Rightarrow> nat \<Rightarrow> nat \<Rightarrow> InnerEdge option" where
  "InnerEdge_init mesh primitive vertex =
     do { p \<leftarrow> nth_opt (md_primitives mesh) primitive;
          v0 \<leftarrow> nth_opt (mp_vertices p) 0;
          v1 \<leftarrow> nth_opt (mp_vertices p) 1;
          v2 \<leftarrow> nth_opt (mp_vertices p) 2;
          vert_order \<leftarrow>
            (if muv_vertex v1 = vertex then Some [1, 2, 0]
             else if muv_vertex v2 = vertex then Some [2, 0, 1]
             else if muv_vertex v0 = vertex then Some [0, 1, 2]
             else None);
          Some \<lparr>ie_primitive = primitive, ie_uvs = [None, None, None], ie_vert_order = vert_order,
                ie_found = False\<rparr> }"

text \<open>The inner loop of the constructor \<^verbatim>\<open>Fan::Fan\<close>: the first edge of the triangle \<open>other\<close>
  that is not the current edge and touches the vertex.\<close>

fun next_fan_edge :: "MeshData \<Rightarrow> nat \<Rightarrow> nat \<Rightarrow> nat list \<Rightarrow> nat option option" where
  "next_fan_edge mesh vertex current_edge [] = Some None"
| "next_fan_edge mesh vertex current_edge (edge # rest) =
     (if edge = current_edge then next_fan_edge mesh vertex current_edge rest
      else
        do { e \<leftarrow> nth_opt (md_edges mesh) edge;
             if me_vert1 e \<noteq> vertex \<and> me_vert2 e \<noteq> vertex
             then next_fan_edge mesh vertex current_edge rest
             else Some (Some edge) })"

text \<open>The loop over the triangles of the current edge: the first one, other than the
  previous triangle, in which such an edge is found, with that edge.\<close>

fun next_fan_primitive ::
  "MeshData \<Rightarrow> nat \<Rightarrow> nat \<Rightarrow> nat \<Rightarrow> nat list \<Rightarrow> (nat \<times> nat) option option" where
  "next_fan_primitive mesh vertex current_edge previous_primitive [] = Some None"
| "next_fan_primitive mesh vertex current_edge previous_primitive (other # rest) =
     (if other = previous_primitive
      then next_fan_primitive mesh vertex current_edge previous_primitive rest
      else
        do { p \<leftarrow> nth_opt (md_primitives mesh) other;
             r \<leftarrow> next_fan_edge mesh vertex current_edge (mp_edges p);
             case r of
               None \<Rightarrow> next_fan_primitive mesh vertex current_edge previous_primitive rest
             | Some edge \<Rightarrow> Some (Some (other, edge)) })"

text \<open>The loop \<^verbatim>\<open>while (true)\<close> of the constructor. It returns when the walk comes back to
  \<^verbatim>\<open>stop_primitive\<close> (a full fan) or finds no continuation (\<^verbatim>\<open>flags.full = false\<close>).\<close>

partial_function (option) Fan_loop ::
  "MeshData \<Rightarrow> nat \<Rightarrow> nat \<Rightarrow> nat \<Rightarrow> nat \<Rightarrow> InnerEdge list \<Rightarrow> Fan option option" where
  "Fan_loop mesh vertex stop_primitive current_edge previous_primitive edges =
     (case nth_opt (md_edges mesh) current_edge of
        None \<Rightarrow> Some None
      | Some ce \<Rightarrow>
          (case next_fan_primitive mesh vertex current_edge previous_primitive (me_primitives ce) of
             None \<Rightarrow> Some None
           | Some None \<Rightarrow> Some (Some \<lparr>inner_edges = edges, full = False\<rparr>)
           | Some (Some (other, edge)) \<Rightarrow>
               (case InnerEdge_init mesh other vertex of
                  None \<Rightarrow> Some None
                | Some inner \<Rightarrow>
                    if stop_primitive = other
                    then Some (Some \<lparr>inner_edges = edges @ [inner], full = True\<rparr>)
                    else Fan_loop mesh vertex stop_primitive edge other (edges @ [inner]))))"

definition Fan_init :: "MeshData \<Rightarrow> nat \<Rightarrow> Fan option option" where
  "Fan_init mesh vertex =
     (case do { v \<leftarrow> nth_opt (md_vertices mesh) vertex;
                current_edge \<leftarrow> nth_opt (mv_edges v) 0;
                ce \<leftarrow> nth_opt (md_edges mesh) current_edge;
                stop_primitive \<leftarrow> nth_opt (me_primitives ce) 0;
                Some (current_edge, stop_primitive) } of
        None \<Rightarrow> Some None
      | Some (current_edge, stop_primitive) \<Rightarrow>
          Fan_loop mesh vertex stop_primitive current_edge stop_primitive [])"

text \<open>\<^verbatim>\<open>Fan::count_num_to_add\<close>.\<close>

definition count_num_to_add :: "Fan \<Rightarrow> nat" where
  "count_num_to_add fan = length (filter (\<lambda>fan_edge. \<not> ie_found fan_edge) (inner_edges fan))"

text \<open>The mesh vertex of corner \<^verbatim>\<open>vert_order[k]\<close> of the triangle of a fan edge.\<close>

definition inner_edge_vertex :: "MeshData \<Rightarrow> InnerEdge \<Rightarrow> nat \<Rightarrow> nat option" where
  "inner_edge_vertex mesh fan_edge k =
     do { p \<leftarrow> nth_opt (md_primitives mesh) (ie_primitive fan_edge);
          order \<leftarrow> nth_opt (ie_vert_order fan_edge) k;
          corner \<leftarrow> nth_opt (mp_vertices p) order;
          Some (muv_vertex corner) }"

text \<open>\<^verbatim>\<open>Fan::mark_already_added_segments\<close>: a fan edge is found when an edge of the UV vertex
  joins its first two mesh vertices.\<close>

fun edge_joins :: "UVIsland \<Rightarrow> nat \<Rightarrow> nat \<Rightarrow> nat list \<Rightarrow> bool option" where
  "edge_joins island v0 v1 [] = Some False"
| "edge_joins island v0 v1 (edge # rest) =
     do { e \<leftarrow> the_edge island edge;
          e0 \<leftarrow> vertex_mesh island (fst (uve_vertices e));
          e1 \<leftarrow> vertex_mesh island (snd (uve_vertices e));
          if (e0 = v0 \<and> e1 = v1) \<or> (e0 = v1 \<and> e1 = v0) then Some True
          else edge_joins island v0 v1 rest }"

definition mark_segment :: "MeshData \<Rightarrow> UVIsland \<Rightarrow> UVVertex \<Rightarrow> InnerEdge \<Rightarrow> InnerEdge option" where
  "mark_segment mesh island uv_vertex fan_edge =
     do { v0 \<leftarrow> inner_edge_vertex mesh fan_edge 0;
          v1 \<leftarrow> inner_edge_vertex mesh fan_edge 1;
          found \<leftarrow> edge_joins island v0 v1 (uvv_uv_edges uv_vertex);
          Some (fan_edge\<lparr>ie_found := found\<rparr>) }"

definition those_all :: "'a option list \<Rightarrow> 'a list option" where
  "those_all xs = fold (\<lambda>x acc. do { ys \<leftarrow> acc; y \<leftarrow> x; Some (ys @ [y]) }) xs (Some [])"

definition mark_already_added_segments :: "MeshData \<Rightarrow> UVIsland \<Rightarrow> UVVertex \<Rightarrow> Fan \<Rightarrow> Fan option" where
  "mark_already_added_segments mesh island uv_vertex fan =
     do { es \<leftarrow> those_all (map (mark_segment mesh island uv_vertex) (inner_edges fan));
          Some (fan\<lparr>inner_edges := es\<rparr>) }"

text \<open>\<^verbatim>\<open>Fan::init_uv_coordinates\<close>: the first loop sets \<^verbatim>\<open>uvs[0]\<close> and \<^verbatim>\<open>uvs[1]\<close> of a fan edge
  from the first edge of the UV vertex that leads to the fan edge's far mesh vertex; the
  rest copies \<^verbatim>\<open>uvs[1]\<close> of the next fan edge into \<^verbatim>\<open>uvs[2]\<close>, cyclically.\<close>

definition mesh_v :: "MeshData \<Rightarrow> nat \<Rightarrow> int option" where
  "mesh_v mesh vertex = map_option mv_v (nth_opt (md_vertices mesh) vertex)"

fun find_other_uv :: "MeshData \<Rightarrow> UVIsland \<Rightarrow> UVVertex \<Rightarrow> int \<Rightarrow> nat list \<Rightarrow> float2 option option" where
  "find_other_uv mesh island uv_vertex other_v [] = Some None"
| "find_other_uv mesh island uv_vertex other_v (edge # rest) =
     do { p \<leftarrow> edge_get_other_uv_vertex island edge (uvv_vertex uv_vertex);
          other_uv_vertex \<leftarrow> the_vertex island p;
          other_edge_v \<leftarrow> mesh_v mesh (uvv_vertex other_uv_vertex);
          if other_v = other_edge_v then Some (Some (uvv_uv other_uv_vertex))
          else find_other_uv mesh island uv_vertex other_v rest }"

definition init_segment_uv :: "MeshData \<Rightarrow> UVIsland \<Rightarrow> UVVertex \<Rightarrow> InnerEdge \<Rightarrow> InnerEdge option" where
  "init_segment_uv mesh island uv_vertex fan_edge =
     do { v0 \<leftarrow> inner_edge_vertex mesh fan_edge 0;
          other_v0 \<leftarrow> mesh_v mesh v0;
          own_v \<leftarrow> mesh_v mesh (uvv_vertex uv_vertex);
          other_v \<leftarrow> (if other_v0 = own_v
                      then do { v1 \<leftarrow> inner_edge_vertex mesh fan_edge 1; mesh_v mesh v1 }
                      else Some other_v0);
          r \<leftarrow> find_other_uv mesh island uv_vertex other_v (uvv_uv_edges uv_vertex);
          Some (case r of
                  None \<Rightarrow> fan_edge
                | Some other_uv \<Rightarrow>
                    fan_edge\<lparr>ie_uvs := (ie_uvs fan_edge)[0 := Some (uvv_uv uv_vertex), 1 := Some other_uv]\<rparr>) }"

definition link_segment_uvs :: "InnerEdge list \<Rightarrow> InnerEdge list" where
  "link_segment_uvs es =
     (let n = length es;
          es1 = es[n - 1 := (es ! (n - 1))\<lparr>ie_uvs := (ie_uvs (es ! (n - 1)))[2 := ie_uvs (es ! 0) ! 1]\<rparr>]
      in fold (\<lambda>i acc. acc[i := (acc ! i)\<lparr>ie_uvs := (ie_uvs (acc ! i))[2 := ie_uvs (acc ! (i + 1)) ! 1]\<rparr>])
              [0..<n - 1] es1)"

definition init_uv_coordinates :: "MeshData \<Rightarrow> UVIsland \<Rightarrow> UVVertex \<Rightarrow> Fan \<Rightarrow> Fan option" where
  "init_uv_coordinates mesh island uv_vertex fan =
     do { es \<leftarrow> those_all (map (init_segment_uv mesh island uv_vertex) (inner_edges fan));
          if es = [] then None else Some (fan\<lparr>inner_edges := link_segment_uvs es\<rparr>) }"

subsection \<open>Fill triangles\<close>

text \<open>\<^verbatim>\<open>find_fill_border(v1, v2, v3)\<close>: the first triangle, over the edges of \<open>v1\<close> and their
  triangles, that has the three mesh vertices; a null pointer when there is none.\<close>

fun fill_among_primitives :: "MeshData \<Rightarrow> nat \<Rightarrow> nat \<Rightarrow> nat \<Rightarrow> nat list \<Rightarrow> nat option option" where
  "fill_among_primitives mesh v1 v2 v3 [] = Some None"
| "fill_among_primitives mesh v1 v2 v3 (primitive # rest) =
     do { p \<leftarrow> nth_opt (md_primitives mesh) primitive;
          h1 \<leftarrow> has_vertex p v1;
          h2 \<leftarrow> has_vertex p v2;
          h3 \<leftarrow> has_vertex p v3;
          if h1 \<and> h2 \<and> h3 then Some (Some primitive)
          else fill_among_primitives mesh v1 v2 v3 rest }"

fun fill_among_edges :: "MeshData \<Rightarrow> nat \<Rightarrow> nat \<Rightarrow> nat \<Rightarrow> nat list \<Rightarrow> nat option option" where
  "fill_among_edges mesh v1 v2 v3 [] = Some None"
| "fill_among_edges mesh v1 v2 v3 (edge # rest) =
     do { e \<leftarrow> nth_opt (md_edges mesh) edge;
          r \<leftarrow> fill_among_primitives mesh v1 v2 v3 (me_primitives e);
          case r of
            Some primitive \<Rightarrow> Some (Some primitive)
          | None \<Rightarrow> fill_among_edges mesh v1 v2 v3 rest }"

definition find_fill_border :: "MeshData \<Rightarrow> nat \<Rightarrow> nat \<Rightarrow> nat \<Rightarrow> nat option option" where
  "find_fill_border mesh v1 v2 v3 =
     do { v \<leftarrow> nth_opt (md_vertices mesh) v1; fill_among_edges mesh v1 v2 v3 (mv_edges v) }"

text \<open>\<^verbatim>\<open>find_fill_border(corner)\<close>. Modelled from the spec: \<^verbatim>\<open>UVEdge::has_same_vertices\<close>
  (missing header) compares the mesh vertices of a UV edge with those of a mesh edge, in
  either order.\<close>

definition has_same_vertices :: "UVIsland \<Rightarrow> UVEdge \<Rightarrow> MeshEdge \<Rightarrow> bool option" where
  "has_same_vertices island uv_edge edge =
     do { m0 \<leftarrow> vertex_mesh island (fst (uve_vertices uv_edge));
          m1 \<leftarrow> vertex_mesh island (snd (uve_vertices uv_edge));
          Some ((m0 = me_vert1 edge \<and> m1 = me_vert2 edge) \<or> (m0 = me_vert2 edge \<and> m1 = me_vert1 edge)) }"

fun corner_fill_among_primitives :: "MeshData \<Rightarrow> MeshEdge \<Rightarrow> nat \<Rightarrow> nat list \<Rightarrow> nat option option" where
  "corner_fill_among_primitives mesh edge far_vertex [] = Some None"
| "corner_fill_among_primitives mesh edge far_vertex (primitive # rest) =
     do { p \<leftarrow> nth_opt (md_primitives mesh) primitive;
          other_vert \<leftarrow> mesh_get_other_uv_vertex p (me_vert1 edge) (me_vert2 edge);
          if muv_vertex other_vert = far_vertex then Some (Some primitive)
          else corner_fill_among_primitives mesh edge far_vertex rest }"

fun corner_fill_among_edges ::
  "MeshData \<Rightarrow> UVIsland \<Rightarrow> UVEdge \<Rightarrow> nat \<Rightarrow> nat list \<Rightarrow> nat option option" where
  "corner_fill_among_edges mesh island first_edge far_vertex [] = Some None"
| "corner_fill_among_edges mesh island first_edge far_vertex (edge # rest) =
     do { e \<leftarrow> nth_opt (md_edges mesh) edge;
          same \<leftarrow> has_same_vertices island first_edge e;
          r \<leftarrow> (if same then corner_fill_among_primitives mesh e far_vertex (me_primitives e)
                else Some None);
          case r of
            Some primitive \<Rightarrow> Some (Some primitive)
          | None \<Rightarrow> corner_fill_among_edges mesh island first_edge far_vertex rest }"

definition find_fill_border_corner :: "MeshData \<Rightarrow> UVIsland \<Rightarrow> UVBorderCorner \<Rightarrow> nat option option" where
  "find_fill_border_corner mesh island corner =
     do { first \<leftarrow> the_border_edge island (corner_first corner);
          second \<leftarrow> the_border_edge island (corner_second corner);
          f1 \<leftarrow> get_uv_vertex island first 1;
          s0 \<leftarrow> get_uv_vertex island second 0;
          if f1 \<noteq> s0 then Some None
          else
            do { f0 \<leftarrow> get_uv_vertex island first 0;
                 s1 \<leftarrow> get_uv_vertex island second 1;
                 if f0 = s1 then Some None
                 else
                   do { shared_vert \<leftarrow> the_vertex island s0;
                        v \<leftarrow> nth_opt (md_vertices mesh) (uvv_vertex shared_vert);
                        first_edge \<leftarrow> the_edge island (be_edge first);
                        far_vertex \<leftarrow> vertex_mesh island s1;
                        corner_fill_among_edges mesh island first_edge far_vertex (mv_edges v) } } }"

text \<open>Modelled from the spec: \<^verbatim>\<open>UVPrimitive::append_to_uv_edges\<close> and
  \<^verbatim>\<open>UVPrimitive::append_to_uv_vertices\<close> (missing header) register the primitive with its
  edges and its edges with their end points; \<^verbatim>\<open>UVPrimitive::get_uv_edge\<close> is the first edge
  of the primitive between two UV coordinates, or between two mesh vertices, and is asserted
  to exist.\<close>

definition append_to_uv_edges :: "prim_ref \<Rightarrow> nat list \<Rightarrow> UVIsland \<Rightarrow> UVIsland option" where
  "append_to_uv_edges ref edges island =
     fold (\<lambda>edge acc. do { i \<leftarrow> acc; edge_append_primitive edge ref True i }) edges (Some island)"

definition append_to_uv_vertices :: "nat list \<Rightarrow> UVIsland \<Rightarrow> UVIsland option" where
  "append_to_uv_vertices edges island =
     fold (\<lambda>edge acc. do { i \<leftarrow> acc; edge_append_to_uv_vertices edge i }) edges (Some island)"

fun get_uv_edge_by_uv :: "UVIsland \<Rightarrow> float2 \<Rightarrow> float2 \<Rightarrow> nat list \<Rightarrow> nat option" where
  "get_uv_edge_by_uv island uv1 uv2 [] = None"
| "get_uv_edge_by_uv island uv1 uv2 (uv_edge # rest) =
     do { e \<leftarrow> the_edge island uv_edge;
          e1 \<leftarrow> vertex_uv island (fst (uve_vertices e));
          e2 \<leftarrow> vertex_uv island (snd (uve_vertices e));
          if (e1 = uv1 \<and> e2 = uv2) \<or> (e1 = uv2 \<and> e2 = uv1) then Some uv_edge
          else get_uv_edge_by_uv island uv1 uv2 rest }"

fun get_uv_edge_by_mesh :: "UVIsland \<Rightarrow> nat \<Rightarrow> nat \<Rightarrow> nat list \<Rightarrow> nat option" where
  "get_uv_edge_by_mesh island v1 v2 [] = None"
| "get_uv_edge_by_mesh island v1 v2 (uv_edge # rest) =
     do { e \<leftarrow> the_edge island uv_edge;
          e1 \<leftarrow> vertex_mesh island (fst (uve_vertices e));
          e2 \<leftarrow> vertex_mesh island (snd (uve_vertices e));
          if (e1 = v1 \<and> e2 = v2) \<or> (e1 = v2 \<and> e2 = v1) then Some uv_edge
          else get_uv_edge_by_mesh island v1 v2 rest }"

text \<open>The common end of \<^verbatim>\<open>add_uv_primitive_fill\<close> and \<^verbatim>\<open>add_uv_primitive_shared_uv_edge\<close>: the
  three edges are looked up or created, the local primitive is registered with them and
  then copied to the end of the store.\<close>

definition add_uv_primitive_of ::
  "UVIsland \<Rightarrow> nat \<Rightarrow> nat \<Rightarrow> nat \<Rightarrow> nat \<Rightarrow> UVIsland option" where
  "add_uv_primitive_of island vertex1 vertex2 vertex3 mesh_primitive =
     (let (edge1, island1) = lookup_or_create_edge island (vertex1, vertex2);
          (edge2, island2) = lookup_or_create_edge island1 (vertex2, vertex3);
          (edge3, island3) = lookup_or_create_edge island2 (vertex3, vertex1);
          uv_primitive = \<lparr>uvp_primitive = mesh_primitive, uvp_edges = [edge1, edge2, edge3]\<rparr>
      in do { island4 \<leftarrow> append_to_uv_edges On_stack (uvp_edges uv_primitive) island3;
              island5 \<leftarrow> append_to_uv_vertices (uvp_edges uv_primitive) island4;
              Some (island5\<lparr>uv_primitives := uv_primitives island5 @ [uv_primitive]\<rparr>) })"

text \<open>\<^verbatim>\<open>add_uv_primitive_fill\<close>: the three UV vertices are given.\<close>

definition add_uv_primitive_fill ::
  "UVIsland \<Rightarrow> nat \<Rightarrow> nat \<Rightarrow> nat \<Rightarrow> nat \<Rightarrow> UVIsland option" where
  "add_uv_primitive_fill island uv_vertex1 uv_vertex2 uv_vertex3 fill_primitive =
     add_uv_primitive_of island uv_vertex1 uv_vertex2 uv_vertex3 fill_primitive"

text \<open>\<^verbatim>\<open>add_uv_primitive_shared_uv_edge\<close>: the third vertex is at \<open>uv_unconnected\<close>, on the mesh
  vertex of the triangle that is on neither connected vertex.\<close>

definition add_uv_primitive_shared_uv_edge ::
  "MeshData \<Rightarrow> UVIsland \<Rightarrow> nat \<Rightarrow> nat \<Rightarrow> float2 \<Rightarrow> nat \<Rightarrow> UVIsland option" where
  "add_uv_primitive_shared_uv_edge mesh island connected_vert_1 connected_vert_2 uv_unconnected
       mesh_primitive =
     do { p \<leftarrow> nth_opt (md_primitives mesh) mesh_primitive;
          c1 \<leftarrow> the_vertex island connected_vert_1;
          c2 \<leftarrow> the_vertex island connected_vert_2;
          other_vert \<leftarrow> mesh_get_other_uv_vertex p (uvv_vertex c1) (uvv_vertex c2);
          let (vert_ptr, island1) =
                lookup_or_create_vertex island (UVVertex_template (muv_vertex other_vert) uv_unconnected);
          mesh_vert_1 \<leftarrow> get_uv_vert p (uvv_vertex c1);
          let (vert_1_ptr, island2) =
                lookup_or_create_vertex island1 (UVVertex_template (muv_vertex mesh_vert_1) (uvv_uv c1));
          mesh_vert_2 \<leftarrow> get_uv_vert p (uvv_vertex c2);
          let (vert_2_ptr, island3) =
                lookup_or_create_vertex island2 (UVVertex_template (muv_vertex mesh_vert_2) (uvv_uv c2));
          add_uv_primitive_of island3 vert_1_ptr vert_2_ptr vert_ptr mesh_primitive }"

subsection \<open>The island mask\<close>

record Tile =
  udim_offset :: float2
  tile_resolution :: "16 word \<times> 16 word"
  mask_resolution :: "nat \<times> nat"
  mask :: "16 word list"

record UVIslandsMask =
  tiles :: "Tile list"

text \<open>\<^verbatim>\<open>mask_resolution_from_tile_resolution\<close>: a quarter of the tile resolution, at least 256.\<close>

definition mask_resolution_from_tile_resolution :: "16 word \<times> 16 word \<Rightarrow> nat \<times> nat" where
  "mask_resolution_from_tile_resolution r =
     (max (unat (fst r) div 4) 256, max (unat (snd r) div 4) 256)"

text \<open>The constructor \<^verbatim>\<open>Tile::Tile\<close>: every cell starts unclaimed (\<^verbatim>\<open>0xffff\<close>).\<close>

definition Tile_init :: "float2 \<Rightarrow> 16 word \<times> 16 word \<Rightarrow> Tile" where
  "Tile_init offset resolution =
     (let mr = mask_resolution_from_tile_resolution resolution in
      \<lparr>udim_offset = offset, tile_resolution = resolution, mask_resolution = mr,
       mask = replicate (fst mr * snd mr) 0xffff\<rparr>)"

definition add_tile :: "UVIslandsMask \<Rightarrow> float2 \<Rightarrow> 16 word \<times> 16 word \<Rightarrow> UVIslandsMask" where
  "add_tile m offset resolution = m\<lparr>tiles := tiles m @ [Tile_init offset resolution]\<rparr>"

text \<open>
  The body of the two nested loops of \<^verbatim>\<open>dilate_x\<close>, for the cell \<open>(x, y)\<close>: the state is the
  mask being written and the \<^verbatim>\<open>changed\<close> flag; \<open>prev\<close> is the copy \<^verbatim>\<open>prev_mask\<close> taken before
  the loops. The offsets stay below \<open>2^31\<close> for every resolution the constructor produces
  (at most \<open>16383 \<times> 16383\<close>), so the \<^verbatim>\<open>int\<close> arithmetic of the source is exact on \<open>nat\<close>.
\<close>

definition dilate_x_cell ::
  "nat \<Rightarrow> 16 word list \<Rightarrow> nat \<Rightarrow> nat \<Rightarrow> 16 word list \<times> bool \<Rightarrow> 16 word list \<times> bool" where
  "dilate_x_cell w prev y x st =
     (let offset = y * w + x in
      if prev ! offset \<noteq> 0xffff then st
      else if x \<noteq> 0 \<and> prev ! (offset - 1) \<noteq> 0xffff
        then ((fst st)[offset := prev ! (offset - 1)], True)
      else if x < w - 1 \<and> prev ! (offset + 1) \<noteq> 0xffff
        then ((fst st)[offset := prev ! (offset + 1)], True)
      else st)"

definition dilate_x :: "Tile \<Rightarrow> Tile \<times> bool" where
  "dilate_x t =
     (let prev = mask t; w = fst (mask_resolution t); h = snd (mask_resolution t);
          r = fold (\<lambda>y. fold (dilate_x_cell w prev y) [0..<w]) [0..<h] (mask t, False)
      in (t\<lparr>mask := fst r\<rparr>, snd r))"

definition dilate_y_cell ::
  "nat \<Rightarrow> nat \<Rightarrow> 16 word list \<Rightarrow> nat \<Rightarrow> nat \<Rightarrow> 16 word list \<times> bool \<Rightarrow> 16 word list \<times> bool" where
  "dilate_y_cell w h prev y x st =
     (let offset = y * w + x in
      if prev ! offset \<noteq> 0xffff then st
      else if y \<noteq> 0 \<and> prev ! (offset - w) \<noteq> 0xffff
        then ((fst st)[offset := prev ! (offset - w)], True)
      else if y < h - 1 \<and> prev ! (offset + w) \<noteq> 0xffff
        then ((fst st)[offset := prev ! (offset + w)], True)
      else st)"

definition dilate_y :: "Tile \<Rightarrow> Tile \<times> bool" where
  "dilate_y t =
     (let prev = mask t; w = fst (mask_resolution t); h = snd (mask_resolution t);
          r = fold (\<lambda>y. fold (dilate_y_cell w h prev y) [0..<w]) [0..<h] (mask t, False)
      in (t\<lparr>mask := fst r\<rparr>, snd r))"

text \<open>\<^verbatim>\<open>dilate_tile\<close>: the loop \<^verbatim>\<open>while (index < max_iterations)\<close>, leaving early when a round
  changes nothing.\<close>

function dilate_tile_loop :: "Tile \<Rightarrow> int \<Rightarrow> int \<Rightarrow> Tile" where
  "dilate_tile_loop t index max_iterations =
     (if index < max_iterations then
        (let rx = dilate_x t; ry = dilate_y (fst rx); changed = (snd rx \<or> snd ry) in
         if \<not> changed then fst ry else dilate_tile_loop (fst ry) (index + 1) max_iterations)
      else t)"
  by pat_completeness auto
termination
  by (relation "measure (\<lambda>(t, index, max_iterations). nat (max_iterations - index))") auto

definition dilate_tile :: "Tile \<Rightarrow> int \<Rightarrow> Tile" where
  "dilate_tile t max_iterations = dilate_tile_loop t 0 max_iterations"

definition dilate :: "UVIslandsMask \<Rightarrow> int \<Rightarrow> UVIslandsMask" where
  "dilate m max_iterations = m\<lparr>tiles := map (\<lambda>t. dilate_tile t max_iterations) (tiles m)\<rparr>"

text \<open>A tile in which the cell \<open>(x, y)\<close> is claimed by \<open>K\<close> and every other cell is unclaimed.\<close>

definition single_claim :: "Tile \<Rightarrow> nat \<Rightarrow> nat \<Rightarrow> 16 word \<Rightarrow> bool" where
  "single_claim t x y K \<longleftrightarrow>
     (let w = fst (mask_resolution t); h = snd (mask_resolution t) in
      length (mask t) = w * h \<and> x < w \<and> y < h \<and> K \<noteq> 0xffff \<and>
      mask t = (replicate (w * h) 0xffff)[y * w + x := K])"

definition nx :: "nat \<Rightarrow> 16 word list \<Rightarrow> nat \<Rightarrow> nat \<Rightarrow> 16 word \<Rightarrow> 16 word" where
  "nx w prev off x cur =
     (if prev ! off \<noteq> 0xffff then cur
      else if x \<noteq> 0 \<and> prev ! (off - 1) \<noteq> 0xffff then prev ! (off - 1)
      else if x < w - 1 \<and> prev ! (off + 1) \<noteq> 0xffff then prev ! (off + 1)
      else cur)"

definition ny :: "nat \<Rightarrow> nat \<Rightarrow> 16 word list \<Rightarrow> nat \<Rightarrow> nat \<Rightarrow> 16 word \<Rightarrow> 16 word" where
  "ny w h prev off y cur =
     (if prev ! off \<noteq> 0xffff then cur
      else if y \<noteq> 0 \<and> prev ! (off - w) \<noteq> 0xffff then prev ! (off - w)
      else if y < h - 1 \<and> prev ! (off + w) \<noteq> 0xffff then prev ! (off + w)
      else cur)"


text \<open>
  Modelled from the spec: the macro \<^verbatim>\<open>IN_RANGE\<close> (not in the source tree) is the open interval
  between its two bounds, in either order.
\<close>

definition IN_RANGE :: "real \<Rightarrow> real \<Rightarrow> real \<Rightarrow> bool" where
  "IN_RANGE a b c = (if b < c then b < a \<and> a < c else c < a \<and> a < b)"

text \<open>\<^verbatim>\<open>UVIslandsMask::Tile::contains\<close>.\<close>

definition contains :: "float_ops \<Rightarrow> Tile \<Rightarrow> float2 \<Rightarrow> bool" where
  "contains F tile uv =
     (let tile_uv = f_sub_v2 F uv (udim_offset tile) in
      IN_RANGE (fst tile_uv) 0 1 \<and> IN_RANGE (snd tile_uv) 0 1)"

text \<open>\<^verbatim>\<open>UVIslandsMask::find_tile\<close>: the first tile that contains the coordinate, or null.\<close>

definition find_tile :: "float_ops \<Rightarrow> UVIslandsMask \<Rightarrow> float2 \<Rightarrow> Tile option" where
  "find_tile F m uv = find (\<lambda>tile. contains F tile uv) (tiles m)"

text \<open>\<^verbatim>\<open>UVIslandsMask::Tile::get_pixel_size_in_uv_space\<close>. Nothing traps when a component of the
  resolution is zero: the quotient is what the division of floats gives.\<close>

definition get_pixel_size_in_uv_space :: "float_ops \<Rightarrow> Tile \<Rightarrow> real" where
  "get_pixel_size_in_uv_space F tile =
     min (f_div F 1 (real (unat (fst (tile_resolution tile)))))
         (f_div F 1 (real (unat (snd (tile_resolution tile)))))"

text \<open>The conversion of a \<^verbatim>\<open>float\<close> to \<^verbatim>\<open>unsigned short\<close>: the fraction is dropped; the
  behaviour is undefined when the result is not in the range of the type.\<close>

definition to_ushort :: "real \<Rightarrow> nat option" where
  "to_ushort x = (if - 1 < x \<and> x < 65536 then Some (nat \<lfloor>x\<rfloor>) else None)"

text \<open>\<^verbatim>\<open>UVIslandsMask::Tile::is_masked\<close>: the cell under the coordinate is claimed by the island.\<close>

definition is_masked :: "float_ops \<Rightarrow> Tile \<Rightarrow> 16 word \<Rightarrow> float2 \<Rightarrow> bool option" where
  "is_masked F tile island_index uv =
     (let local_uv = f_sub_v2 F uv (udim_offset tile) in
      if fst local_uv < 0 \<or> snd local_uv < 0 \<or> fst local_uv \<ge> 1 \<or> snd local_uv \<ge> 1 then Some False
      else
        do { pixel_pos_x \<leftarrow> to_ushort (f_mul F (fst local_uv) (real (fst (mask_resolution tile))));
             pixel_pos_y \<leftarrow> to_ushort (f_mul F (snd local_uv) (real (snd (mask_resolution tile))));
             let offset = pixel_pos_y * fst (mask_resolution tile) + pixel_pos_x;
             map_option (\<lambda>cell. cell = island_index) (nth_opt (mask tile) offset) })"
subsection \<open>Extending a border at a corner\<close>

text \<open>Writing through a pointer to a border edge, and through a pointer to a border.\<close>

definition set_border_edge :: "UVIsland \<Rightarrow> border_edge_ptr \<Rightarrow> UVBorderEdge \<Rightarrow> UVIsland option" where
  "set_border_edge island p edge =
     do { border \<leftarrow> nth_opt (borders island) (fst p);
          if snd p < length (border_edges border)
          then Some (island\<lparr>borders := (borders island)
                       [fst p := border\<lparr>border_edges := (border_edges border)[snd p := edge]\<rparr>]\<rparr>)
          else None }"

definition set_border :: "UVIsland \<Rightarrow> nat \<Rightarrow> UVBorder \<Rightarrow> UVIsland" where
  "set_border island b border = island\<lparr>borders := (borders island)[b := border]\<rparr>"

text \<open>Modelled from the spec: \<^verbatim>\<open>UVBorder::remove\<close> (missing header) removes the edge at an
  index and renumbers the border; \<^verbatim>\<open>Vector::insert\<close> inserts a span at an index.\<close>

definition border_remove :: "UVBorder \<Rightarrow> int \<Rightarrow> UVBorder option" where
  "border_remove border index =
     do { e0 \<leftarrow> nth_opt (border_edges border) 0;
          if 0 \<le> index \<and> index < int (length (border_edges border))
          then Some (update_indexes (be_border_index e0)
                       (border\<lparr>border_edges := take (nat index) (border_edges border) @
                                                 drop (Suc (nat index)) (border_edges border)\<rparr>))
          else None }"

definition border_insert_edges :: "UVBorder \<Rightarrow> int \<Rightarrow> UVBorderEdge list \<Rightarrow> UVBorder option" where
  "border_insert_edges border index new_edges =
     (if 0 \<le> index \<and> index \<le> int (length (border_edges border))
      then Some (border\<lparr>border_edges := take (nat index) (border_edges border) @ new_edges @
                                          drop (nat index) (border_edges border)\<rparr>)
      else None)"

text \<open>
  Reading \<^verbatim>\<open>corner.second->index\<close> after \<^verbatim>\<open>border.remove\<close>: the pointer still addresses the
  same slot of the vector. When the slot is now past the end of the vector, its memory
  still holds the element that was there before the removal.
\<close>

definition slot_index_after :: "UVIsland \<Rightarrow> UVIsland \<Rightarrow> border_edge_ptr \<Rightarrow> int option" where
  "slot_index_after before after p =
     do { border \<leftarrow> nth_opt (borders after) (fst p);
          if snd p < length (border_edges border) then Some (be_index (border_edges border ! snd p))
          else map_option be_index (the_border_edge before p) }"

text \<open>The branch \<^verbatim>\<open>num_to_add == 0\<close> of \<^verbatim>\<open>extend_at_vert\<close>.\<close>

definition extend_zero :: "float_ops \<Rightarrow> MeshData \<Rightarrow> UVIsland \<Rightarrow> UVBorderCorner \<Rightarrow> real \<Rightarrow> UVIsland option" where
  "extend_zero F mesh island corner min_uv_distance =
     do { first \<leftarrow> the_border_edge island (corner_first corner);
          second \<leftarrow> the_border_edge island (corner_second corner);
          second_prim \<leftarrow> the_primitive island (be_uv_primitive second);
          first_prim \<leftarrow> the_primitive island (be_uv_primitive first);
          fill_primitive \<leftarrow> find_fill_border_corner mesh island corner;
          let fill_primitive_1 = (case fill_primitive of Some f \<Rightarrow> f | None \<Rightarrow> uvp_primitive second_prim);
          let fill_primitive_2 = (case fill_primitive of Some f \<Rightarrow> f | None \<Rightarrow> uvp_primitive first_prim);
          center_uv \<leftarrow> corner_uv F island corner (1 / 2) min_uv_distance;
          f1 \<leftarrow> get_uv_vertex island first 1;
          f0 \<leftarrow> get_uv_vertex island first 0;
          island1 \<leftarrow> add_uv_primitive_shared_uv_edge mesh island f1 f0 center_uv fill_primitive_1;
          let new_prim_1 = length (uv_primitives island1) - 1;
          s0 \<leftarrow> get_uv_vertex island1 second 0;
          s1 \<leftarrow> get_uv_vertex island1 second 1;
          island2 \<leftarrow> add_uv_primitive_shared_uv_edge mesh island1 s0 s1 center_uv fill_primitive_2;
          let new_prim_2 = length (uv_primitives island2) - 1;
          first_uv \<leftarrow> border_edge_uv island2 first 0;
          prim1 \<leftarrow> the_primitive island2 new_prim_1;
          edge1 \<leftarrow> get_uv_edge_by_uv island2 first_uv center_uv (uvp_edges prim1);
          e1 \<leftarrow> the_edge island2 edge1;
          uv_e1 \<leftarrow> vertex_uv island2 (fst (uve_vertices e1));
          island3 \<leftarrow> set_border_edge island2 (corner_first corner)
                       (first\<lparr>be_uv_primitive := new_prim_1, be_edge := edge1,
                               be_reverse_order := (uv_e1 = center_uv)\<rparr>);
          second' \<leftarrow> the_border_edge island3 (corner_second corner);
          second_uv \<leftarrow> border_edge_uv island3 second' 1;
          prim2 \<leftarrow> the_primitive island3 new_prim_2;
          edge2 \<leftarrow> get_uv_edge_by_uv island3 second_uv center_uv (uvp_edges prim2);
          e2 \<leftarrow> the_edge island3 edge2;
          uv_e2 \<leftarrow> vertex_uv island3 (snd (uve_vertices e2));
          set_border_edge island3 (corner_second corner)
            (second'\<lparr>be_uv_primitive := new_prim_2, be_edge := edge2,
                      be_reverse_order := (uv_e2 = center_uv)\<rparr>) }"

text \<open>
  The branch \<^verbatim>\<open>num_to_add > 0\<close>. The state of the loop over \<open>i\<close> is the island, the fan (its
  \<^verbatim>\<open>found\<close> flags), \<^verbatim>\<open>current_edge\<close> and \<^verbatim>\<open>new_border_edges\<close>. \<open>add_fill_triangle\<close> is the code
  shared by the body of the inner loop and the final segment: the three vertices are looked
  up or created, the triangle is added, and the result is the island, the new
  \<^verbatim>\<open>current_edge\<close> and the new border edge.
\<close>

definition add_fill_triangle ::
  "MeshData \<Rightarrow> UVIsland \<Rightarrow> UVVertex \<Rightarrow> nat \<Rightarrow> float2 \<Rightarrow> float2 \<Rightarrow> nat \<Rightarrow>
   (UVIsland \<times> nat \<times> UVBorderEdge) option" where
  "add_fill_triangle mesh island uv_vertex shared_edge_vertex old_uv new_uv fill_primitive =
     do { p \<leftarrow> nth_opt (md_primitives mesh) fill_primitive;
          other \<leftarrow> mesh_get_other_uv_vertex p (uvv_vertex uv_vertex) shared_edge_vertex;
          let other_prim_vertex = muv_vertex other;
          let (vertex_1_ptr, island1) =
                lookup_or_create_vertex island (UVVertex_template (uvv_vertex uv_vertex) (uvv_uv uv_vertex));
          let (vertex_2_ptr, island2) =
                lookup_or_create_vertex island1 (UVVertex_template shared_edge_vertex old_uv);
          let (vertex_3_ptr, island3) =
                lookup_or_create_vertex island2 (UVVertex_template other_prim_vertex new_uv);
          island4 \<leftarrow> add_uv_primitive_fill island3 vertex_1_ptr vertex_2_ptr vertex_3_ptr fill_primitive;
          let new_prim = length (uv_primitives island4) - 1;
          prim \<leftarrow> the_primitive island4 new_prim;
          current_edge \<leftarrow> get_uv_edge_by_mesh island4 (uvv_vertex uv_vertex) other_prim_vertex (uvp_edges prim);
          border_edge \<leftarrow> get_uv_edge_by_mesh island4 shared_edge_vertex other_prim_vertex (uvp_edges prim);
          Some (island4, current_edge, UVBorderEdge_init border_edge new_prim) }"

text \<open>The inner loop over the fan segments: the first segment that is not found and for
  which \<^verbatim>\<open>find_fill_border\<close> gives a triangle, with its position and the triangle.\<close>

fun find_segment ::
  "MeshData \<Rightarrow> nat \<Rightarrow> nat \<Rightarrow> InnerEdge list \<Rightarrow> nat \<Rightarrow> (nat \<times> nat) option option" where
  "find_segment mesh vertex shared_edge_vertex [] k = Some None"
| "find_segment mesh vertex shared_edge_vertex (segment # rest) k =
     (if ie_found segment then find_segment mesh vertex shared_edge_vertex rest (Suc k)
      else
        do { far \<leftarrow> inner_edge_vertex mesh segment 1;
             fill_primitive \<leftarrow> find_fill_border mesh vertex shared_edge_vertex far;
             case fill_primitive of
               None \<Rightarrow> find_segment mesh vertex shared_edge_vertex rest (Suc k)
             | Some f \<Rightarrow> Some (Some (k, f)) })"

record fill_state =
  fs_island :: UVIsland
  fs_fan :: Fan
  fs_current_edge :: nat
  fs_new_border_edges :: "UVBorderEdge list"

definition fill_step ::
  "float_ops \<Rightarrow> MeshData \<Rightarrow> UVBorderCorner \<Rightarrow> real \<Rightarrow> nat \<Rightarrow> nat \<Rightarrow> nat \<Rightarrow> fill_state \<Rightarrow> fill_state option" where
  "fill_step F mesh corner min_uv_distance uv_vertex_ptr num_to_add i st =
     do { uv_vertex \<leftarrow> the_vertex (fs_island st) uv_vertex_ptr;
          other \<leftarrow> edge_get_other_uv_vertex (fs_island st) (fs_current_edge st) (uvv_vertex uv_vertex);
          other_vertex \<leftarrow> the_vertex (fs_island st) other;
          let old_uv = uvv_uv other_vertex;
          let shared_edge_vertex = uvv_vertex other_vertex;
          let factor = f_div F (real (i + 1)) (real (num_to_add + 1));
          new_uv \<leftarrow> corner_uv F (fs_island st) corner factor min_uv_distance;
          r \<leftarrow> find_segment mesh (uvv_vertex uv_vertex) shared_edge_vertex (inner_edges (fs_fan st)) 0;
          case r of
            None \<Rightarrow> Some st
          | Some (k, fill_primitive) \<Rightarrow>
              do { (island1, current_edge, new_border) \<leftarrow>
                     add_fill_triangle mesh (fs_island st) uv_vertex shared_edge_vertex old_uv new_uv
                       fill_primitive;
                   Some \<lparr>fs_island = island1,
                         fs_fan = (fs_fan st)\<lparr>inner_edges :=
                            (inner_edges (fs_fan st))[k := (inner_edges (fs_fan st) ! k)\<lparr>ie_found := True\<rparr>]\<rparr>,
                         fs_current_edge = current_edge,
                         fs_new_border_edges = fs_new_border_edges st @ [new_border]\<rparr> } }"

definition fill_loop ::
  "float_ops \<Rightarrow> MeshData \<Rightarrow> UVBorderCorner \<Rightarrow> real \<Rightarrow> nat \<Rightarrow> nat \<Rightarrow> fill_state \<Rightarrow> fill_state option" where
  "fill_loop F mesh corner min_uv_distance uv_vertex_ptr num_to_add st =
     fold (\<lambda>i acc. do { s \<leftarrow> acc; fill_step F mesh corner min_uv_distance uv_vertex_ptr num_to_add i s })
          [0..<num_to_add] (Some st)"

text \<open>The final segment, towards the far vertex of the second edge of the corner.\<close>

definition fill_final :: "MeshData \<Rightarrow> UVBorderCorner \<Rightarrow> nat \<Rightarrow> fill_state \<Rightarrow> fill_state option" where
  "fill_final mesh corner uv_vertex_ptr st =
     do { uv_vertex \<leftarrow> the_vertex (fs_island st) uv_vertex_ptr;
          other \<leftarrow> edge_get_other_uv_vertex (fs_island st) (fs_current_edge st) (uvv_vertex uv_vertex);
          other_vertex \<leftarrow> the_vertex (fs_island st) other;
          let old_uv = uvv_uv other_vertex;
          let shared_edge_vertex = uvv_vertex other_vertex;
          second \<leftarrow> the_border_edge (fs_island st) (corner_second corner);
          s1 \<leftarrow> get_uv_vertex (fs_island st) second 1;
          far \<leftarrow> the_vertex (fs_island st) s1;
          r \<leftarrow> find_fill_border mesh (uvv_vertex uv_vertex) shared_edge_vertex (uvv_vertex far);
          fill_primitive \<leftarrow> r;
          (island1, current_edge, new_border) \<leftarrow>
            add_fill_triangle mesh (fs_island st) uv_vertex shared_edge_vertex old_uv (uvv_uv far)
              fill_primitive;
          Some (st\<lparr>fs_island := island1, fs_new_border_edges := fs_new_border_edges st @ [new_border]\<rparr>) }"

text \<open>The end of the branch: the two edges of the corner are removed from the border and
  the new border edges are inserted in their place.\<close>

definition splice_border ::
  "UVIsland \<Rightarrow> UVBorderCorner \<Rightarrow> int \<Rightarrow> UVBorderEdge list \<Rightarrow> UVIsland option" where
  "splice_border island corner border_index new_border_edges =
     do { border \<leftarrow> nth_int (borders island) border_index;
          first \<leftarrow> the_border_edge island (corner_first corner);
          let border_insert = be_index first;
          border1 \<leftarrow> border_remove border border_insert;
          let island1 = set_border island (nat border_index) border1;
          border_next \<leftarrow> slot_index_after island island1 (corner_second corner);
          let border_insert1 = (if border_next < border_insert then border_insert - 1 else border_insert);
          let border_next1 = (if border_next < border_insert then border_next else border_next - 1);
          border2 \<leftarrow> border_remove border1 border_next1;
          border3 \<leftarrow> border_insert_edges border2 border_insert1 new_border_edges;
          Some (set_border island1 (nat border_index) (update_indexes border_index border3)) }"

definition extend_many ::
  "float_ops \<Rightarrow> MeshData \<Rightarrow> UVIsland \<Rightarrow> UVBorderCorner \<Rightarrow> real \<Rightarrow> int \<Rightarrow> nat \<Rightarrow> Fan \<Rightarrow> nat \<Rightarrow> UVIsland option" where
  "extend_many F mesh island corner min_uv_distance border_index uv_vertex_ptr fan num_to_add =
     do { first \<leftarrow> the_border_edge island (corner_first corner);
          st1 \<leftarrow> fill_loop F mesh corner min_uv_distance uv_vertex_ptr num_to_add
                   \<lparr>fs_island = island, fs_fan = fan, fs_current_edge = be_edge first,
                    fs_new_border_edges = []\<rparr>;
          st2 \<leftarrow> fill_final mesh corner uv_vertex_ptr st1;
          splice_border (fs_island st2) corner border_index (fs_new_border_edges st2) }"

text \<open>\<^verbatim>\<open>extend_at_vert\<close> once the fan is built.\<close>

definition extend_with_fan ::
  "float_ops \<Rightarrow> MeshData \<Rightarrow> UVIsland \<Rightarrow> UVBorderCorner \<Rightarrow> real \<Rightarrow> int \<Rightarrow> nat \<Rightarrow> Fan \<Rightarrow> UVIsland option" where
  "extend_with_fan F mesh island corner min_uv_distance border_index uv_vertex_ptr fan =
     (if \<not> full fan then Some island
      else
        do { uv_vertex \<leftarrow> the_vertex island uv_vertex_ptr;
             fan1 \<leftarrow> init_uv_coordinates mesh island uv_vertex fan;
             fan2 \<leftarrow> mark_already_added_segments mesh island uv_vertex fan1;
             let num_to_add = count_num_to_add fan2;
             if num_to_add = 0 then extend_zero F mesh island corner min_uv_distance
             else extend_many F mesh island corner min_uv_distance border_index uv_vertex_ptr fan2
                    num_to_add })"

text \<open>The head of \<^verbatim>\<open>extend_at_vert\<close>: the border of the corner and the shared UV vertex.\<close>

definition corner_vertex :: "UVIsland \<Rightarrow> UVBorderCorner \<Rightarrow> nat option" where
  "corner_vertex island corner =
     do { second \<leftarrow> the_border_edge island (corner_second corner); get_uv_vertex island second 0 }"

definition extend_head :: "UVIsland \<Rightarrow> UVBorderCorner \<Rightarrow> (int \<times> nat \<times> nat) option" where
  "extend_head island corner =
     do { first \<leftarrow> the_border_edge island (corner_first corner);
          let border_index = be_border_index first;
          border \<leftarrow> nth_int (borders island) border_index;
          uv_vertex_ptr \<leftarrow> corner_vertex island corner;
          uv_vertex \<leftarrow> the_vertex island uv_vertex_ptr;
          Some (border_index, uv_vertex_ptr, uvv_vertex uv_vertex) }"

definition extend_at_vert ::
  "float_ops \<Rightarrow> MeshData \<Rightarrow> UVIsland \<Rightarrow> UVBorderCorner \<Rightarrow> real \<Rightarrow> UVIsland option option" where
  "extend_at_vert F mesh island corner min_uv_distance =
     (case extend_head island corner of
        None \<Rightarrow> Some None
      | Some (border_index, uv_vertex_ptr, vertex) \<Rightarrow>
          (case Fan_init mesh vertex of
             None \<Rightarrow> None
           | Some None \<Rightarrow> Some None
           | Some (Some fan) \<Rightarrow>
               Some (extend_with_fan F mesh island corner min_uv_distance border_index uv_vertex_ptr fan)))"

subsection \<open>Extending the borders of an island\<close>




definition set_is_extended :: "nat \<Rightarrow> UVIsland \<Rightarrow> UVIsland option" where
  "set_is_extended p island =
     do { v \<leftarrow> the_vertex island p;
          Some (island\<lparr>uv_vertices := (uv_vertices island)[p := v\<lparr>is_extended := True\<rparr>]\<rparr>) }"

text \<open>
  One round of the loop \<^verbatim>\<open>while (true)\<close> of \<^verbatim>\<open>UVIsland::extend_border\<close>, after a corner has
  been selected: the corner is extended when a tile contains the UV coordinate of its vertex
  and masks it for this island, and the vertex is marked as extended in any case.
\<close>

definition extend_corner ::
  "float_ops \<Rightarrow> MeshData \<Rightarrow> UVIslandsMask \<Rightarrow> 16 word \<Rightarrow> UVIsland \<Rightarrow> UVBorderCorner \<Rightarrow> UVIsland option option" where
  "extend_corner F mesh m island_index island extension_corner =
     (case do { uv_vertex_ptr \<leftarrow> corner_vertex island extension_corner;
                uv_vertex \<leftarrow> the_vertex island uv_vertex_ptr;
                case find_tile F m (uvv_uv uv_vertex) of
                  None \<Rightarrow> Some (uv_vertex_ptr, None)
                | Some tile \<Rightarrow>
                    do { masked \<leftarrow> is_masked F tile island_index (uvv_uv uv_vertex);
                         if masked
                         then Some (uv_vertex_ptr, Some (f_mul F (get_pixel_size_in_uv_space F tile) 2))
                         else Some (uv_vertex_ptr, None) } } of
        None \<Rightarrow> Some None
      | Some (uv_vertex_ptr, None) \<Rightarrow> Some (set_is_extended uv_vertex_ptr island)
      | Some (uv_vertex_ptr, Some min_uv_distance) \<Rightarrow>
          (case extend_at_vert F mesh island extension_corner min_uv_distance of
             None \<Rightarrow> None
           | Some None \<Rightarrow> Some None
           | Some (Some island1) \<Rightarrow> Some (set_is_extended uv_vertex_ptr island1)))"


text \<open>\<^verbatim>\<open>UVIsland::extend_border\<close>.\<close>

definition renumber_borders :: "UVIsland \<Rightarrow> UVIsland" where
  "renumber_borders island =
     island\<lparr>borders := map (\<lambda>b. update_indexes (int b) (borders island ! b))
                           [0..<length (borders island)]\<rparr>"


subsection \<open>Properties of borders\<close>

text \<open>The cyclic closure of a border: every edge ends, in UV space, where the next one starts.\<close>

definition border_closed :: "UVIsland \<Rightarrow> UVBorder \<Rightarrow> bool" where
  "border_closed island border \<longleftrightarrow>
     (let es = border_edges border; n = length es in
      0 < n \<and>
      (\<forall>i<n. border_edge_uv island (es ! i) 1 \<noteq> None \<and>
              border_edge_uv island (es ! i) 1 = border_edge_uv island (es ! (Suc i mod n)) 0))"

text \<open>The walk of \<^verbatim>\<open>extract_from_edges\<close> keeps an open chain from \<open>first_uv\<close> to \<open>current_uv\<close>.\<close>

definition chain_inv :: "UVIsland \<Rightarrow> float2 \<Rightarrow> float2 \<Rightarrow> UVBorderEdge list \<Rightarrow> bool" where
  "chain_inv island first_uv current_uv border \<longleftrightarrow>
     border \<noteq> [] \<and>
     border_edge_uv island (hd border) 0 = Some first_uv \<and>
     border_edge_uv island (last border) 1 = Some current_uv \<and>
     (\<forall>i. Suc i < length border \<longrightarrow>
        border_edge_uv island (border ! i) 1 \<noteq> None \<and>
        border_edge_uv island (border ! i) 1 = border_edge_uv island (border ! Suc i) 0)"

text \<open>
  What a call of \<^verbatim>\<open>extract_from_edges\<close> does to the candidates: \<open>edges0\<close> before, \<open>edges\<close> after,
  \<open>border\<close> the edges of the border. A candidate that was tagged, or that is still
  untagged, is as it was; every edge of the border is a candidate that was untagged and is
  now tagged and oriented.
\<close>

definition consumed :: "UVBorderEdge list \<Rightarrow> UVBorderEdge list \<Rightarrow> UVBorderEdge list \<Rightarrow> bool" where
  "consumed edges0 edges border \<longleftrightarrow>
     length edges = length edges0 \<and>
     (\<forall>k<length edges0.
        (be_tag (edges0 ! k) \<longrightarrow> edges ! k = edges0 ! k) \<and>
        (\<not> be_tag (edges ! k) \<longrightarrow> edges ! k = edges0 ! k)) \<and>
     (\<forall>b \<in> set border. \<exists>k<length edges0.
        \<not> be_tag (edges0 ! k) \<and> edges ! k = b\<lparr>be_tag := True\<rparr> \<and>
        (\<exists>r. edges ! k = (edges0 ! k)\<lparr>be_reverse_order := r, be_tag := True\<rparr>))"

text \<open>
  Candidates that are closed borders: the two end points of every candidate have UV
  coordinates, and every UV coordinate is an end point of an even number of untagged
  candidates (a candidate with both end points at the coordinate counts twice).
\<close>

definition edge_ends :: "UVIsland \<Rightarrow> UVBorderEdge \<Rightarrow> (float2 \<times> float2) option" where
  "edge_ends island b =
     do { e \<leftarrow> the_edge island (be_edge b);
          uv0 \<leftarrow> vertex_uv island (fst (uve_vertices e));
          uv1 \<leftarrow> vertex_uv island (snd (uve_vertices e));
          Some (uv0, uv1) }"

definition ends_at :: "UVIsland \<Rightarrow> float2 \<Rightarrow> UVBorderEdge \<Rightarrow> nat" where
  "ends_at island x b =
     (case edge_ends island b of
        None \<Rightarrow> 0
      | Some (uv0, uv1) \<Rightarrow> (if uv0 = x then 1 else 0) + (if uv1 = x then 1 else 0))"

definition untagged_degree :: "UVIsland \<Rightarrow> UVBorderEdge list \<Rightarrow> float2 \<Rightarrow> nat" where
  "untagged_degree island edges x =
     sum_list (map (\<lambda>b. if be_tag b then 0 else ends_at island x b) edges)"

definition end_points :: "UVIsland \<Rightarrow> UVBorderEdge list \<Rightarrow> float2 list" where
  "end_points island edges =
     concat (map (\<lambda>b. case edge_ends island b of None \<Rightarrow> [] | Some (uv0, uv1) \<Rightarrow> [uv0, uv1]) edges)"

definition closed_candidates :: "UVIsland \<Rightarrow> UVBorderEdge list \<Rightarrow> bool" where
  "closed_candidates island edges \<longleftrightarrow>
     list_all (\<lambda>b. edge_ends island b \<noteq> None) edges \<and>
     list_all (\<lambda>x. even (untagged_degree island edges x)) (end_points island edges)"

text \<open>A border as \<^verbatim>\<open>UVIsland::extract_borders\<close> appends it: extracted from the candidates, kept
  when \<^verbatim>\<open>is_ccw\<close> holds and flipped otherwise.\<close>

definition appended_border :: "UVIsland \<Rightarrow> UVBorder \<Rightarrow> bool" where
  "appended_border island b \<longleftrightarrow>
     (\<exists>edges edges' e. extract_from_edges island edges = Some (Some (Some e, edges')) \<and>
        (is_ccw island e = Some True \<and> b = e \<or> is_ccw island e = Some False \<and> flip e = Some b))"

subsection \<open>Properties of the extension pass\<close>

text \<open>The extendability flags of the vertex store, and the number of vertices that may still
  be extended.\<close>

definition flags_of :: "UVIsland \<Rightarrow> (bool \<times> bool) list" where
  "flags_of island = map (\<lambda>v. (is_border v, is_extended v)) (uv_vertices island)"




subsection \<open>Properties of the corner selection\<close>


definition slot_angle :: "float_ops \<Rightarrow> UVIsland \<Rightarrow> border_edge_ptr \<Rightarrow> real option" where
  "slot_angle F island p =
     do { border \<leftarrow> nth_opt (borders island) (fst p);
          edge \<leftarrow> nth_opt (border_edges border) (snd p);
          outside_angle F island border edge }"







subsection \<open>Meshes whose edges have at most two triangles\<close>









subsection \<open>The operations without rounding\<close>

text \<open>
  An instance of the operations on floats for the examples: the operations of the real
  numbers, as the math library describes its helpers. \<^verbatim>\<open>angle_signed_v2v2\<close> is the angle of the
  perpendicular dot product and the dot product, \<^verbatim>\<open>len_v2v2\<close> the Euclidean distance,
  \<^verbatim>\<open>normalize_v2\<close> scales to unit length, \<^verbatim>\<open>float3x3::from_rotation\<close> rotates counter-clockwise.
  The instance is the arithmetic of the source wherever that is exact, as it is on the
  coordinates of the examples (small multiples of \<open>1/4\<close>); it has neither the rounding nor the
  negative zero of the floats, and its angles are not rounded.
\<close>

definition real_atan2 :: "real \<Rightarrow> real \<Rightarrow> real" where
  "real_atan2 y x =
     (if 0 < x then arctan (y / x)
      else if x < 0 \<and> 0 \<le> y then arctan (y / x) + pi
      else if x < 0 then arctan (y / x) - pi
      else if 0 < y then pi / 2
      else if y < 0 then - pi / 2
      else 0)"

definition sub_v2 :: "float2 \<Rightarrow> float2 \<Rightarrow> float2" where
  "sub_v2 a b = (fst a - fst b, snd a - snd b)"

definition dot_v2v2 :: "float2 \<Rightarrow> float2 \<Rightarrow> real" where
  "dot_v2v2 a b = fst a * fst b + snd a * snd b"

definition angle_signed_v2v2 :: "float2 \<Rightarrow> float2 \<Rightarrow> real" where
  "angle_signed_v2v2 v1 v2 =
     (let perp_dot = snd v1 * fst v2 - fst v1 * snd v2 in real_atan2 perp_dot (dot_v2v2 v1 v2))"

definition len_v2v2 :: "float2 \<Rightarrow> float2 \<Rightarrow> real" where
  "len_v2v2 a b = sqrt (dot_v2v2 (sub_v2 a b) (sub_v2 a b))"

definition normalize_v2 :: "float2 \<Rightarrow> float2" where
  "normalize_v2 v =
     (let d = dot_v2v2 v v in
      if d > 1 / 10 ^ 35 then (fst v * (1 / sqrt d), snd v * (1 / sqrt d)) else (0, 0))"

definition rotate_v2 :: "real \<Rightarrow> float2 \<Rightarrow> float2" where
  "rotate_v2 rotation v =
     (cos rotation * fst v - sin rotation * snd v, sin rotation * fst v + cos rotation * snd v)"

definition real_ops :: float_ops where
  "real_ops =
     \<lparr>f_sub_v2 = sub_v2, f_mul = (\<lambda>a b. a * b), f_div = (\<lambda>a b. if b = 0 then 2 ^ 128 else a / b),
      f_angle_signed = angle_signed_v2v2, f_pi_minus = (\<lambda>x. pi - x), f_length = len_v2v2,
      f_mix = (\<lambda>a b t. a * t + b * (1 - t)), f_normalize = normalize_v2, f_rotate = rotate_v2,
      f_madd_v2 = (\<lambda>v s w. (fst v * s + fst w, snd v * s + snd w))\<rparr>"

subsection \<open>Example data\<close>

text \<open>A single triangle with UV coordinates \<open>(0,0)\<close>, \<open>(1,0)\<close>, \<open>(0,1)\<close>, as \<^verbatim>\<open>add_primitive\<close>
  stores it, and the candidates \<^verbatim>\<open>extract_borders\<close> collects for it.\<close>

definition tri_island :: UVIsland where
  "tri_island =
     \<lparr>uv_vertices =
        [\<lparr>uvv_vertex = 0, uvv_uv = (0, 0), uvv_uv_edges = [0, 2], is_border = False, is_extended = False\<rparr>,
         \<lparr>uvv_vertex = 1, uvv_uv = (1, 0), uvv_uv_edges = [0, 1], is_border = False, is_extended = False\<rparr>,
         \<lparr>uvv_vertex = 2, uvv_uv = (0, 1), uvv_uv_edges = [1, 2], is_border = False, is_extended = False\<rparr>],
      uv_edges =
        [\<lparr>uve_vertices = (0, 1), uve_uv_primitives = [In_store 0]\<rparr>,
         \<lparr>uve_vertices = (1, 2), uve_uv_primitives = [In_store 0]\<rparr>,
         \<lparr>uve_vertices = (2, 0), uve_uv_primitives = [In_store 0]\<rparr>],
      uv_primitives = [\<lparr>uvp_primitive = 0, uvp_edges = [0, 1, 2]\<rparr>],
      borders = []\<rparr>"

definition tri_candidates :: "UVBorderEdge list" where
  "tri_candidates = [UVBorderEdge_init 0 0, UVBorderEdge_init 1 0, UVBorderEdge_init 2 0]"

text \<open>One edge from \<open>(0,0)\<close> to \<open>(1,0)\<close> that no other candidate continues.\<close>

definition open_island :: UVIsland where
  "open_island =
     \<lparr>uv_vertices =
        [\<lparr>uvv_vertex = 0, uvv_uv = (0, 0), uvv_uv_edges = [0], is_border = False, is_extended = False\<rparr>,
         \<lparr>uvv_vertex = 1, uvv_uv = (1, 0), uvv_uv_edges = [0], is_border = False, is_extended = False\<rparr>],
      uv_edges = [\<lparr>uve_vertices = (0, 1), uve_uv_primitives = [In_store 0]\<rparr>],
      uv_primitives = [\<lparr>uvp_primitive = 0, uvp_edges = [0]\<rparr>],
      borders = []\<rparr>"

definition tri_border :: UVBorder where
  "tri_border = \<lparr>border_edges =
     [UVBorderEdge_init 0 0, (UVBorderEdge_init 1 0)\<lparr>be_tag := True\<rparr>,
      (UVBorderEdge_init 2 0)\<lparr>be_tag := True\<rparr>]\<rparr>"

definition tri_tagged :: "UVBorderEdge list" where
  "tri_tagged = map (\<lambda>e. e\<lparr>be_tag := True\<rparr>) tri_candidates"

text \<open>A mask of one tile of three by three cells whose centre is claimed by island 0.\<close>

definition centre_tile :: Tile where
  "centre_tile =
     \<lparr>udim_offset = (0, 0), tile_resolution = (12, 12), mask_resolution = (3, 3),
      mask = [0xffff, 0xffff, 0xffff, 0xffff, 0, 0xffff, 0xffff, 0xffff, 0xffff]\<rparr>"

definition centre_mask :: UVIslandsMask where
  "centre_mask = \<lparr>tiles = [centre_tile]\<rparr>"

text \<open>The triangle island with its border extracted, the flags reset and the border
  renumbered, as at the head of the loop of \<^verbatim>\<open>extend_border\<close>.\<close>

definition tri_ready :: UVIsland where
  "tri_ready =
     \<lparr>uv_vertices =
        [\<lparr>uvv_vertex = 0, uvv_uv = (0, 0), uvv_uv_edges = [0, 2], is_border = True, is_extended = False\<rparr>,
         \<lparr>uvv_vertex = 1, uvv_uv = (1, 0), uvv_uv_edges = [0, 1], is_border = True, is_extended = False\<rparr>,
         \<lparr>uvv_vertex = 2, uvv_uv = (0, 1), uvv_uv_edges = [1, 2], is_border = True, is_extended = False\<rparr>],
      uv_edges =
        [\<lparr>uve_vertices = (0, 1), uve_uv_primitives = [In_store 0]\<rparr>,
         \<lparr>uve_vertices = (1, 2), uve_uv_primitives = [In_store 0]\<rparr>,
         \<lparr>uve_vertices = (2, 0), uve_uv_primitives = [In_store 0]\<rparr>],
      uv_primitives = [\<lparr>uvp_primitive = 0, uvp_edges = [0, 1, 2]\<rparr>],
      borders =
        [\<lparr>border_edges =
           [\<lparr>be_edge = 0, be_tag = False, be_uv_primitive = 0, be_reverse_order = False,
             be_index = 0, be_prev_index = 2, be_next_index = 1, be_border_index = 0\<rparr>,
            \<lparr>be_edge = 1, be_tag = True, be_uv_primitive = 0, be_reverse_order = False,
             be_index = 1, be_prev_index = 0, be_next_index = 2, be_border_index = 0\<rparr>,
            \<lparr>be_edge = 2, be_tag = True, be_uv_primitive = 0, be_reverse_order = False,
             be_index = 2, be_prev_index = 1, be_next_index = 0, be_border_index = 0\<rparr>]\<rparr>]\<rparr>"

text \<open>The mesh of the single triangle, and a mask of one tile at the origin in which every
  cell is claimed by island 0.\<close>

definition tri_mesh :: MeshData where
  "tri_mesh =
     \<lparr>md_vertices =
        [\<lparr>mv_v = 0, mv_edges = [0, 2]\<rparr>, \<lparr>mv_v = 1, mv_edges = [0, 1]\<rparr>, \<lparr>mv_v = 2, mv_edges = [1, 2]\<rparr>],
      md_edges =
        [\<lparr>me_vert1 = 0, me_vert2 = 1, me_primitives = [0]\<rparr>,
         \<lparr>me_vert1 = 1, me_vert2 = 2, me_primitives = [0]\<rparr>,
         \<lparr>me_vert1 = 2, me_vert2 = 0, me_primitives = [0]\<rparr>],
      md_primitives =
        [\<lparr>mp_index = 0, mp_edges = [0, 1, 2],
          mp_vertices = [\<lparr>muv_vertex = 0, muv_uv = (0, 0)\<rparr>, \<lparr>muv_vertex = 1, muv_uv = (1, 0)\<rparr>,
                         \<lparr>muv_vertex = 2, muv_uv = (0, 1)\<rparr>],
          mp_uv_island_id = 0\<rparr>],
      md_uv_island_len = 1\<rparr>"

definition claimed_tile :: Tile where
  "claimed_tile =
     \<lparr>udim_offset = (0, 0), tile_resolution = (1024, 1024), mask_resolution = (256, 256),
      mask = replicate (256 * 256) 0\<rparr>"

definition claimed_mask :: UVIslandsMask where
  "claimed_mask = \<lparr>tiles = [claimed_tile]\<rparr>"



definition tri_corner :: UVBorderCorner where
  "tri_corner = \<lparr>corner_first = (0, 2), corner_second = (0, 0), corner_angle = 3 * pi / 2\<rparr>"

definition tri_vertex0 :: UVVertex where
  "tri_vertex0 =
     \<lparr>uvv_vertex = 0, uvv_uv = (0, 0), uvv_uv_edges = [0, 2], is_border = True, is_extended = False\<rparr>"

definition tri_consumed0 :: UVIsland where
  "tri_consumed0 = tri_ready\<lparr>uv_vertices := (uv_vertices tri_ready)[0 := tri_vertex0\<lparr>is_extended := True\<rparr>]\<rparr>"





text \<open>
  A ring of six triangles between an outer triangle \<open>(0,0)\<close>, \<open>(6,0)\<close>, \<open>(0,6)\<close> (mesh vertices
  0, 1, 2) and an inner triangle \<open>(1,1)\<close>, \<open>(3,1)\<close>, \<open>(1,3)\<close> (mesh vertices 3, 4, 5): one UV
  island with a hole. Every triangle is counter-clockwise in UV space.
\<close>

definition ring_mesh :: MeshData where
  "ring_mesh =
     \<lparr>md_vertices =
        [\<lparr>mv_v = 0, mv_edges = [0, 2, 9, 10]\<rparr>, \<lparr>mv_v = 1, mv_edges = [0, 1, 3, 5]\<rparr>,
         \<lparr>mv_v = 2, mv_edges = [5, 6, 7, 9]\<rparr>, \<lparr>mv_v = 3, mv_edges = [1, 2, 4, 11]\<rparr>,
         \<lparr>mv_v = 4, mv_edges = [3, 4, 6, 8]\<rparr>, \<lparr>mv_v = 5, mv_edges = [7, 8, 10, 11]\<rparr>],
      md_edges =
        [\<lparr>me_vert1 = 0, me_vert2 = 1, me_primitives = [0]\<rparr>,
         \<lparr>me_vert1 = 1, me_vert2 = 3, me_primitives = [0, 1]\<rparr>,
         \<lparr>me_vert1 = 3, me_vert2 = 0, me_primitives = [0, 5]\<rparr>,
         \<lparr>me_vert1 = 1, me_vert2 = 4, me_primitives = [1, 2]\<rparr>,
         \<lparr>me_vert1 = 4, me_vert2 = 3, me_primitives = [1]\<rparr>,
         \<lparr>me_vert1 = 1, me_vert2 = 2, me_primitives = [2]\<rparr>,
         \<lparr>me_vert1 = 2, me_vert2 = 4, me_primitives = [2, 3]\<rparr>,
         \<lparr>me_vert1 = 2, me_vert2 = 5, me_primitives = [3, 4]\<rparr>,
         \<lparr>me_vert1 = 5, me_vert2 = 4, me_primitives = [3]\<rparr>,
         \<lparr>me_vert1 = 2, me_vert2 = 0, me_primitives = [4]\<rparr>,
         \<lparr>me_vert1 = 0, me_vert2 = 5, me_primitives = [4, 5]\<rparr>,
         \<lparr>me_vert1 = 3, me_vert2 = 5, me_primitives = [5]\<rparr>],
      md_primitives =
        [\<lparr>mp_index = 0, mp_edges = [0, 1, 2],
          mp_vertices = [\<lparr>muv_vertex = 0, muv_uv = (0, 0)\<rparr>, \<lparr>muv_vertex = 1, muv_uv = (6, 0)\<rparr>,
                         \<lparr>muv_vertex = 3, muv_uv = (1, 1)\<rparr>],
          mp_uv_island_id = 0\<rparr>,
         \<lparr>mp_index = 1, mp_edges = [3, 4, 1],
          mp_vertices = [\<lparr>muv_vertex = 1, muv_uv = (6, 0)\<rparr>, \<lparr>muv_vertex = 4, muv_uv = (3, 1)\<rparr>,
                         \<lparr>muv_vertex = 3, muv_uv = (1, 1)\<rparr>],
          mp_uv_island_id = 0\<rparr>,
         \<lparr>mp_index = 2, mp_edges = [5, 6, 3],
          mp_vertices = [\<lparr>muv_vertex = 1, muv_uv = (6, 0)\<rparr>, \<lparr>muv_vertex = 2, muv_uv = (0, 6)\<rparr>,
                         \<lparr>muv_vertex = 4, muv_uv = (3, 1)\<rparr>],
          mp_uv_island_id = 0\<rparr>,
         \<lparr>mp_index = 3, mp_edges = [7, 8, 6],
          mp_vertices = [\<lparr>muv_vertex = 2, muv_uv = (0, 6)\<rparr>, \<lparr>muv_vertex = 5, muv_uv = (1, 3)\<rparr>,
                         \<lparr>muv_vertex = 4, muv_uv = (3, 1)\<rparr>],
          mp_uv_island_id = 0\<rparr>,
         \<lparr>mp_index = 4, mp_edges = [9, 10, 7],
          mp_vertices = [\<lparr>muv_vertex = 2, muv_uv = (0, 6)\<rparr>, \<lparr>muv_vertex = 0, muv_uv = (0, 0)\<rparr>,
                         \<lparr>muv_vertex = 5, muv_uv = (1, 3)\<rparr>],
          mp_uv_island_id = 0\<rparr>,
         \<lparr>mp_index = 5, mp_edges = [2, 11, 10],
          mp_vertices = [\<lparr>muv_vertex = 0, muv_uv = (0, 0)\<rparr>, \<lparr>muv_vertex = 3, muv_uv = (1, 1)\<rparr>,
                         \<lparr>muv_vertex = 5, muv_uv = (1, 3)\<rparr>],
          mp_uv_island_id = 0\<rparr>],
      md_uv_island_len = 1\<rparr>"

text \<open>A mask of two tiles that overlap: the second is the first moved by half a tile.\<close>

definition overlap_mask :: UVIslandsMask where
  "overlap_mask = add_tile (add_tile \<lparr>tiles = []\<rparr> (0, 0) (1024, 1024)) (1 / 2, 0) (1024, 1024)"

text \<open>
  Three triangles on one edge, like the pages of a book: the mesh vertices 0 and 1 have the
  same UV coordinates in all three triangles, which therefore are one UV island.
\<close>

definition book_mesh :: MeshData where
  "book_mesh =
     \<lparr>md_vertices =
        [\<lparr>mv_v = 0, mv_edges = [0, 2, 4, 6]\<rparr>, \<lparr>mv_v = 1, mv_edges = [0, 1, 3, 5]\<rparr>,
         \<lparr>mv_v = 2, mv_edges = [1, 2]\<rparr>, \<lparr>mv_v = 3, mv_edges = [3, 4]\<rparr>,
         \<lparr>mv_v = 4, mv_edges = [5, 6]\<rparr>],
      md_edges =
        [\<lparr>me_vert1 = 0, me_vert2 = 1, me_primitives = [0, 1, 2]\<rparr>,
         \<lparr>me_vert1 = 1, me_vert2 = 2, me_primitives = [0]\<rparr>,
         \<lparr>me_vert1 = 2, me_vert2 = 0, me_primitives = [0]\<rparr>,
         \<lparr>me_vert1 = 1, me_vert2 = 3, me_primitives = [1]\<rparr>,
         \<lparr>me_vert1 = 3, me_vert2 = 0, me_primitives = [1]\<rparr>,
         \<lparr>me_vert1 = 1, me_vert2 = 4, me_primitives = [2]\<rparr>,
         \<lparr>me_vert1 = 4, me_vert2 = 0, me_primitives = [2]\<rparr>],
      md_primitives =
        [\<lparr>mp_index = 0, mp_edges = [0, 1, 2],
          mp_vertices = [\<lparr>muv_vertex = 0, muv_uv = (0, 0)\<rparr>, \<lparr>muv_vertex = 1, muv_uv = (4, 0)\<rparr>,
                         \<lparr>muv_vertex = 2, muv_uv = (2, 3)\<rparr>],
          mp_uv_island_id = 0\<rparr>,
         \<lparr>mp_index = 1, mp_edges = [0, 3, 4],
          mp_vertices = [\<lparr>muv_vertex = 0, muv_uv = (0, 0)\<rparr>, \<lparr>muv_vertex = 1, muv_uv = (4, 0)\<rparr>,
                         \<lparr>muv_vertex = 3, muv_uv = (2, 2)\<rparr>],
          mp_uv_island_id = 0\<rparr>,
         \<lparr>mp_index = 2, mp_edges = [0, 5, 6],
          mp_vertices = [\<lparr>muv_vertex = 0, muv_uv = (0, 0)\<rparr>, \<lparr>muv_vertex = 1, muv_uv = (4, 0)\<rparr>,
                         \<lparr>muv_vertex = 4, muv_uv = (2, 1)\<rparr>],
          mp_uv_island_id = 0\<rparr>],
      md_uv_island_len = 1\<rparr>"

text \<open>The UV island of the book as \<^verbatim>\<open>add_primitive\<close> stores it, its border candidates, the border
  that the first call of \<^verbatim>\<open>extract_from_edges\<close> returns and the candidates after that call.\<close>

definition book_island :: UVIsland where
  "book_island =
     \<lparr>uv_vertices =
        [\<lparr>uvv_vertex = 0, uvv_uv = (0, 0), uvv_uv_edges = [0, 2, 4, 6], is_border = False, is_extended = False\<rparr>,
         \<lparr>uvv_vertex = 1, uvv_uv = (4, 0), uvv_uv_edges = [0, 1, 3, 5], is_border = False, is_extended = False\<rparr>,
         \<lparr>uvv_vertex = 2, uvv_uv = (2, 3), uvv_uv_edges = [1, 2], is_border = False, is_extended = False\<rparr>,
         \<lparr>uvv_vertex = 3, uvv_uv = (2, 2), uvv_uv_edges = [3, 4], is_border = False, is_extended = False\<rparr>,
         \<lparr>uvv_vertex = 4, uvv_uv = (2, 1), uvv_uv_edges = [5, 6], is_border = False, is_extended = False\<rparr>],
      uv_edges =
        [\<lparr>uve_vertices = (0, 1), uve_uv_primitives = [In_store 0, In_store 1, In_store 2]\<rparr>,
         \<lparr>uve_vertices = (1, 2), uve_uv_primitives = [In_store 0]\<rparr>,
         \<lparr>uve_vertices = (2, 0), uve_uv_primitives = [In_store 0]\<rparr>,
         \<lparr>uve_vertices = (1, 3), uve_uv_primitives = [In_store 1]\<rparr>,
         \<lparr>uve_vertices = (3, 0), uve_uv_primitives = [In_store 1]\<rparr>,
         \<lparr>uve_vertices = (1, 4), uve_uv_primitives = [In_store 2]\<rparr>,
         \<lparr>uve_vertices = (4, 0), uve_uv_primitives = [In_store 2]\<rparr>],
      uv_primitives =
        [\<lparr>uvp_primitive = 0, uvp_edges = [0, 1, 2]\<rparr>,
         \<lparr>uvp_primitive = 1, uvp_edges = [0, 3, 4]\<rparr>,
         \<lparr>uvp_primitive = 2, uvp_edges = [0, 5, 6]\<rparr>],
      borders = []\<rparr>"

definition book_candidates :: "UVBorderEdge list" where
  "book_candidates =
     [UVBorderEdge_init 1 0, UVBorderEdge_init 2 0, UVBorderEdge_init 3 1, UVBorderEdge_init 4 1,
      UVBorderEdge_init 5 2, UVBorderEdge_init 6 2]"

definition book_border :: UVBorder where
  "book_border = \<lparr>border_edges =
     [UVBorderEdge_init 1 0, (UVBorderEdge_init 2 0)\<lparr>be_tag := True\<rparr>,
      (UVBorderEdge_init 4 1)\<lparr>be_reverse_order := True, be_tag := True\<rparr>,
      (UVBorderEdge_init 3 1)\<lparr>be_reverse_order := True, be_tag := True\<rparr>]\<rparr>"

definition book_rest :: "UVBorderEdge list" where
  "book_rest =
     [(UVBorderEdge_init 1 0)\<lparr>be_tag := True\<rparr>, (UVBorderEdge_init 2 0)\<lparr>be_tag := True\<rparr>,
      (UVBorderEdge_init 3 1)\<lparr>be_reverse_order := True, be_tag := True\<rparr>,
      (UVBorderEdge_init 4 1)\<lparr>be_reverse_order := True, be_tag := True\<rparr>,
      UVBorderEdge_init 5 2, UVBorderEdge_init 6 2]"

section \<open>The island mask: dilation\<close>


lemma dilate_x_cell_length: "length (fst (dilate_x_cell w prev y x st)) = length (fst st)"
  by (simp add: dilate_x_cell_def Let_def)

lemma dilate_x_cell_nth:
  "off < length (fst st) \<Longrightarrow>
   fst (dilate_x_cell w prev y x st) ! off =
     (if off = y * w + x then nx w prev off x (fst st ! off) else fst st ! off)"
  by (simp add: dilate_x_cell_def nx_def Let_def)

lemma dilate_x_row_length:
  "length (fst (fold (dilate_x_cell w prev y) [0..<n] st)) = length (fst st)"
  by (induction n) (simp_all add: dilate_x_cell_length)

lemma dilate_x_row_nth:
  "off < length (fst st) \<Longrightarrow>
   fst (fold (dilate_x_cell w prev y) [0..<n] st) ! off =
     (if y * w \<le> off \<and> off < y * w + n then nx w prev off (off - y * w) (fst st ! off)
      else fst st ! off)"
proof (induction n)
  case 0
  then show ?case by auto
next
  case (Suc n)
  have len: "off < length (fst (fold (dilate_x_cell w prev y) [0..<n] st))"
    using Suc.prems by (simp add: dilate_x_row_length)
  show ?case
    using Suc.IH [OF Suc.prems] by (auto simp: dilate_x_cell_nth [OF len])
qed

lemma dilate_x_rows_length:
  "length (fst (fold (\<lambda>y. fold (dilate_x_cell w prev y) [0..<w]) [0..<k] st)) = length (fst st)"
  by (induction k) (simp_all add: dilate_x_row_length)

lemma dilate_x_rows_nth:
  "off < length (fst st) \<Longrightarrow>
   fst (fold (\<lambda>y. fold (dilate_x_cell w prev y) [0..<w]) [0..<k] st) ! off =
     (if off < k * w then nx w prev off (off mod w) (fst st ! off) else fst st ! off)"
proof (induction k)
  case 0
  then show ?case by simp
next
  case (Suc k)
  let ?s = "fold (\<lambda>y. fold (dilate_x_cell w prev y) [0..<w]) [0..<k] st"
  have len: "off < length (fst ?s)"
    using Suc.prems by (simp add: dilate_x_rows_length)
  have m: "k * w \<le> off \<Longrightarrow> off < k * w + w \<Longrightarrow> off - k * w = off mod w"
    by (metis add.commute le_add_diff_inverse2 mod_less mod_mult_self3 nat_add_left_cancel_less)
  show ?case
    using Suc.IH [OF Suc.prems] m by (auto simp: dilate_x_row_nth [OF len])
qed

lemma dilate_y_cell_length: "length (fst (dilate_y_cell w h prev y x st)) = length (fst st)"
  by (simp add: dilate_y_cell_def Let_def)

lemma dilate_y_cell_nth:
  "off < length (fst st) \<Longrightarrow>
   fst (dilate_y_cell w h prev y x st) ! off =
     (if off = y * w + x then ny w h prev off y (fst st ! off) else fst st ! off)"
  by (simp add: dilate_y_cell_def ny_def Let_def)

lemma dilate_y_row_length:
  "length (fst (fold (dilate_y_cell w h prev y) [0..<n] st)) = length (fst st)"
  by (induction n) (simp_all add: dilate_y_cell_length)

lemma dilate_y_row_nth:
  "off < length (fst st) \<Longrightarrow>
   fst (fold (dilate_y_cell w h prev y) [0..<n] st) ! off =
     (if y * w \<le> off \<and> off < y * w + n then ny w h prev off y (fst st ! off)
      else fst st ! off)"
proof (induction n)
  case 0
  then show ?case by auto
next
  case (Suc n)
  have len: "off < length (fst (fold (dilate_y_cell w h prev y) [0..<n] st))"
    using Suc.prems by (simp add: dilate_y_row_length)
  show ?case
    using Suc.IH [OF Suc.prems] by (auto simp: dilate_y_cell_nth [OF len])
qed

lemma dilate_y_rows_length:
  "length (fst (fold (\<lambda>y. fold (dilate_y_cell w h prev y) [0..<w]) [0..<k] st)) = length (fst st)"
  by (induction k) (simp_all add: dilate_y_row_length)

lemma dilate_y_rows_nth:
  "off < length (fst st) \<Longrightarrow>
   fst (fold (\<lambda>y. fold (dilate_y_cell w h prev y) [0..<w]) [0..<k] st) ! off =
     (if off < k * w then ny w h prev off (off div w) (fst st ! off) else fst st ! off)"
proof (induction k)
  case 0
  then show ?case by simp
next
  case (Suc k)
  let ?s = "fold (\<lambda>y. fold (dilate_y_cell w h prev y) [0..<w]) [0..<k] st"
  have len: "off < length (fst ?s)"
    using Suc.prems by (simp add: dilate_y_rows_length)
  have m: "k * w \<le> off \<Longrightarrow> off < k * w + w \<Longrightarrow> off div w = k"
    by (metis add.commute div_nat_eqI mult.commute mult_Suc_right)
  show ?case
    using Suc.IH [OF Suc.prems] m by (auto simp: dilate_y_row_nth [OF len])
qed

lemma dilate_x_mask_nth:
  "length (mask t) = fst (mask_resolution t) * snd (mask_resolution t) \<Longrightarrow>
   off < length (mask t) \<Longrightarrow>
   mask (fst (dilate_x t)) ! off =
     nx (fst (mask_resolution t)) (mask t) off (off mod fst (mask_resolution t)) (mask t ! off)"
  by (simp add: dilate_x_def Let_def dilate_x_rows_nth mult.commute)

lemma dilate_y_mask_nth:
  "length (mask t) = fst (mask_resolution t) * snd (mask_resolution t) \<Longrightarrow>
   off < length (mask t) \<Longrightarrow>
   mask (fst (dilate_y t)) ! off =
     ny (fst (mask_resolution t)) (snd (mask_resolution t)) (mask t) off
        (off div fst (mask_resolution t)) (mask t ! off)"
  by (simp add: dilate_y_def Let_def dilate_y_rows_nth mult.commute)

lemma dilate_x_frame:
  "length (mask (fst (dilate_x t))) = length (mask t)"
  "mask_resolution (fst (dilate_x t)) = mask_resolution t"
  by (simp_all add: dilate_x_def Let_def dilate_x_rows_length)

lemma dilate_tile_one: "dilate_tile t 1 = fst (dilate_y (fst (dilate_x t)))"
  by (simp add: dilate_tile_def Let_def)

lemma dilate_tile_zero: "dilate_tile t 0 = t"
  by (simp add: dilate_tile_def)


lemma offset_div_mod: "x < (w::nat) \<Longrightarrow> (y * w + x) mod w = x \<and> (y * w + x) div w = y"
  by simp

lemma offset_eq_iff:
  "x < (w::nat) \<Longrightarrow> x' < w \<Longrightarrow> y' * w + x' = y * w + x \<longleftrightarrow> y' = y \<and> x' = x"
  by (metis offset_div_mod)

lemma offset_less: "x < (w::nat) \<Longrightarrow> y < h \<Longrightarrow> y * w + x < w * h"
proof -
  assume a: "x < w" "y < h"
  then have "y * w + x < y * w + w" by simp
  also have "\<dots> = Suc y * w" by simp
  also have "\<dots> \<le> h * w" using a(2) by (intro mult_le_mono1) simp
  finally show ?thesis by (simp add: mult.commute)
qed

lemma single_claim_cell:
  assumes "single_claim t x y K" "x' < fst (mask_resolution t)" "y' < snd (mask_resolution t)"
  shows "mask t ! (y' * fst (mask_resolution t) + x') = (if y' = y \<and> x' = x then K else 0xffff)"
proof -
  let ?w = "fst (mask_resolution t)" and ?h = "snd (mask_resolution t)"
  have m: "mask t = (replicate (?w * ?h) 0xffff)[y * ?w + x := K]" and x: "x < ?w"
    using assms(1) by (simp_all add: single_claim_def Let_def)
  have lt: "y' * ?w + x' < ?w * ?h" using assms(2,3) by (rule offset_less)
  have e: "y' * ?w + x' = y * ?w + x \<longleftrightarrow> y' = y \<and> x' = x"
    using offset_eq_iff [OF x assms(2), of y' y] by blast
  have "mask t ! (y' * ?w + x') = (if y * ?w + x = y' * ?w + x' then K else 0xffff)"
    by (subst m) (use lt in \<open>simp add: nth_list_update del: replicate.simps\<close>)
  then show ?thesis using e by (simp add: eq_commute)
qed

lemma single_claim_dilate_x_cell:
  assumes sc: "single_claim t x y K" and x': "x' < fst (mask_resolution t)"
    and y': "y' < snd (mask_resolution t)"
  shows "mask (fst (dilate_x t)) ! (y' * fst (mask_resolution t) + x') =
           (if y' = y \<and> (x' = x \<or> Suc x' = x \<or> x' = Suc x) then K else 0xffff)"
proof -
  define w where "w = fst (mask_resolution t)"
  define h where "h = snd (mask_resolution t)"
  define off where "off = y' * w + x'"
  define m where "m = mask t"
  have len: "length (mask t) = fst (mask_resolution t) * snd (mask_resolution t)"
    and K: "K \<noteq> 0xffff"
    using sc by (simp_all add: single_claim_def Let_def)
  have lt: "off < length (mask t)" using x' y' by (simp add: len offset_less off_def w_def)
  have c0: "m ! off = (if y' = y \<and> x' = x then K else 0xffff)"
    unfolding m_def off_def w_def using sc x' y' by (rule single_claim_cell)
  have cl: "m ! (off - 1) = (if y' = y \<and> x' - 1 = x then K else 0xffff)" if "x' \<noteq> 0"
  proof -
    have "off - 1 = y' * w + (x' - 1)" using that by (simp add: off_def)
    then show ?thesis
      unfolding m_def w_def using single_claim_cell [OF sc, of "x' - 1" y'] x' y' by simp
  qed
  have cr: "m ! (off + 1) = (if y' = y \<and> x' + 1 = x then K else 0xffff)" if "x' < w - 1"
  proof -
    have "off + 1 = y' * w + (x' + 1)" and "x' + 1 < w" using that by (simp_all add: off_def)
    then show ?thesis
      unfolding m_def w_def using single_claim_cell [OF sc, of "x' + 1" y'] y' by simp
  qed
  have md: "off mod w = x'" using x' by (simp add: off_def w_def)
  have v: "mask (fst (dilate_x t)) ! off = nx w m off x' (m ! off)"
    using dilate_x_mask_nth [OF len lt] md by (simp add: w_def m_def)
  have "nx w m off x' (m ! off) =
          (if y' = y \<and> (x' = x \<or> Suc x' = x \<or> x' = Suc x) then K else 0xffff)"
  proof (cases "y' = y \<and> x' = x")
    case True
    then show ?thesis using c0 K by (simp add: nx_def)
  next
    case F0: False
    then have z: "m ! off = 0xffff" using c0 by auto
    show ?thesis
    proof (cases "x' \<noteq> 0 \<and> y' = y \<and> x' - 1 = x")
      case True
      then have "m ! (off - 1) = K" using cl by simp
      then show ?thesis using True K z by (auto simp: nx_def)
    next
      case F1: False
      then have l: "x' \<noteq> 0 \<Longrightarrow> m ! (off - 1) = 0xffff" using cl by auto
      show ?thesis
      proof (cases "x' < w - 1 \<and> y' = y \<and> x' + 1 = x")
        case True
        then have "m ! (off + 1) = K" using cr by simp
        then show ?thesis using True K z l by (auto simp: nx_def)
      next
        case F2: False
        then have r: "x' < w - 1 \<Longrightarrow> m ! (off + 1) = 0xffff" using cr by auto
        have xw: "x < w" using sc by (simp add: single_claim_def Let_def w_def)
        have "\<not> (y' = y \<and> (x' = x \<or> Suc x' = x \<or> x' = Suc x))"
          using F0 F1 F2 xw by auto
        then show ?thesis using z l r by (auto simp: nx_def)
      qed
    qed
  qed
  then show ?thesis using v by (simp add: off_def w_def)
qed

lemma single_claim_dilate_neighbours:
  assumes sc: "single_claim t x y K"
  shows "(0 < x \<longrightarrow> mask (dilate_tile t 1) ! (y * fst (mask_resolution t) + x - 1) = K) \<and>
         (x + 1 < fst (mask_resolution t) \<longrightarrow>
            mask (dilate_tile t 1) ! (y * fst (mask_resolution t) + x + 1) = K) \<and>
         (0 < y \<longrightarrow> mask (dilate_tile t 1) ! ((y - 1) * fst (mask_resolution t) + x) = K) \<and>
         (y + 1 < snd (mask_resolution t) \<longrightarrow>
            mask (dilate_tile t 1) ! ((y + 1) * fst (mask_resolution t) + x) = K)"
proof -
  define w where "w = fst (mask_resolution t)"
  define h where "h = snd (mask_resolution t)"
  define t1 where "t1 = fst (dilate_x t)"
  define m1 where "m1 = mask t1"
  have len: "length (mask t) = w * h" and K: "K \<noteq> 0xffff" and x: "x < w" and y: "y < h"
    using sc by (simp_all add: single_claim_def Let_def w_def h_def)
  have len1: "length (mask t1) = fst (mask_resolution t1) * snd (mask_resolution t1)"
    and res1: "fst (mask_resolution t1) = w" "snd (mask_resolution t1) = h"
    using len by (simp_all add: t1_def dilate_x_frame w_def h_def)
  have c1: "m1 ! (y' * w + x') = (if y' = y \<and> (x' = x \<or> Suc x' = x \<or> x' = Suc x) then K else 0xffff)"
    if "x' < w" "y' < h" for x' y'
    unfolding m1_def t1_def w_def
    using sc that by (intro single_claim_dilate_x_cell) (simp_all add: w_def h_def)
  have v: "mask (dilate_tile t 1) ! (y' * w + x') = ny w h m1 (y' * w + x') y' (m1 ! (y' * w + x'))"
    if "x' < w" "y' < h" for x' y'
  proof -
    have "y' * w + x' < length (mask t1)"
      using that len1 res1 by (simp add: offset_less)
    from dilate_y_mask_nth [OF len1 this] show ?thesis
      using that by (simp add: dilate_tile_one t1_def [symmetric] res1 m1_def)
  qed
  have left: "mask (dilate_tile t 1) ! (y * w + x - 1) = K" if "0 < x"
  proof -
    have e: "y * w + x - 1 = y * w + (x - 1)" using that by simp
    have "m1 ! (y * w + (x - 1)) = K" using c1 [of "x - 1" y] x y that by simp
    then show ?thesis unfolding e using v [of "x - 1" y] x y K by (simp add: ny_def)
  qed
  have right: "mask (dilate_tile t 1) ! (y * w + x + 1) = K" if "x + 1 < w"
  proof -
    have e: "y * w + x + 1 = y * w + (x + 1)" by simp
    have "m1 ! (y * w + (x + 1)) = K" using c1 [of "x + 1" y] y that by simp
    then show ?thesis unfolding e using v [of "x + 1" y] that y K by (simp add: ny_def)
  qed
  have centre: "m1 ! (y * w + x) = K" using c1 [of x y] x y by simp
  have up: "mask (dilate_tile t 1) ! ((y - 1) * w + x) = K" if "0 < y"
  proof -
    define off where "off = (y - 1) * w + x"
    have yh: "y - 1 < h" "y - 1 < h - 1" using that y by simp_all
    have z: "m1 ! off = 0xffff" unfolding off_def using c1 [of x "y - 1"] x yh that by auto
    have a: "m1 ! (off - w) = 0xffff" if n: "y - 1 \<noteq> 0"
    proof -
      have "off - w = (y - 2) * w + x"
        unfolding off_def using n by (cases y) (auto simp: diff_mult_distrib)
      moreover have "m1 ! ((y - 2) * w + x) = 0xffff" using c1 [of x "y - 2"] x y n by auto
      ultimately show ?thesis by simp
    qed
    have "off + w = y * w + x" unfolding off_def using that by (cases y) auto
    then have b: "m1 ! (off + w) = K" using centre by simp
    have "mask (dilate_tile t 1) ! off = ny w h m1 off (y - 1) (m1 ! off)"
      unfolding off_def using x yh by (intro v)
    also have "\<dots> = K"
      using z a b K yh by (cases "y - 1 = 0") (simp_all add: ny_def)
    finally show ?thesis by (simp add: off_def)
  qed
  have down: "mask (dilate_tile t 1) ! ((y + 1) * w + x) = K" if "y + 1 < h"
  proof -
    define off where "off = (y + 1) * w + x"
    have z: "m1 ! off = 0xffff" unfolding off_def using c1 [of x "y + 1"] x that by auto
    have "off - w = y * w + x" by (simp add: off_def)
    then have b: "m1 ! (off - w) = K" using centre by simp
    have "mask (dilate_tile t 1) ! off = ny w h m1 off (y + 1) (m1 ! off)"
      unfolding off_def using x that by (intro v)
    also have "\<dots> = K"
      using z b K by (simp add: ny_def)
    finally show ?thesis by (simp add: off_def)
  qed
  show ?thesis using left right up down by (simp add: w_def h_def)
qed

section \<open>Border extraction\<close>


lemma border_edge_uv_taken:
  "the_edge island (be_edge be) = Some e \<Longrightarrow>
   border_edge_uv island (be\<lparr>be_reverse_order := r, be_tag := t\<rparr>) i =
     vertex_uv island (if (if r then 1 - i else i) = 0 then fst (uve_vertices e) else snd (uve_vertices e))"
  by (simp add: border_edge_uv_def get_uv_vertex_def Let_def)

lemma next_border_edge_Some:
  "next_border_edge island cur es k0 = Some (Some (k, taken, uv)) \<Longrightarrow>
   k0 \<le> k \<and> k - k0 < length es \<and> be_tag (es ! (k - k0)) = False \<and>
   (\<exists>r. taken = (es ! (k - k0))\<lparr>be_reverse_order := r, be_tag := True\<rparr>) \<and>
   border_edge_uv island taken 0 = Some cur \<and> border_edge_uv island taken 1 = Some uv"
proof (induction es arbitrary: k0)
  case Nil
  then show ?case by simp
next
  case (Cons be rest)
  show ?case
  proof (cases "be_tag be")
    case True
    then have "next_border_edge island cur rest (Suc k0) = Some (Some (k, taken, uv))"
      using Cons.prems by simp
    from Cons.IH [OF this] have ih: "Suc k0 \<le> k \<and> k - Suc k0 < length rest \<and>
        be_tag (rest ! (k - Suc k0)) = False \<and>
        (\<exists>r. taken = (rest ! (k - Suc k0))\<lparr>be_reverse_order := r, be_tag := True\<rparr>) \<and>
        border_edge_uv island taken 0 = Some cur \<and> border_edge_uv island taken 1 = Some uv" .
    then have "k - k0 = Suc (k - Suc k0)" by linarith
    with ih show ?thesis by auto
  next
    case False
    from Cons.prems False obtain e uv0 where e: "the_edge island (be_edge be) = Some e"
      and uv0: "vertex_uv island (fst (uve_vertices e)) = Some uv0"
      by (auto split: Option.bind_splits)
    show ?thesis
    proof (cases "uv0 = cur")
      case True
      then show ?thesis
        using Cons.prems False e uv0
        by (auto simp: border_edge_uv_taken Let_def split: Option.bind_splits)
    next
      case ne0: False
      from Cons.prems False e uv0 ne0 obtain uv1 where
        uv1: "vertex_uv island (snd (uve_vertices e)) = Some uv1"
        by (auto split: Option.bind_splits)
      show ?thesis
      proof (cases "uv1 = cur")
        case True
        then show ?thesis
          using Cons.prems False e uv0 ne0 uv1
          by (auto simp: border_edge_uv_taken Let_def split: Option.bind_splits)
      next
        case ne1: False
        then have "next_border_edge island cur rest (Suc k0) = Some (Some (k, taken, uv))"
          using Cons.prems False e uv0 ne0 uv1 by simp
        from Cons.IH [OF this] have ih: "Suc k0 \<le> k \<and> k - Suc k0 < length rest \<and>
            be_tag (rest ! (k - Suc k0)) = False \<and>
            (\<exists>r. taken = (rest ! (k - Suc k0))\<lparr>be_reverse_order := r, be_tag := True\<rparr>) \<and>
            border_edge_uv island taken 0 = Some cur \<and> border_edge_uv island taken 1 = Some uv" .
        then have "k - k0 = Suc (k - Suc k0)" by linarith
        with ih show ?thesis by auto
      qed
    qed
  qed
qed


lemma chain_inv_step:
  assumes "chain_inv island first_uv cur border"
    and "border_edge_uv island taken 0 = Some cur" and "border_edge_uv island taken 1 = Some uv"
  shows "chain_inv island first_uv uv (border @ [taken])"
proof -
  from assms(1) have ne: "border \<noteq> []"
    and h: "border_edge_uv island (hd border) 0 = Some first_uv"
    and l: "border_edge_uv island (last border) 1 = Some cur"
    and c: "\<And>i. Suc i < length border \<Longrightarrow>
        border_edge_uv island (border ! i) 1 \<noteq> None \<and>
        border_edge_uv island (border ! i) 1 = border_edge_uv island (border ! Suc i) 0"
    unfolding chain_inv_def by blast+
  have "border_edge_uv island ((border @ [taken]) ! i) 1 \<noteq> None \<and>
        border_edge_uv island ((border @ [taken]) ! i) 1 =
        border_edge_uv island ((border @ [taken]) ! Suc i) 0"
    if "Suc i < length (border @ [taken])" for i
  proof (cases "Suc i < length border")
    case True
    then have e: "(border @ [taken]) ! i = border ! i" "(border @ [taken]) ! Suc i = border ! Suc i"
      by (simp_all add: nth_append)
    show ?thesis unfolding e by (rule c [OF True])
  next
    case False
    then have i: "i = length border - 1" "Suc i = length border" using that ne by auto
    have "border ! (length border - 1) = last border" using ne by (simp add: last_conv_nth)
    then show ?thesis using l assms(2) i ne by (simp add: nth_append)
  qed
  moreover have "hd (border @ [taken]) = hd border" using ne by simp
  ultimately show ?thesis
    unfolding chain_inv_def last_snoc using ne h assms(3) by (metis Nil_is_append_conv)
qed

lemma chain_inv_closed:
  assumes "chain_inv island first_uv first_uv border"
  shows "border_closed island \<lparr>border_edges = border\<rparr>"
proof -
  from assms have ne: "border \<noteq> []"
    and h: "border_edge_uv island (hd border) 0 = Some first_uv"
    and l: "border_edge_uv island (last border) 1 = Some first_uv"
    and c: "\<And>i. Suc i < length border \<Longrightarrow>
        border_edge_uv island (border ! i) 1 \<noteq> None \<and>
        border_edge_uv island (border ! i) 1 = border_edge_uv island (border ! Suc i) 0"
    unfolding chain_inv_def by blast+
  have "border_edge_uv island (border ! i) 1 \<noteq> None \<and>
        border_edge_uv island (border ! i) 1 =
        border_edge_uv island (border ! (Suc i mod length border)) 0"
    if "i < length border" for i
  proof (cases "Suc i < length border")
    case True
    then have e: "Suc i mod length border = Suc i" by simp
    show ?thesis unfolding e by (rule c [OF True])
  next
    case False
    then have i: "i = length border - 1" "Suc i = length border" using that by auto
    have "border ! (length border - 1) = last border" "border ! 0 = hd border"
      using ne by (simp_all add: last_conv_nth hd_conv_nth)
    then show ?thesis using l h i by simp
  qed
  then have "0 < length border \<and>
      (\<forall>i<length border. border_edge_uv island (border ! i) 1 \<noteq> None \<and>
         border_edge_uv island (border ! i) 1 =
         border_edge_uv island (border ! (Suc i mod length border)) 0)"
    using ne by blast
  then show ?thesis unfolding border_closed_def Let_def UVBorder.select_convs by blast
qed

lemma extract_walk_closed:
  assumes "extract_walk island first_uv cur edges border = Some y"
  shows "chain_inv island first_uv cur border \<longrightarrow>
     (\<forall>b es. y = Some (b, es) \<longrightarrow> border_closed island b)"
proof (rule extract_walk.raw_induct [rotated, OF assms])
  fix f island first_uv cur edges border y
  assume IH: "\<And>island first_uv cur edges border y.
      f island first_uv cur edges border = Some y \<Longrightarrow>
      chain_inv island first_uv cur border \<longrightarrow>
        (\<forall>b es. y = Some (b, es) \<longrightarrow> border_closed island b)"
    and step: "(if cur \<noteq> first_uv
      then case next_border_edge island cur edges 0 of
           None \<Rightarrow> Some None
           | Some None \<Rightarrow> f island first_uv cur edges border
           | Some (Some (k, taken, uv)) \<Rightarrow>
               f island first_uv uv (edges[k := taken]) (border @ [taken])
      else Some (Some (\<lparr>border_edges = border\<rparr>, edges))) = Some y"
  show "chain_inv island first_uv cur border \<longrightarrow>
     (\<forall>b es. y = Some (b, es) \<longrightarrow> border_closed island b)"
  proof (intro impI allI)
    fix b es
    assume inv: "chain_inv island first_uv cur border" and y: "y = Some (b, es)"
    show "border_closed island b"
    proof (cases "cur \<noteq> first_uv")
      case False
      then have "b = \<lparr>border_edges = border\<rparr>" and "chain_inv island first_uv first_uv border"
        using step y inv by simp_all
      then show ?thesis by (simp add: chain_inv_closed)
    next
      case True
      show ?thesis
      proof (cases "next_border_edge island cur edges 0")
        case None
        then show ?thesis using step True y by simp
      next
        case (Some r)
        show ?thesis
        proof (cases r)
          case None
          then have "f island first_uv cur edges border = Some y"
            using step True Some by simp
          from IH [OF this] inv y show ?thesis by simp
        next
          case (Some t)
          obtain k taken uv where t: "t = (k, taken, uv)" by (cases t)
          have n: "next_border_edge island cur edges 0 = Some (Some (k, taken, uv))"
            using \<open>next_border_edge island cur edges 0 = Some r\<close> Some t by simp
          then have w: "f island first_uv uv (edges[k := taken]) (border @ [taken]) = Some y"
            using step True by simp
          from next_border_edge_Some [OF n]
          have "chain_inv island first_uv uv (border @ [taken])"
            using inv by (intro chain_inv_step [where cur = cur]) simp_all
          with IH [OF w] y show ?thesis by simp
        qed
      qed
    qed
  qed
qed


lemma first_untagged_Some:
  "first_untagged es k0 = Some s \<Longrightarrow>
   k0 \<le> s \<and> s - k0 < length es \<and> \<not> be_tag (es ! (s - k0)) \<and> (\<forall>j. j < s - k0 \<longrightarrow> be_tag (es ! j))"
proof (induction es arbitrary: k0)
  case Nil
  then show ?case by simp
next
  case (Cons e es)
  show ?case
  proof (cases "be_tag e")
    case False
    then show ?thesis using Cons.prems by simp
  next
    case True
    then have "first_untagged es (Suc k0) = Some s" using Cons.prems by simp
    from Cons.IH [OF this] have ih: "Suc k0 \<le> s \<and> s - Suc k0 < length es \<and>
      \<not> be_tag (es ! (s - Suc k0)) \<and> (\<forall>j. j < s - Suc k0 \<longrightarrow> be_tag (es ! j))" .
    then have d: "s - k0 = Suc (s - Suc k0)" by linarith
    have "be_tag ((e # es) ! j)" if "j < s - k0" for j
      using that ih True d by (cases j) auto
    with ih d show ?thesis by auto
  qed
qed

lemma first_untagged_None: "first_untagged es k0 = None \<longleftrightarrow> (\<forall>e \<in> set es. be_tag e)"
  by (induction es arbitrary: k0) auto

lemma consumedD:
  assumes "consumed edges0 es b"
  shows "length es = length edges0"
    and "\<And>j. j < length edges0 \<Longrightarrow> be_tag (edges0 ! j) \<Longrightarrow> es ! j = edges0 ! j"
    and "\<And>j. j < length edges0 \<Longrightarrow> \<not> be_tag (es ! j) \<Longrightarrow> es ! j = edges0 ! j"
    and "\<And>x. x \<in> set b \<Longrightarrow> \<exists>j<length edges0.
        \<not> be_tag (edges0 ! j) \<and> es ! j = x\<lparr>be_tag := True\<rparr> \<and>
        (\<exists>r. es ! j = (edges0 ! j)\<lparr>be_reverse_order := r, be_tag := True\<rparr>)"
  using assms unfolding consumed_def by blast+

lemma consumedI:
  assumes "length es = length edges0"
    and "\<And>j. j < length edges0 \<Longrightarrow> be_tag (edges0 ! j) \<Longrightarrow> es ! j = edges0 ! j"
    and "\<And>j. j < length edges0 \<Longrightarrow> \<not> be_tag (es ! j) \<Longrightarrow> es ! j = edges0 ! j"
    and "\<And>x. x \<in> set b \<Longrightarrow> \<exists>j<length edges0.
        \<not> be_tag (edges0 ! j) \<and> es ! j = x\<lparr>be_tag := True\<rparr> \<and>
        (\<exists>r. es ! j = (edges0 ! j)\<lparr>be_reverse_order := r, be_tag := True\<rparr>)"
  shows "consumed edges0 es b"
  using assms unfolding consumed_def by blast

lemma consumed_step:
  assumes c: "consumed edges0 es b" and k: "k < length es" and u: "\<not> be_tag (es ! k)"
    and t: "taken = (es ! k)\<lparr>be_reverse_order := r, be_tag := True\<rparr>"
  shows "consumed edges0 (es[k := taken]) (b @ [taken])"
proof (rule consumedI)
  note d = consumedD [OF c]
  have ek: "es ! k = edges0 ! k" and k0: "k < length edges0" using d(3) [of k] k u d(1) by simp_all
  have tt: "be_tag taken" using t by simp
  show "length (es[k := taken]) = length edges0" using d(1) by simp
  show "es[k := taken] ! j = edges0 ! j" if "j < length edges0" "be_tag (edges0 ! j)" for j
  proof -
    have "j \<noteq> k" using that(2) u ek by auto
    then show ?thesis using d(2) [OF that] by simp
  qed
  show "es[k := taken] ! j = edges0 ! j" if "j < length edges0" "\<not> be_tag (es[k := taken] ! j)" for j
  proof -
    have "j \<noteq> k" using that(2) tt k by auto
    then show ?thesis using d(3) [OF that(1)] that(2) by simp
  qed
  show "\<exists>j<length edges0.
        \<not> be_tag (edges0 ! j) \<and> es[k := taken] ! j = x\<lparr>be_tag := True\<rparr> \<and>
        (\<exists>r. es[k := taken] ! j = (edges0 ! j)\<lparr>be_reverse_order := r, be_tag := True\<rparr>)"
    if "x \<in> set (b @ [taken])" for x
  proof (cases "x \<in> set b")
    case True
    from d(4) [OF True] obtain j r' where j: "j < length edges0" "\<not> be_tag (edges0 ! j)"
      "es ! j = x\<lparr>be_tag := True\<rparr>"
      "es ! j = (edges0 ! j)\<lparr>be_reverse_order := r', be_tag := True\<rparr>" by blast
    have "be_tag (es ! j)" by (subst j(3)) simp
    then have "j \<noteq> k" using u by auto
    then have e: "es[k := taken] ! j = es ! j" by simp
    have "es[k := taken] ! j = x\<lparr>be_tag := True\<rparr>" using e j(3) by simp
    moreover have "\<exists>r. es[k := taken] ! j = (edges0 ! j)\<lparr>be_reverse_order := r, be_tag := True\<rparr>"
      using e j(4) by (intro exI [of _ r']) simp
    ultimately show ?thesis using j(1,2) by blast
  next
    case False
    then have x: "x = taken" using that by simp
    have e: "es[k := taken] ! k = taken" using k by simp
    have "\<not> be_tag (edges0 ! k)" using u ek by simp
    moreover have "taken = x\<lparr>be_tag := True\<rparr>" using x t by simp
    moreover have "taken = (edges0 ! k)\<lparr>be_reverse_order := r, be_tag := True\<rparr>" using t ek by simp
    ultimately have "\<not> be_tag (edges0 ! k) \<and> es[k := taken] ! k = x\<lparr>be_tag := True\<rparr> \<and>
        (\<exists>r. es[k := taken] ! k = (edges0 ! k)\<lparr>be_reverse_order := r, be_tag := True\<rparr>)"
      unfolding e by blast
    then show ?thesis using k0 by blast
  qed
qed


lemma extract_walk_consumed:
  assumes "extract_walk island first_uv cur edges border = Some y"
  shows "\<forall>edges0. consumed edges0 edges border \<and> border \<noteq> [] \<longrightarrow>
     (\<forall>b es. y = Some (b, es) \<longrightarrow>
        consumed edges0 es (border_edges b) \<and> border_edges b \<noteq> [] \<and>
        hd (border_edges b) = hd border)"
proof (rule extract_walk.raw_induct [rotated, OF assms])
  fix f island first_uv cur edges border y
  assume IH: "\<And>island first_uv cur edges border y.
      f island first_uv cur edges border = Some y \<Longrightarrow>
      \<forall>edges0. consumed edges0 edges border \<and> border \<noteq> [] \<longrightarrow>
        (\<forall>b es. y = Some (b, es) \<longrightarrow>
          consumed edges0 es (border_edges b) \<and> border_edges b \<noteq> [] \<and>
          hd (border_edges b) = hd border)"
    and step: "(if cur \<noteq> first_uv
      then case next_border_edge island cur edges 0 of
           None \<Rightarrow> Some None
           | Some None \<Rightarrow> f island first_uv cur edges border
           | Some (Some (k, taken, uv)) \<Rightarrow>
               f island first_uv uv (edges[k := taken]) (border @ [taken])
      else Some (Some (\<lparr>border_edges = border\<rparr>, edges))) = Some y"
  show "\<forall>edges0. consumed edges0 edges border \<and> border \<noteq> [] \<longrightarrow>
     (\<forall>b es. y = Some (b, es) \<longrightarrow>
        consumed edges0 es (border_edges b) \<and> border_edges b \<noteq> [] \<and>
        hd (border_edges b) = hd border)"
  proof (intro impI allI, elim conjE)
    fix edges0 b es
    assume inv: "consumed edges0 edges border" and ne: "border \<noteq> []" and y: "y = Some (b, es)"
    show "consumed edges0 es (border_edges b) \<and> border_edges b \<noteq> [] \<and>
          hd (border_edges b) = hd border"
    proof (cases "cur \<noteq> first_uv")
      case False
      then have "b = \<lparr>border_edges = border\<rparr>" and "es = edges"
        using step y by simp_all
      then show ?thesis using inv ne by simp
    next
      case True
      show ?thesis
      proof (cases "next_border_edge island cur edges 0")
        case None
        then show ?thesis using step True y by simp
      next
        case (Some r)
        show ?thesis
        proof (cases r)
          case None
          then have "f island first_uv cur edges border = Some y"
            using step True Some by simp
          from IH [OF this] inv ne y show ?thesis by blast
        next
          case (Some t)
          obtain k taken uv where t: "t = (k, taken, uv)" by (cases t)
          have n: "next_border_edge island cur edges 0 = Some (Some (k, taken, uv))"
            using \<open>next_border_edge island cur edges 0 = Some r\<close> Some t by simp
          then have w: "f island first_uv uv (edges[k := taken]) (border @ [taken]) = Some y"
            using step True by simp
          from next_border_edge_Some [OF n] obtain r where
            k: "k < length edges" "\<not> be_tag (edges ! k)"
            "taken = (edges ! k)\<lparr>be_reverse_order := r, be_tag := True\<rparr>" by auto
          have c': "consumed edges0 (edges[k := taken]) (border @ [taken])"
            using inv k by (rule consumed_step)
          have h': "hd (border @ [taken]) = hd border" using ne by simp
          from IH [OF w] c' y have "consumed edges0 es (border_edges b) \<and>
              border_edges b \<noteq> [] \<and> hd (border_edges b) = hd (border @ [taken])"
            by simp
          then show ?thesis unfolding h' .
        qed
      qed
    qed
  qed
qed

lemma extract_walk_stuck:
  assumes "cur \<noteq> first_uv" and "next_border_edge island cur edges 0 = Some None"
  shows "extract_walk island first_uv cur edges border = None"
proof (rule ccontr)
  assume "extract_walk island first_uv cur edges border \<noteq> None"
  then obtain y where y: "extract_walk island first_uv cur edges border = Some y" by auto
  have "\<not> (cur \<noteq> first_uv \<and> next_border_edge island cur edges 0 = Some None)"
  proof (rule extract_walk.raw_induct [rotated, OF y])
    fix f island first_uv cur edges border y
    assume IH: "\<And>island first_uv cur edges border y.
        f island first_uv cur edges (border :: UVBorderEdge list) = Some y \<Longrightarrow>
        \<not> (cur \<noteq> first_uv \<and> next_border_edge island cur edges 0 = Some None)"
      and step: "(if cur \<noteq> first_uv
        then case next_border_edge island cur edges 0 of
             None \<Rightarrow> Some None
             | Some None \<Rightarrow> f island first_uv cur edges border
             | Some (Some (k, taken, uv)) \<Rightarrow>
                 f island first_uv uv (edges[k := taken]) (border @ [taken])
        else Some (Some (\<lparr>border_edges = border\<rparr>, edges))) = Some y"
    show "\<not> (cur \<noteq> first_uv \<and> next_border_edge island cur edges 0 = Some None)"
    proof
      assume s: "cur \<noteq> first_uv \<and> next_border_edge island cur edges 0 = Some None"
      then have "f island first_uv cur edges border = Some y" using step by simp
      from IH [OF this] s show False by simp
    qed
  qed
  with assms show False by simp
qed


lemma consumed_start:
  assumes s: "s < length edges" and u: "\<not> be_tag (edges ! s)"
  shows "consumed edges (edges[s := (edges ! s)\<lparr>be_tag := True\<rparr>]) [edges ! s]"
proof (rule consumedI)
  let ?es = "edges[s := (edges ! s)\<lparr>be_tag := True\<rparr>]"
  show "length ?es = length edges" by simp
  show "?es ! j = edges ! j" if "j < length edges" "be_tag (edges ! j)" for j
  proof -
    have "j \<noteq> s" using that(2) u by auto
    then show ?thesis by simp
  qed
  show "?es ! j = edges ! j" if "j < length edges" "\<not> be_tag (?es ! j)" for j
  proof -
    have "j \<noteq> s" using that(2) s by auto
    then show ?thesis by simp
  qed
  show "\<exists>j<length edges. \<not> be_tag (edges ! j) \<and> ?es ! j = x\<lparr>be_tag := True\<rparr> \<and>
        (\<exists>r. ?es ! j = (edges ! j)\<lparr>be_reverse_order := r, be_tag := True\<rparr>)"
    if "x \<in> set [edges ! s]" for x
  proof -
    have x: "x = edges ! s" using that by simp
    have e: "?es ! s = (edges ! s)\<lparr>be_tag := True\<rparr>" using s by simp
    have "(edges ! s)\<lparr>be_tag := True\<rparr> =
          (edges ! s)\<lparr>be_reverse_order := be_reverse_order (edges ! s), be_tag := True\<rparr>"
      by simp
    then have "\<exists>r. ?es ! s = (edges ! s)\<lparr>be_reverse_order := r, be_tag := True\<rparr>"
      unfolding e by (rule exI)
    then show ?thesis using s u e x by blast
  qed
qed

lemma extract_from_edges_Some:
  assumes r: "extract_from_edges island edges = Some (Some (Some border, edges'))"
  shows "\<exists>s first_uv current_uv. first_untagged edges 0 = Some s \<and> s < length edges \<and>
           \<not> be_tag (edges ! s) \<and> (\<forall>j. j < s \<longrightarrow> be_tag (edges ! j)) \<and>
           border_edge_uv island (edges ! s) 0 = Some first_uv \<and>
           border_edge_uv island (edges ! s) 1 = Some current_uv \<and>
           extract_walk island first_uv current_uv (edges[s := (edges ! s)\<lparr>be_tag := True\<rparr>])
             [edges ! s] = Some (Some (border, edges'))"
proof -
  from r obtain s where s: "first_untagged edges 0 = Some s"
    by (auto simp: extract_from_edges_def split: option.splits)
  from first_untagged_Some [OF s] have s': "s < length edges" "\<not> be_tag (edges ! s)"
    "\<forall>j. j < s \<longrightarrow> be_tag (edges ! j)" by simp_all
  from r s obtain first_uv current_uv where uv:
    "border_edge_uv island (edges ! s) 0 = Some first_uv"
    "border_edge_uv island (edges ! s) 1 = Some current_uv"
    by (auto simp: extract_from_edges_def Let_def split: option.splits)
  from r s uv have "extract_walk island first_uv current_uv
      (edges[s := (edges ! s)\<lparr>be_tag := True\<rparr>]) [edges ! s] = Some (Some (border, edges'))"
    by (auto simp: extract_from_edges_def Let_def split: option.splits)
  with s s' uv show ?thesis by blast
qed

lemma extract_from_edges_closed:
  assumes r: "extract_from_edges island edges = Some (Some (Some border, edges'))"
  shows "border_closed island border"
proof -
  from extract_from_edges_Some [OF r] obtain s first_uv current_uv where
    uv: "border_edge_uv island (edges ! s) 0 = Some first_uv"
        "border_edge_uv island (edges ! s) 1 = Some current_uv"
    and w: "extract_walk island first_uv current_uv (edges[s := (edges ! s)\<lparr>be_tag := True\<rparr>])
             [edges ! s] = Some (Some (border, edges'))"
    by blast
  have "chain_inv island first_uv current_uv [edges ! s]"
    using uv by (simp add: chain_inv_def)
  with extract_walk_closed [OF w] show ?thesis by simp
qed

lemma extract_from_edges_consumed:
  assumes r: "extract_from_edges island edges = Some (Some (Some border, edges'))"
  shows "\<exists>s. first_untagged edges 0 = Some s \<and> s < length edges \<and> \<not> be_tag (edges ! s) \<and>
           (\<forall>j. j < s \<longrightarrow> be_tag (edges ! j)) \<and>
           border_edges border \<noteq> [] \<and> hd (border_edges border) = edges ! s" (is ?A)
    and "consumed edges edges' (border_edges border)" (is ?B)
proof -
  from extract_from_edges_Some [OF r] obtain s first_uv current_uv where
    s: "first_untagged edges 0 = Some s" "s < length edges" "\<not> be_tag (edges ! s)"
       "\<forall>j. j < s \<longrightarrow> be_tag (edges ! j)"
    and w: "extract_walk island first_uv current_uv (edges[s := (edges ! s)\<lparr>be_tag := True\<rparr>])
             [edges ! s] = Some (Some (border, edges'))"
    by blast
  have "consumed edges (edges[s := (edges ! s)\<lparr>be_tag := True\<rparr>]) [edges ! s]"
    using s(2,3) by (rule consumed_start)
  with extract_walk_consumed [OF w]
  have c: "consumed edges edges' (border_edges border) \<and> border_edges border \<noteq> [] \<and>
        hd (border_edges border) = hd [edges ! s]" by simp
  then show ?B by simp
  from c s show ?A by simp
qed

lemma extract_from_edges_None_iff:
  "(\<exists>edges'. extract_from_edges island edges = Some (Some (None, edges'))) \<longleftrightarrow>
   (\<forall>e \<in> set edges. be_tag e)"
proof
  assume "\<exists>edges'. extract_from_edges island edges = Some (Some (None, edges'))"
  then have "first_untagged edges 0 = None"
    by (auto simp: extract_from_edges_def Let_def split: option.splits)
  then show "\<forall>e \<in> set edges. be_tag e" by (simp add: first_untagged_None)
next
  assume "\<forall>e \<in> set edges. be_tag e"
  then have "first_untagged edges 0 = None" by (simp add: first_untagged_None)
  then show "\<exists>edges'. extract_from_edges island edges = Some (Some (None, edges'))"
    by (simp add: extract_from_edges_def)
qed



lemma border_edge_uv_cong:
  "be_edge a = be_edge b \<Longrightarrow> be_reverse_order a = be_reverse_order b \<Longrightarrow>
   border_edge_uv island a i = border_edge_uv island b i"
  by (simp add: border_edge_uv_def get_uv_vertex_def)

lemma update_indexes_length [simp]:
  "length (border_edges (update_indexes k b)) = length (border_edges b)"
  by (simp add: update_indexes_def Let_def)

lemma update_indexes_nth:
  "i < length (border_edges b) \<Longrightarrow>
   be_edge (border_edges (update_indexes k b) ! i) = be_edge (border_edges b ! i) \<and>
   be_reverse_order (border_edges (update_indexes k b) ! i) = be_reverse_order (border_edges b ! i) \<and>
   be_uv_primitive (border_edges (update_indexes k b) ! i) = be_uv_primitive (border_edges b ! i) \<and>
   be_tag (border_edges (update_indexes k b) ! i) = be_tag (border_edges b ! i) \<and>
   be_index (border_edges (update_indexes k b) ! i) = int i \<and>
   be_border_index (border_edges (update_indexes k b) ! i) = k \<and>
   be_prev_index (border_edges (update_indexes k b) ! i) =
     (int i - 1 + int (length (border_edges b))) mod int (length (border_edges b)) \<and>
   be_next_index (border_edges (update_indexes k b) ! i) = (int i + 1) mod int (length (border_edges b))"
  by (simp add: update_indexes_def Let_def)

lemma update_indexes_uv:
  "i < length (border_edges b) \<Longrightarrow>
   border_edge_uv island (border_edges (update_indexes k b) ! i) j =
   border_edge_uv island (border_edges b ! i) j"
  by (rule border_edge_uv_cong) (simp_all add: update_indexes_nth)

lemma border_closed_update_indexes:
  "border_closed island (update_indexes k b) \<longleftrightarrow> border_closed island b"
proof -
  have m: "Suc i mod length (border_edges b) < length (border_edges b)" if "i < length (border_edges b)" for i
    using that by (intro mod_less_divisor) auto
  have "border_edge_uv island (border_edges (update_indexes k b) ! i) 1 =
          border_edge_uv island (border_edges b ! i) 1 \<and>
        border_edge_uv island (border_edges (update_indexes k b) ! (Suc i mod length (border_edges b))) 0 =
          border_edge_uv island (border_edges b ! (Suc i mod length (border_edges b))) 0"
    if "i < length (border_edges b)" for i
    using that m [OF that] by (simp add: update_indexes_uv)
  then show ?thesis
    unfolding border_closed_def Let_def update_indexes_length by metis
qed

lemma border_edge_uv_toggle:
  "i \<le> 1 \<Longrightarrow>
   border_edge_uv island (e\<lparr>be_reverse_order := \<not> be_reverse_order e\<rparr>) i = border_edge_uv island e (1 - i)"
  by (cases "i = 0") (auto simp: border_edge_uv_def get_uv_vertex_def Let_def)

lemma border_closed_rev_toggle:
  assumes c: "border_closed island b"
  shows "border_closed island
           (b\<lparr>border_edges := rev (map (\<lambda>e. e\<lparr>be_reverse_order := \<not> be_reverse_order e\<rparr>) (border_edges b))\<rparr>)"
proof -
  define es where "es = border_edges b"
  define n where "n = length es"
  define fs where "fs = rev (map (\<lambda>e. e\<lparr>be_reverse_order := \<not> be_reverse_order e\<rparr>) es)"
  from c have n: "0 < n"
    and cl: "\<And>i. i < n \<Longrightarrow> border_edge_uv island (es ! i) 1 \<noteq> None \<and>
        border_edge_uv island (es ! i) 1 = border_edge_uv island (es ! (Suc i mod n)) 0"
    unfolding border_closed_def Let_def es_def n_def by blast+
  have fs: "fs ! i = (es ! (n - 1 - i))\<lparr>be_reverse_order := \<not> be_reverse_order (es ! (n - 1 - i))\<rparr>"
    if "i < n" for i
    using that by (simp add: fs_def n_def rev_nth)
  have uv: "border_edge_uv island (fs ! i) 1 = border_edge_uv island (es ! (n - 1 - i)) 0"
       "border_edge_uv island (fs ! i) 0 = border_edge_uv island (es ! (n - 1 - i)) 1"
    if "i < n" for i
    using fs [OF that] by (simp_all add: border_edge_uv_toggle)
  have "border_edge_uv island (fs ! i) 1 \<noteq> None \<and>
        border_edge_uv island (fs ! i) 1 = border_edge_uv island (fs ! (Suc i mod n)) 0"
    if i: "i < n" for i
  proof -
    define j where "j = n - 1 - (Suc i mod n)"
    have j: "j < n" using n by (simp add: j_def)
    have m: "Suc i mod n < n" using n by simp
    have succ: "Suc j mod n = n - 1 - i"
    proof (cases "i + 1 < n")
      case True
      then show ?thesis by (simp add: j_def)
    next
      case False
      then have "i + 1 = n" using i by simp
      then show ?thesis using n by (simp add: j_def)
    qed
    from cl [OF j] have "border_edge_uv island (es ! j) 1 \<noteq> None"
      "border_edge_uv island (es ! j) 1 = border_edge_uv island (es ! (n - 1 - i)) 0"
      unfolding succ by blast+
    then show ?thesis
      unfolding uv(1) [OF i] uv(2) [OF m] j_def [symmetric] by metis
  qed
  moreover have e: "border_edges (b\<lparr>border_edges :=
      rev (map (\<lambda>e. e\<lparr>be_reverse_order := \<not> be_reverse_order e\<rparr>) (border_edges b))\<rparr>) = fs"
    by (simp add: fs_def es_def)
  moreover have "length fs = n" by (simp add: fs_def n_def)
  ultimately show ?thesis
    unfolding border_closed_def Let_def using n by metis
qed

lemma flip_closed:
  assumes "border_closed island b" and "flip b = Some b'"
  shows "border_closed island b'"
proof -
  from assms(2) obtain k where
    "b' = update_indexes k (b\<lparr>border_edges :=
        rev (map (\<lambda>e. e\<lparr>be_reverse_order := \<not> be_reverse_order e\<rparr>) (border_edges b))\<rparr>)"
    by (auto simp: flip_def Let_def split: Option.bind_splits)
  then show ?thesis
    using border_closed_rev_toggle [OF assms(1)] by (simp add: border_closed_update_indexes)
qed



lemma extract_borders_loop_appended:
  assumes "extract_borders_loop island edges acc = Some (Some bs)"
  shows "\<exists>new. bs = acc @ new \<and> (\<forall>b \<in> set new. appended_border island b)"
proof -
  have "\<forall>bs. y = Some bs \<longrightarrow> (\<exists>new. bs = acc @ new \<and> (\<forall>b \<in> set new. appended_border island b))"
    if "extract_borders_loop island edges acc = Some y" for y
  proof (rule extract_borders_loop.raw_induct [rotated, OF that])
    fix f island edges acc y
    assume IH: "\<And>island edges acc y. f island edges acc = Some y \<Longrightarrow>
        \<forall>bs. y = Some bs \<longrightarrow> (\<exists>new. bs = acc @ new \<and> (\<forall>b \<in> set new. appended_border island b))"
      and step: "(case extract_from_edges island edges of None \<Rightarrow> None
        | Some None \<Rightarrow> Some None | Some (Some (None, edges1)) \<Rightarrow> Some (Some acc)
        | Some (Some (Some border, edges1)) \<Rightarrow>
            case is_ccw island border of None \<Rightarrow> Some None
            | Some ccw \<Rightarrow>
                case if \<not> ccw then flip border else Some border of
                None \<Rightarrow> Some None
                | Some oriented \<Rightarrow> f island edges1 (acc @ [oriented])) = Some y"
    show "\<forall>bs. y = Some bs \<longrightarrow> (\<exists>new. bs = acc @ new \<and> (\<forall>b \<in> set new. appended_border island b))"
    proof (intro allI impI)
      fix bs assume y: "y = Some bs"
      from step y obtain r edges1 where x: "extract_from_edges island edges = Some (Some (r, edges1))"
        by (auto split: option.splits)
      show "\<exists>new. bs = acc @ new \<and> (\<forall>b \<in> set new. appended_border island b)"
      proof (cases r)
        case None
        then have "bs = acc" using step y x by simp
        then show ?thesis by simp
      next
        case (Some border)
        from step y x Some obtain ccw oriented where
          c: "is_ccw island border = Some ccw"
          and o: "(if \<not> ccw then flip border else Some border) = Some oriented"
          and w: "f island edges1 (acc @ [oriented]) = Some y"
          by (auto split: option.splits)
        have "appended_border island oriented"
          unfolding appended_border_def using x Some c o by (cases ccw) auto
        moreover from IH [OF w] y obtain new where
          "bs = (acc @ [oriented]) @ new" "\<forall>b \<in> set new. appended_border island b" by blast
        ultimately show ?thesis by (intro exI [of _ "oriented # new"]) simp
      qed
    qed
  qed
  with assms show ?thesis by blast
qed

lemma appended_border_closed:
  assumes "appended_border island b"
  shows "border_closed island b"
proof -
  from assms obtain edges edges' e where
    x: "extract_from_edges island edges = Some (Some (Some e, edges'))"
    and o: "is_ccw island e = Some True \<and> b = e \<or> is_ccw island e = Some False \<and> flip e = Some b"
    unfolding appended_border_def by blast
  have "border_closed island e" using x by (rule extract_from_edges_closed)
  then show ?thesis using o flip_closed by blast
qed

lemma extract_borders_appended:
  assumes "extract_borders island = Some (Some island')"
  shows "\<exists>new. island' = island\<lparr>borders := borders island @ new\<rparr> \<and>
           (\<forall>b \<in> set new. appended_border island b)"
proof -
  from assms obtain edges bs where
    l: "extract_borders_loop island edges (borders island) = Some (Some bs)"
    and i: "island' = island\<lparr>borders := bs\<rparr>"
    by (auto simp: extract_borders_def split: option.splits)
  from extract_borders_loop_appended [OF l] i show ?thesis by blast
qed


section \<open>The extendability flags are kept by the extension\<close>






















lemma set_border_flags [simp]: "flags_of (set_border island b border) = flags_of island"
  by (simp add: set_border_def flags_of_def)








section \<open>Corner selection\<close>




























section \<open>The rounds of the extension pass\<close>








lemma filter_update_less:
  assumes "p < length xs" "P (xs ! p)" "\<not> P y"
  shows "length (filter P (xs[p := y])) < length (filter P xs)"
proof -
  have xs: "xs = take p xs @ xs ! p # drop (Suc p) xs"
    using assms(1) by (simp add: id_take_nth_drop)
  have "xs[p := y] = take p xs @ y # drop (Suc p) xs"
    using assms(1) by (simp add: upd_conv_take_nth_drop)
  then have "length (filter P (xs[p := y])) =
      length (filter P (take p xs)) + length (filter P (drop (Suc p) xs))"
    using assms(3) by simp
  moreover have "length (filter P xs) =
      length (filter P (take p xs)) + 1 + length (filter P (drop (Suc p) xs))"
    by (subst xs) (use assms(2) in simp)
  ultimately show ?thesis by simp
qed












lemma renumber_borders_flags [simp]: "flags_of (renumber_borders island) = flags_of island"
  by (simp add: renumber_borders_def flags_of_def)

lemma renumber_borders_vertices [simp]: "uv_vertices (renumber_borders island) = uv_vertices island"
  by (simp add: renumber_borders_def)











lemma extend_corner_outside:
  assumes p: "corner_vertex island c = Some p" and v: "the_vertex island p = Some v"
    and t: "find_tile F m (uvv_uv v) = None \<or>
            (\<exists>tile. find_tile F m (uvv_uv v) = Some tile \<and>
                    is_masked F tile island_index (uvv_uv v) = Some False)"
  shows "extend_corner F mesh m island_index island c =
         Some (Some (island\<lparr>uv_vertices := (uv_vertices island)[p := v\<lparr>is_extended := True\<rparr>]\<rparr>))"
  using t p v by (auto simp: extend_corner_def set_is_extended_def)




section \<open>Tiles of the mask\<close>


lemma IN_RANGE_unit: "IN_RANGE a 0 1 \<longleftrightarrow> 0 < a \<and> a < 1"
  by (simp add: IN_RANGE_def)

lemma IN_RANGE_unit_Ints: "a \<in> \<int> \<Longrightarrow> \<not> IN_RANGE a 0 1"
proof
  assume "a \<in> \<int>" and "IN_RANGE a 0 1"
  then obtain z :: int where "a = of_int z" and "0 < a" "a < 1"
    by (auto simp: IN_RANGE_unit elim: Ints_cases)
  then have "0 < z" "z < 1" by simp_all
  then show False by simp
qed

lemma find_tile_None: "find_tile F m uv = None \<longleftrightarrow> (\<forall>tile \<in> set (tiles m). \<not> contains F tile uv)"
  by (auto simp: find_tile_def find_None_iff)


section \<open>The example island\<close>


lemma tri_build: "UVIslands_island tri_mesh 0 = Some tri_island"
  by (simp add: UVIslands_island_def tri_mesh_def add_primitive_def add_primitive_edge_def
      nth_opt_def get_uv_vert_def UVIsland_empty_def lookup_or_create_vertex_def lookup_vertex_def
      UVVertex_init_def lookup_or_create_edge_def lookup_edge_def same_end_points_def
      the_primitive_def edge_append_to_uv_vertices_def register_edge_at_def the_edge_def
      the_vertex_def edge_append_primitive_def append_non_duplicates_def tri_island_def Let_def)

lemma tri_angles:
  "slot_angle real_ops tri_ready (0, 0) = Some (3 * pi / 2)"
  "slot_angle real_ops tri_ready (0, 1) = Some (7 * pi / 4)"
  "slot_angle real_ops tri_ready (0, 2) = Some (7 * pi / 4)"
  by (simp_all add: slot_angle_def tri_ready_def nth_opt_def nth_int_def outside_angle_def real_ops_def
      border_edge_uv_def get_uv_vertex_def the_edge_def vertex_uv_def the_vertex_def
      angle_signed_v2v2_def sub_v2_def dot_v2v2_def real_atan2_def arctan_one Let_def)




lemma tri_fan: "Fan_init tri_mesh v \<noteq> None"
proof (cases "v < 3")
  case False
  then show ?thesis by (simp add: Fan_init_def tri_mesh_def nth_opt_def)
next
  case True
  then have "v = 0 \<or> v = 1 \<or> v = 2" by auto
  then show ?thesis
    by (auto simp: Fan_init_def tri_mesh_def nth_opt_def Fan_loop.simps)
qed


lemma tri_corner_vertex:
  "corner_vertex tri_ready tri_corner = Some 0" "the_vertex tri_ready 0 = Some tri_vertex0"
  by (simp_all add: corner_vertex_def tri_corner_def tri_ready_def the_border_edge_def nth_opt_def
      get_uv_vertex_def the_edge_def the_vertex_def tri_vertex0_def)









subsection \<open>The mesh that is not manifold\<close>


















subsection \<open>The book of three triangles\<close>


lemma book_build: "UVIslands_island book_mesh 0 = Some book_island"
  by code_simp

lemma book_candidates_eq: "border_candidates book_island = Some book_candidates"
  by (simp add: border_candidates_def border_candidates_of_def book_island_def book_candidates_def
      the_primitive_def the_edge_def nth_opt_def is_border_edge_def upt_rec numeral_2_eq_2)

lemma book_first:
  "extract_from_edges book_island book_candidates = Some (Some (Some book_border, book_rest))"
  by (simp add: extract_from_edges_def book_candidates_def book_border_def book_rest_def
      extract_walk.simps book_island_def UVBorderEdge_init_def the_edge_def vertex_uv_def
      the_vertex_def nth_opt_def border_edge_uv_def get_uv_vertex_def)

lemma book_second: "extract_from_edges book_island book_rest = None"
proof -
  define t4 where "t4 = (UVBorderEdge_init 5 2)\<lparr>be_tag := True\<rparr>"
  define t5 where "t5 = (UVBorderEdge_init 6 2)\<lparr>be_reverse_order := False, be_tag := True\<rparr>"
  define es1 where "es1 = book_rest[4 := t4]"
  define es2 where "es2 = es1[5 := t5]"
  have f: "first_untagged book_rest 0 = Some 4"
    by (simp add: book_rest_def UVBorderEdge_init_def)
  have s: "book_rest ! 4 = UVBorderEdge_init 5 2" by (simp add: book_rest_def)
  have u: "border_edge_uv book_island (UVBorderEdge_init 5 2) 0 = Some (4, 0)"
    "border_edge_uv book_island (UVBorderEdge_init 5 2) 1 = Some (2, 1)"
    by (simp_all add: book_island_def UVBorderEdge_init_def the_edge_def vertex_uv_def
        the_vertex_def nth_opt_def border_edge_uv_def get_uv_vertex_def)
  have n1: "next_border_edge book_island (2, 1) es1 0 = Some (Some (5, t5, (0, 0)))"
    by (simp add: es1_def t4_def t5_def book_rest_def book_island_def UVBorderEdge_init_def
        the_edge_def vertex_uv_def the_vertex_def nth_opt_def border_edge_uv_def get_uv_vertex_def)
  have n2: "next_border_edge book_island (0, 0) es2 0 = Some None"
    by (simp add: es2_def es1_def t4_def t5_def book_rest_def UVBorderEdge_init_def)
  have "extract_walk book_island (4, 0) (0, 0) es2 ([UVBorderEdge_init 5 2] @ [t5]) = None"
    by (rule extract_walk_stuck [OF _ n2]) simp
  then have "extract_walk book_island (4, 0) (2, 1) es1 [UVBorderEdge_init 5 2] = None"
    by (subst extract_walk.simps) (simp add: n1 es2_def)
  moreover have "border_edge_uv book_island (UVBorderEdge_init 5 2) (Suc 0) = Some (2, 1)"
    using u(2) by simp
  ultimately show ?thesis
    by (simp add: extract_from_edges_def f s u es1_def t4_def Let_def)
qed


section \<open>The fan of a vertex in a mesh whose edges have at most two triangles\<close>






















section \<open>The walk along a border returns on closed candidates\<close>


lemma untagged_degree_simps:
  "untagged_degree island [] x = 0"
  "untagged_degree island (b # edges) x =
     (if be_tag b then 0 else ends_at island x b) + untagged_degree island edges x"
  by (simp_all add: untagged_degree_def)

lemma end_points_simps:
  "end_points island [] = []"
  "end_points island (b # edges) =
     (case edge_ends island b of None \<Rightarrow> [] | Some (uv0, uv1) \<Rightarrow> [uv0, uv1]) @ end_points island edges"
  by (simp_all add: end_points_def)

lemma ends_at_zero:
  "x \<notin> set (case edge_ends island b of None \<Rightarrow> [] | Some (uv0, uv1) \<Rightarrow> [uv0, uv1]) \<Longrightarrow>
   ends_at island x b = 0"
  by (cases "edge_ends island b") (auto simp: ends_at_def)

lemma untagged_degree_zero:
  assumes "x \<notin> set (end_points island edges)"
  shows "untagged_degree island edges x = 0"
  using assms
proof (induction edges)
  case Nil
  then show ?case by (simp add: untagged_degree_simps)
next
  case (Cons b edges)
  then have "ends_at island x b = 0" "untagged_degree island edges x = 0"
    by (simp_all add: end_points_simps ends_at_zero)
  then show ?case by (simp add: untagged_degree_simps)
qed

lemma closed_candidates_even:
  assumes "closed_candidates island edges"
  shows "even (untagged_degree island edges x)"
proof (cases "x \<in> set (end_points island edges)")
  case True
  with assms show ?thesis by (simp add: closed_candidates_def list_all_iff)
next
  case False
  then show ?thesis by (simp add: untagged_degree_zero)
qed

lemma closed_candidates_ends:
  "closed_candidates island edges \<Longrightarrow> b \<in> set edges \<Longrightarrow> edge_ends island b \<noteq> None"
  by (simp add: closed_candidates_def list_all_iff)

lemma edge_ends_fields [simp]:
  "edge_ends island (b\<lparr>be_reverse_order := r\<rparr>) = edge_ends island b"
  "edge_ends island (b\<lparr>be_tag := t\<rparr>) = edge_ends island b"
  by (simp_all add: edge_ends_def)

lemma ends_at_fields [simp]:
  "ends_at island x (b\<lparr>be_reverse_order := r\<rparr>) = ends_at island x b"
  "ends_at island x (b\<lparr>be_tag := t\<rparr>) = ends_at island x b"
  by (simp_all add: ends_at_def)

lemma sum_list_map_update:
  fixes f :: "'a \<Rightarrow> nat"
  assumes "k < length xs"
  shows "sum_list (map f (xs[k := y])) + f (xs ! k) = sum_list (map f xs) + f y"
  using assms
proof (induction xs arbitrary: k)
  case Nil
  then show ?case by simp
next
  case (Cons a xs)
  then show ?case by (cases k) auto
qed

lemma untagged_degree_take:
  assumes k: "k < length edges" and u: "\<not> be_tag (edges ! k)" and t: "be_tag taken"
  shows "untagged_degree island (edges[k := taken]) x + ends_at island x (edges ! k) =
         untagged_degree island edges x"
  using sum_list_map_update [OF k, of "\<lambda>b. if be_tag b then 0 else ends_at island x b" taken] u t
  by (simp add: untagged_degree_def)

lemma untagged_degree_pos:
  assumes "0 < untagged_degree island edges x"
  shows "\<exists>b \<in> set edges. \<not> be_tag b \<and> 0 < ends_at island x b"
  using assms
proof (induction edges)
  case Nil
  then show ?case by (simp add: untagged_degree_simps)
next
  case (Cons b edges)
  show ?case
  proof (cases "\<not> be_tag b \<and> 0 < ends_at island x b")
    case True
    then show ?thesis by simp
  next
    case False
    then have "(if be_tag b then 0 else ends_at island x b) = 0" by auto
    with Cons.prems have "0 < untagged_degree island edges x"
      by (simp add: untagged_degree_simps)
    from Cons.IH [OF this] show ?thesis by auto
  qed
qed

lemma border_edge_uv_ends:
  assumes "edge_ends island b = Some (uv0, uv1)"
  shows "border_edge_uv island (b\<lparr>be_reverse_order := r, be_tag := t\<rparr>) 0 = Some (if r then uv1 else uv0)"
    and "border_edge_uv island (b\<lparr>be_reverse_order := r, be_tag := t\<rparr>) 1 = Some (if r then uv0 else uv1)"
  using assms
  by (auto simp: edge_ends_def border_edge_uv_def get_uv_vertex_def split: Option.bind_splits)

lemma next_border_edge_exists:
  assumes "\<forall>b \<in> set es. edge_ends island b \<noteq> None"
    and "\<exists>b \<in> set es. \<not> be_tag b \<and> 0 < ends_at island cur b"
  shows "\<exists>r. next_border_edge island cur es k = Some (Some r)"
  using assms
proof (induction es arbitrary: k)
  case Nil
  then show ?case by simp
next
  case (Cons a es)
  from Cons.prems(1) obtain uv0 uv1 where ends: "edge_ends island a = Some (uv0, uv1)" by auto
  then obtain e where e: "the_edge island (be_edge a) = Some e"
    "vertex_uv island (fst (uve_vertices e)) = Some uv0"
    "vertex_uv island (snd (uve_vertices e)) = Some uv1"
    by (auto simp: edge_ends_def split: Option.bind_splits)
  show ?case
  proof (cases "\<not> be_tag a \<and> 0 < ends_at island cur a")
    case True
    then have c: "uv0 = cur \<or> uv1 = cur"
      by (auto simp: ends_at_def ends split: if_splits)
    show ?thesis
    proof (cases "uv0 = cur")
      case u: True
      from border_edge_uv_ends(2) [OF ends, where r = False and t = True]
      have "border_edge_uv island (a\<lparr>be_reverse_order := False, be_tag := True\<rparr>) 1 = Some uv1" by simp
      with True e u show ?thesis by simp
    next
      case u: False
      with c have u1: "uv1 = cur" by simp
      from border_edge_uv_ends(2) [OF ends, where r = True and t = True]
      have "border_edge_uv island (a\<lparr>be_reverse_order := True, be_tag := True\<rparr>) 1 = Some uv0" by simp
      with True e u u1 show ?thesis by simp
    qed
  next
    case False
    with Cons.prems(2) have ex: "\<exists>b \<in> set es. \<not> be_tag b \<and> 0 < ends_at island cur b" by auto
    from Cons.prems(1) have v: "\<forall>b \<in> set es. edge_ends island b \<noteq> None" by simp
    from Cons.IH [OF v ex] have ih: "\<exists>r. next_border_edge island cur es (Suc k) = Some (Some r)" .
    show ?thesis
    proof (cases "be_tag a")
      case True
      with ih show ?thesis by simp
    next
      case t: False
      with False have "ends_at island cur a = 0" by simp
      then have "uv0 \<noteq> cur" "uv1 \<noteq> cur" by (auto simp: ends_at_def ends split: if_splits)
      with t e ih show ?thesis by simp
    qed
  qed
qed




lemma extract_walk_returns:
  assumes valid: "\<forall>b \<in> set edges. edge_ends island b \<noteq> None"
    and inv: "cur \<noteq> first \<Longrightarrow>
      odd (untagged_degree island edges cur) \<and> odd (untagged_degree island edges first) \<and>
      (\<forall>x. x \<noteq> cur \<and> x \<noteq> first \<longrightarrow> even (untagged_degree island edges x))"
    and n: "length (filter (\<lambda>b. \<not> be_tag b) edges) = n"
  shows "\<exists>r. extract_walk island first cur edges border = Some (Some r)"
  using assms
proof (induction n arbitrary: cur edges border rule: less_induct)
  case (less n)
  show ?case
  proof (cases "cur = first")
    case True
    then show ?thesis by (subst extract_walk.simps) simp
  next
    case False
    note i = less.prems(2) [OF False]
    from i have "0 < untagged_degree island edges cur" by (auto elim: oddE)
    from untagged_degree_pos [OF this]
    have "\<exists>b \<in> set edges. \<not> be_tag b \<and> 0 < ends_at island cur b" .
    from next_border_edge_exists [OF less.prems(1) this, of 0] obtain k taken uv where
      nx: "next_border_edge island cur edges 0 = Some (Some (k, taken, uv))"
      by (auto simp del: split_paired_Ex)
    from next_border_edge_Some [OF nx] obtain r where
      k: "k < length edges" and u: "\<not> be_tag (edges ! k)"
      and t: "taken = (edges ! k)\<lparr>be_reverse_order := r, be_tag := True\<rparr>"
      and b0: "border_edge_uv island taken 0 = Some cur"
      and b1: "border_edge_uv island taken 1 = Some uv"
      by auto
    from less.prems(1) k obtain uv0 uv1 where ends: "edge_ends island (edges ! k) = Some (uv0, uv1)"
      by (metis nth_mem not_None_eq surj_pair)
    from border_edge_uv_ends [OF ends, where r = r and t = True] b0 b1 t
    have c: "(if r then uv1 else uv0) = cur" "(if r then uv0 else uv1) = uv" by simp_all
    have e: "ends_at island x (edges ! k) = (if cur = x then 1 else 0) + (if uv = x then 1 else 0)" for x
      using c by (cases r) (auto simp: ends_at_def ends)
    let ?es = "edges[k := taken]"
    have tk: "be_tag taken" by (simp add: t)
    have d: "untagged_degree island ?es x + ((if cur = x then 1 else 0) + (if uv = x then 1 else 0)) =
             untagged_degree island edges x" for x
      using untagged_degree_take [OF k u tk, of island x] by (simp add: e)
    have valid': "\<forall>b \<in> set ?es. edge_ends island b \<noteq> None"
    proof
      fix b
      assume "b \<in> set ?es"
      then have "b = taken \<or> b \<in> set edges" using set_update_subset_insert by fastforce
      then show "edge_ends island b \<noteq> None"
        using less.prems(1) ends by (auto simp: t)
    qed
    have p: "even (untagged_degree island ?es x) \<longleftrightarrow>
        (even (untagged_degree island edges x) \<longleftrightarrow>
         even ((if cur = x then 1 else 0) + (if uv = x then 1 else (0 :: nat))))" for x
    proof -
      have "even (untagged_degree island ?es x + ((if cur = x then 1 else 0) + (if uv = x then 1 else 0))) \<longleftrightarrow>
            even (untagged_degree island edges x)"
        by (simp only: d)
      then show ?thesis by (simp only: even_add) blast
    qed
    have inv': "odd (untagged_degree island ?es uv) \<and> odd (untagged_degree island ?es first) \<and>
        (\<forall>x. x \<noteq> uv \<and> x \<noteq> first \<longrightarrow> even (untagged_degree island ?es x))" if "uv \<noteq> first"
    proof (intro conjI allI impI)
      have ic: "odd (untagged_degree island edges cur)" and "odd (untagged_degree island edges first)"
        and io: "\<And>x. x \<noteq> cur \<Longrightarrow> x \<noteq> first \<Longrightarrow> even (untagged_degree island edges x)"
        using i by blast+
      show "odd (untagged_degree island ?es uv)"
      proof (cases "uv = cur")
        case True
        with p [of cur] ic show ?thesis by simp
      next
        case f: False
        with io [of uv] that have "even (untagged_degree island edges uv)" by simp
        with p [of uv] f show ?thesis by simp
      qed
      show "odd (untagged_degree island ?es first)"
        using p [of first] \<open>odd (untagged_degree island edges first)\<close> that False by simp
      show "even (untagged_degree island ?es x)" if x: "x \<noteq> uv \<and> x \<noteq> first" for x
      proof (cases "x = cur")
        case True
        with p [of cur] ic x show ?thesis by auto
      next
        case f: False
        with io [of x] x have "even (untagged_degree island edges x)" by simp
        with p [of x] f x show ?thesis by auto
      qed
    qed
    have m: "length (filter (\<lambda>b. \<not> be_tag b) ?es) < n"
      using filter_update_less [of k edges "\<lambda>b. \<not> be_tag b" taken] k u tk less.prems(3) by simp
    from less.IH [OF m valid' inv' refl, of "border @ [taken]"] obtain r' where
      "extract_walk island first uv ?es (border @ [taken]) = Some (Some r')" by blast
    then show ?thesis
      using False nx by (subst extract_walk.simps) simp
  qed
qed




lemma extract_from_edges_returns:
  assumes c: "closed_candidates island edges" and u: "\<not> (\<forall>e \<in> set edges. be_tag e)"
  shows "\<exists>border edges'. extract_from_edges island edges = Some (Some (Some border, edges'))"
proof -
  from u obtain s where fs: "first_untagged edges 0 = Some s"
    using first_untagged_None [of edges 0] by auto
  from first_untagged_Some [OF fs] have s: "s < length edges" and us: "\<not> be_tag (edges ! s)"
    by simp_all
  let ?b = "edges ! s"
  have valid: "\<forall>b \<in> set edges. edge_ends island b \<noteq> None"
    using closed_candidates_ends [OF c] by blast
  with s obtain uv0 uv1 where ends: "edge_ends island ?b = Some (uv0, uv1)"
    by (metis nth_mem not_None_eq surj_pair)
  define r where "r = be_reverse_order ?b"
  have same: "?b\<lparr>be_reverse_order := r, be_tag := be_tag ?b\<rparr> = ?b" by (simp add: r_def)
  define first where "first = (if r then uv1 else uv0)"
  define cur where "cur = (if r then uv0 else uv1)"
  from border_edge_uv_ends [OF ends, where r = r and t = "be_tag ?b"]
  have b0: "border_edge_uv island ?b 0 = Some first" and b1: "border_edge_uv island ?b 1 = Some cur"
    by (simp_all add: same first_def cur_def)
  let ?es = "edges[s := ?b\<lparr>be_tag := True\<rparr>]"
  have e: "ends_at island x ?b = (if first = x then 1 else 0) + (if cur = x then 1 else 0)" for x
    by (cases r) (auto simp: ends_at_def ends first_def cur_def)
  have d: "untagged_degree island ?es x + ((if first = x then 1 else 0) + (if cur = x then 1 else 0)) =
           untagged_degree island edges x" for x
    using untagged_degree_take [OF s us, of "?b\<lparr>be_tag := True\<rparr>" island x] by (simp add: e)
  have p: "even (untagged_degree island ?es x) \<longleftrightarrow>
      even ((if first = x then 1 else 0) + (if cur = x then 1 else (0 :: nat)))" for x
  proof -
    have "even (untagged_degree island ?es x + ((if first = x then 1 else 0) + (if cur = x then 1 else 0))) \<longleftrightarrow>
          even (untagged_degree island edges x)"
      by (simp only: d)
    with closed_candidates_even [OF c, of x] show ?thesis by (simp only: even_add)
  qed
  have valid': "\<forall>b \<in> set ?es. edge_ends island b \<noteq> None"
  proof
    fix b
    assume "b \<in> set ?es"
    then have "b = ?b\<lparr>be_tag := True\<rparr> \<or> b \<in> set edges" using set_update_subset_insert by fastforce
    then show "edge_ends island b \<noteq> None" using valid ends by auto
  qed
  have inv: "odd (untagged_degree island ?es cur) \<and> odd (untagged_degree island ?es first) \<and>
      (\<forall>x. x \<noteq> cur \<and> x \<noteq> first \<longrightarrow> even (untagged_degree island ?es x))" if "cur \<noteq> first"
    using that p [of cur] p [of first] p by auto
  from extract_walk_returns [OF valid' inv refl, of "[?b]"] obtain res where
    w: "extract_walk island first cur ?es [?b] = Some (Some res)" by blast
  obtain border edges' where "res = (border, edges')" by (cases res)
  with w fs b0 b1 have "extract_from_edges island edges = Some (Some (Some border, edges'))"
    by (simp add: extract_from_edges_def Let_def)
  then show ?thesis by blast
qed


section \<open>The claims\<close>

text \<open>
  C9. In a tile where the single cell \<open>(x, y)\<close> is claimed by island \<open>K\<close> and every other cell is
  unclaimed, \<^verbatim>\<open>dilate(1)\<close> gives \<open>K\<close> to every direct 4-neighbour of \<open>(x, y)\<close> that exists in the
  grid, and \<^verbatim>\<open>dilate(0)\<close> leaves the whole mask unchanged.
\<close>

theorem C9_dilate_single_claim:
  assumes "i < length (tiles m)" and "single_claim (tiles m ! i) x y K"
  shows "(let w = fst (mask_resolution (tiles m ! i)); h = snd (mask_resolution (tiles m ! i));
              after = mask (tiles (dilate m 1) ! i) in
          (0 < x \<longrightarrow> after ! (y * w + x - 1) = K) \<and>
          (x + 1 < w \<longrightarrow> after ! (y * w + x + 1) = K) \<and>
          (0 < y \<longrightarrow> after ! ((y - 1) * w + x) = K) \<and>
          (y + 1 < h \<longrightarrow> after ! ((y + 1) * w + x) = K)) \<and>
         dilate m 0 = m"
proof -
  have t: "tiles (dilate m 1) ! i = dilate_tile (tiles m ! i) 1"
    using assms(1) by (simp add: dilate_def)
  have "map (\<lambda>t. dilate_tile t 0) (tiles m) = tiles m"
    by (simp add: dilate_tile_zero)
  then have z: "dilate m 0 = m" by (simp add: dilate_def)
  show ?thesis
    unfolding Let_def t using single_claim_dilate_neighbours [OF assms(2)] z by blast
qed

theorem C9_dilate_single_claim_witness:
  "0 < length (tiles centre_mask) \<and> single_claim (tiles centre_mask ! 0) 1 1 0 \<and>
   mask (tiles (dilate centre_mask 1) ! 0) ! 3 = 0 \<and>
   mask (tiles (dilate centre_mask 1) ! 0) ! 5 = 0 \<and>
   mask (tiles (dilate centre_mask 1) ! 0) ! 1 = 0 \<and>
   mask (tiles (dilate centre_mask 1) ! 0) ! 7 = 0 \<and>
   dilate centre_mask 0 = centre_mask"
proof -
  have l: "0 < length (tiles centre_mask)" by (simp add: centre_mask_def)
  have "replicate (3 * 3) a = [a, a, a, a, a, a, a, a, a]" for a :: "16 word"
    by (simp add: numeral_eq_Suc)
  then have s: "single_claim (tiles centre_mask ! 0) 1 1 0"
    by (simp add: centre_mask_def centre_tile_def single_claim_def Let_def)
  have r: "mask_resolution (tiles centre_mask ! 0) = (3, 3)"
    by (simp add: centre_mask_def centre_tile_def)
  show ?thesis
    using C9_dilate_single_claim [OF l s] l s by (simp add: Let_def r)
qed

text \<open>
  C2. Every border returned by \<^verbatim>\<open>UVBorder::extract_from_edges\<close>, and every border appended by
  \<^verbatim>\<open>UVIsland::extract_borders\<close>, is cyclically closed: the UV coordinate at the end of each
  edge is the UV coordinate at the start of the next one, the last edge leading back to the
  first.
\<close>

theorem C2_border_closure:
  "(extract_from_edges island edges = Some (Some (Some border, edges')) \<longrightarrow>
      border_closed island border) \<and>
   (extract_borders island = Some (Some island') \<longrightarrow>
      (\<exists>new. borders island' = borders island @ new \<and>
         (\<forall>b \<in> set new. border_closed island' b)))"
proof (intro conjI impI)
  assume "extract_from_edges island edges = Some (Some (Some border, edges'))"
  then show "border_closed island border" by (rule extract_from_edges_closed)
next
  assume "extract_borders island = Some (Some island')"
  from extract_borders_appended [OF this] obtain new where
    i: "island' = island\<lparr>borders := borders island @ new\<rparr>"
    and a: "\<forall>b \<in> set new. appended_border island b" by blast
  have "border_closed island' b = border_closed island b" for b
    by (simp add: i border_closed_def border_edge_uv_def get_uv_vertex_def the_edge_def
        vertex_uv_def the_vertex_def)
  then show "\<exists>new. borders island' = borders island @ new \<and>
         (\<forall>b \<in> set new. border_closed island' b)"
    using i a appended_border_closed by auto
qed

theorem C2_border_closure_witness:
  "extract_from_edges tri_island tri_candidates = Some (Some (Some tri_border, tri_tagged)) \<and>
   border_closed tri_island tri_border \<and>
   extract_borders tri_island = Some (Some (tri_island\<lparr>borders := [tri_border]\<rparr>)) \<and>
   border_closed (tri_island\<lparr>borders := [tri_border]\<rparr>) tri_border"
proof -
  have x: "extract_from_edges tri_island tri_candidates = Some (Some (Some tri_border, tri_tagged))"
    by (simp add: extract_from_edges_def tri_candidates_def tri_border_def tri_tagged_def
        extract_walk.simps tri_island_def UVBorderEdge_init_def the_edge_def vertex_uv_def
        the_vertex_def nth_opt_def border_edge_uv_def get_uv_vertex_def)
  have t: "\<forall>e \<in> set tri_tagged. be_tag e" by (simp add: tri_tagged_def)
  have n: "extract_from_edges tri_island tri_tagged = Some (Some (None, tri_tagged))"
    using t by (simp add: extract_from_edges_def first_untagged_None [THEN iffD2])
  have c: "border_candidates tri_island = Some tri_candidates"
    by (simp add: border_candidates_def border_candidates_of_def tri_island_def tri_candidates_def
        the_primitive_def the_edge_def nth_opt_def is_border_edge_def)
  have w: "is_ccw tri_island tri_border = Some True"
    by (simp add: is_ccw_def tri_border_def tri_island_def UVBorderEdge_init_def the_edge_def
        vertex_uv_def the_vertex_def the_primitive_def nth_opt_def border_edge_uv_def
        get_uv_vertex_def get_other_uv_vertex_def prim_get_other_uv_vertex_def
        prim_end_points_def cross_poly_v2_def)
  have b: "borders tri_island = []" by (simp add: tri_island_def)
  have l: "extract_borders_loop tri_island tri_candidates [] = Some (Some [tri_border])"
    by (subst extract_borders_loop.simps, simp add: x w, subst extract_borders_loop.simps,
        simp add: n)
  have e: "extract_borders tri_island = Some (Some (tri_island\<lparr>borders := [tri_border]\<rparr>))"
    by (simp add: extract_borders_def c b l)
  show ?thesis
    using C2_border_closure [of tri_island tri_candidates tri_border tri_tagged
      "tri_island\<lparr>borders := [tri_border]\<rparr>"] x e b
    by simp
qed











text \<open>
  \<^bold>\<open>Claim C8 (amended).\<close> \<^verbatim>\<open>UVBorder::extract_from_edges\<close> returns no value exactly when every
  candidate is already tagged. Otherwise, when the candidates are closed borders (every UV
  coordinate is an end point of an even number of untagged candidates), it returns a border;
  the border starts with the first untagged candidate, and every edge of the border is a
  candidate that was untagged and that the call has tagged, the other candidates being as
  they were.
\<close>

theorem C8_extract_from_edges_result:
  "((\<exists>edges'. extract_from_edges island edges = Some (Some (None, edges'))) \<longleftrightarrow>
      (\<forall>e \<in> set edges. be_tag e)) \<and>
   (closed_candidates island edges \<and> \<not> (\<forall>e \<in> set edges. be_tag e) \<longrightarrow>
      (\<exists>border edges'. extract_from_edges island edges = Some (Some (Some border, edges')) \<and>
         (\<exists>s<length edges. \<not> be_tag (edges ! s) \<and> (\<forall>j. j < s \<longrightarrow> be_tag (edges ! j)) \<and>
            border_edges border \<noteq> [] \<and> hd (border_edges border) = edges ! s) \<and>
         consumed edges edges' (border_edges border)))"
proof (intro conjI impI)
  show "(\<exists>edges'. extract_from_edges island edges = Some (Some (None, edges'))) \<longleftrightarrow>
      (\<forall>e \<in> set edges. be_tag e)"
    by (rule extract_from_edges_None_iff)
next
  assume "closed_candidates island edges \<and> \<not> (\<forall>e \<in> set edges. be_tag e)"
  then obtain border edges' where
    r: "extract_from_edges island edges = Some (Some (Some border, edges'))"
    using extract_from_edges_returns by blast
  from extract_from_edges_consumed [OF r] r
  show "\<exists>border edges'. extract_from_edges island edges = Some (Some (Some border, edges')) \<and>
         (\<exists>s<length edges. \<not> be_tag (edges ! s) \<and> (\<forall>j. j < s \<longrightarrow> be_tag (edges ! j)) \<and>
            border_edges border \<noteq> [] \<and> hd (border_edges border) = edges ! s) \<and>
         consumed edges edges' (border_edges border)"
    by blast
qed

theorem C8_extract_from_edges_result_witness:
  "closed_candidates tri_island tri_candidates \<and> \<not> be_tag (tri_candidates ! 0) \<and>
   extract_from_edges tri_island tri_candidates = Some (Some (Some tri_border, tri_tagged)) \<and>
   hd (border_edges tri_border) = tri_candidates ! 0 \<and>
   consumed tri_candidates tri_tagged (border_edges tri_border) \<and>
   extract_from_edges tri_island tri_tagged = Some (Some (None, tri_tagged))"
proof -
  have c: "closed_candidates tri_island tri_candidates"
    by (simp add: closed_candidates_def end_points_def untagged_degree_def ends_at_def
        edge_ends_def tri_island_def tri_candidates_def UVBorderEdge_init_def the_edge_def
        vertex_uv_def the_vertex_def nth_opt_def)
  have u: "\<not> be_tag (tri_candidates ! 0)" by (simp add: tri_candidates_def UVBorderEdge_init_def)
  then have nt: "\<not> (\<forall>e \<in> set tri_candidates. be_tag e)"
    by (auto simp: tri_candidates_def)
  have x: "extract_from_edges tri_island tri_candidates = Some (Some (Some tri_border, tri_tagged))"
    by (simp add: extract_from_edges_def tri_candidates_def tri_border_def tri_tagged_def
        extract_walk.simps tri_island_def UVBorderEdge_init_def the_edge_def vertex_uv_def
        the_vertex_def nth_opt_def border_edge_uv_def get_uv_vertex_def)
  have t: "\<forall>e \<in> set tri_tagged. be_tag e" by (simp add: tri_tagged_def)
  have h: "hd (border_edges tri_border) = tri_candidates ! 0"
    by (simp add: tri_border_def tri_candidates_def)
  from C8_extract_from_edges_result [of tri_island tri_candidates] c nt x
  have k: "consumed tri_candidates tri_tagged (border_edges tri_border)" by auto
  from C8_extract_from_edges_result [of tri_island tri_tagged] t
  obtain edges' where "extract_from_edges tri_island tri_tagged = Some (Some (None, edges'))"
    by blast
  moreover have "first_untagged tri_tagged 0 = None"
    using t by (simp add: first_untagged_None)
  ultimately have "extract_from_edges tri_island tri_tagged = Some (Some (None, tri_tagged))"
    by (simp add: extract_from_edges_def)
  with k show ?thesis using c u x h by simp
qed

text \<open>
  The claim as stated fails on the UV island of \<open>book_mesh\<close>, three triangles on one edge.
  \<^verbatim>\<open>add_primitive\<close> builds the island and \<^verbatim>\<open>extract_borders\<close> collects six candidates. The first
  call of \<^verbatim>\<open>extract_from_edges\<close> returns the border around the first two triangles. Two
  candidates are then left untagged, and the second call does not return: its walk goes
  from \<open>(4,0)\<close> over \<open>(2,1)\<close> to \<open>(0,0)\<close>, where no untagged candidate continues it.
\<close>

theorem C8_no_return_counterexample:
  "UVIslands_island book_mesh 0 = Some book_island \<and>
   border_candidates book_island = Some book_candidates \<and>
   extract_from_edges book_island book_candidates = Some (Some (Some book_border, book_rest)) \<and>
   \<not> be_tag (book_rest ! 4) \<and>
   extract_from_edges book_island book_rest = None"
  using book_build book_candidates_eq book_first book_second
  by (simp add: book_rest_def UVBorderEdge_init_def)

text \<open>
  \<^bold>\<open>Claim C10 (amended).\<close> A tile does not contain a UV coordinate whose difference from the
  offset of the tile has \<open>x\<close> or \<open>y\<close> equal to \<open>0\<close> or \<open>1\<close>. \<^verbatim>\<open>find_tile\<close> returns null for a UV
  coordinate whose difference from the offset of every tile of the mask has a whole-number
  \<open>x\<close> or \<open>y\<close>, as a coordinate on a boundary of every tile has, and a whole-number coordinate
  when the tiles are at whole-number offsets. A round of \<^verbatim>\<open>extend_border\<close> whose corner vertex
  has a UV coordinate for which \<^verbatim>\<open>find_tile\<close> returns null does not extend the corner: it
  returns the island with the vertex flagged \<^verbatim>\<open>is_extended\<close> and nothing else changed.
\<close>

theorem C10_tile_boundary:
  "(fst (f_sub_v2 F uv (udim_offset tile)) \<in> {0, 1} \<or> snd (f_sub_v2 F uv (udim_offset tile)) \<in> {0, 1}
      \<longrightarrow> \<not> contains F tile uv) \<and>
   ((\<forall>t \<in> set (tiles m). fst (f_sub_v2 F uv (udim_offset t)) \<in> \<int> \<or>
                           snd (f_sub_v2 F uv (udim_offset t)) \<in> \<int>)
      \<longrightarrow> find_tile F m uv = None) \<and>
   (corner_vertex island c = Some p \<and> the_vertex island p = Some v \<and>
    find_tile F m (uvv_uv v) = None \<longrightarrow>
    extend_corner F mesh m island_index island c =
      Some (Some (island\<lparr>uv_vertices := (uv_vertices island)[p := v\<lparr>is_extended := True\<rparr>]\<rparr>)))"
proof (intro conjI impI)
  assume "fst (f_sub_v2 F uv (udim_offset tile)) \<in> {0, 1} \<or>
          snd (f_sub_v2 F uv (udim_offset tile)) \<in> {0, 1}"
  then show "\<not> contains F tile uv"
    by (auto simp: contains_def IN_RANGE_unit Let_def)
next
  assume a: "\<forall>t \<in> set (tiles m). fst (f_sub_v2 F uv (udim_offset t)) \<in> \<int> \<or>
                                   snd (f_sub_v2 F uv (udim_offset t)) \<in> \<int>"
  have "\<not> contains F t uv" if "t \<in> set (tiles m)" for t
    using a that by (auto simp: contains_def Let_def dest: IN_RANGE_unit_Ints)
  then show "find_tile F m uv = None" by (simp add: find_tile_None)
next
  assume "corner_vertex island c = Some p \<and> the_vertex island p = Some v \<and>
    find_tile F m (uvv_uv v) = None"
  then show "extend_corner F mesh m island_index island c =
      Some (Some (island\<lparr>uv_vertices := (uv_vertices island)[p := v\<lparr>is_extended := True\<rparr>]\<rparr>))"
    by (simp add: extend_corner_outside)
qed

theorem C10_tile_boundary_witness:
  "f_sub_v2 real_ops (0, 0) (udim_offset claimed_tile) = (0, 0) \<and>
   f_sub_v2 real_ops (1 / 2, 1) (udim_offset claimed_tile) = (1 / 2, 1) \<and>
   \<not> contains real_ops claimed_tile (0, 0) \<and> \<not> contains real_ops claimed_tile (1 / 2, 1) \<and>
   tiles claimed_mask = [claimed_tile] \<and> find_tile real_ops claimed_mask (0, 0) = None \<and>
   corner_vertex tri_ready tri_corner = Some 0 \<and> the_vertex tri_ready 0 = Some tri_vertex0 \<and>
   uvv_uv tri_vertex0 = (0, 0) \<and>
   extend_corner real_ops tri_mesh claimed_mask 0 tri_ready tri_corner = Some (Some tri_consumed0)"
proof -
  have o: "udim_offset claimed_tile = (0, 0)" "tiles claimed_mask = [claimed_tile]"
    by (simp_all add: claimed_tile_def claimed_mask_def)
  have d: "f_sub_v2 real_ops (0, 0) (0, 0) = (0, 0)" "f_sub_v2 real_ops (1 / 2, 1) (0, 0) = (1 / 2, 1)"
    by (simp_all add: real_ops_def sub_v2_def)
  have u: "uvv_uv tri_vertex0 = (0, 0)" by (simp add: tri_vertex0_def)
  have a: "\<not> contains real_ops claimed_tile (0, 0)"
    using C10_tile_boundary [of real_ops "(0, 0)" claimed_tile] by (simp add: o d)
  have b: "\<not> contains real_ops claimed_tile (1 / 2, 1)"
    using C10_tile_boundary [of real_ops "(1 / 2, 1)" claimed_tile] by (simp add: o d)
  have f: "find_tile real_ops claimed_mask (0, 0) = None"
    using C10_tile_boundary [of real_ops "(0, 0)" claimed_tile claimed_mask] by (simp add: o d)
  have "extend_corner real_ops tri_mesh claimed_mask 0 tri_ready tri_corner = Some (Some tri_consumed0)"
    using C10_tile_boundary [of real_ops "(0, 0)" claimed_tile claimed_mask tri_ready tri_corner 0
        tri_vertex0 tri_mesh 0] f
    by (simp add: tri_corner_vertex u tri_consumed0_def)
  with a b f u o d tri_corner_vertex show ?thesis by simp
qed

text \<open>
  The claim as stated fails when tiles overlap: the UV coordinate \<open>(1, 1/2)\<close> is on the
  boundary of the first tile of \<open>overlap_mask\<close>, which does not contain it, and \<^verbatim>\<open>find_tile\<close>
  returns the second tile.
\<close>

theorem C10_overlap_counterexample:
  "f_sub_v2 real_ops (1, 1 / 2) (udim_offset (tiles overlap_mask ! 0)) = (1, 1 / 2) \<and>
   \<not> contains real_ops (tiles overlap_mask ! 0) (1, 1 / 2) \<and>
   find_tile real_ops overlap_mask (1, 1 / 2) = Some (Tile_init (1 / 2, 0) (1024, 1024))"
  by (simp add: overlap_mask_def add_tile_def Tile_init_def find_tile_def contains_def IN_RANGE_def
      real_ops_def sub_v2_def Let_def)
end
